(* ===== verification/Go_Prelude.thy ===== *)
theory Go_Prelude
  imports Main "HOL-Library.Sublist"
begin

text \<open>
  What every component shares: fallible results as sums, the loops that stop at the first
  error, and the generic facts on lists and maps that the component proofs rest on.

  A Go function that returns \<open>(T, error)\<close> becomes a function into \<open>'e + 'a\<close>: \<open>Inl\<close> carries
  the error, \<open>Inr\<close> the value. A \<open>for\<close> loop whose body may return an error is
  \<open>loop_err\<close> (a state is updated in each round) or \<open>collect_err\<close> (a value is appended in each
  round).
\<close>

named_theorems result_simps "equations of the result combinators"
named_theorems wf_intros "introduction rules of the well-formedness predicates"

subsection \<open>Results\<close>

definition bind_err :: "'e + 'a \<Rightarrow> ('a \<Rightarrow> 'e + 'b) \<Rightarrow> 'e + 'b" where
  "bind_err m f = (case m of Inl e \<Rightarrow> Inl e | Inr x \<Rightarrow> f x)"

lemma bind_err_simps [simp, result_simps]:
  "bind_err (Inl e) f = Inl e"
  "bind_err (Inr x) f = f x"
  by (simp_all add: bind_err_def)

lemma bind_err_Inr_iff [result_simps]:
  "bind_err m f = Inr y \<longleftrightarrow> (\<exists>x. m = Inr x \<and> f x = Inr y)"
  by (simp add: bind_err_def split: sum.splits)

lemma bind_err_Inl_iff:
  "bind_err m f = Inl e \<longleftrightarrow> m = Inl e \<or> (\<exists>x. m = Inr x \<and> f x = Inl e)"
  by (simp add: bind_err_def split: sum.splits)

lemma bind_err_InrE:
  assumes "bind_err m f = Inr y"
  obtains x where "m = Inr x" and "f x = Inr y"
  using assms by (auto simp: bind_err_Inr_iff)

text \<open>
  Elimination rules that walk down the branches of a model: each \<open>if\<close> or \<open>case\<close> that equals a
  value splits, an \<open>Inl\<close> that should be an \<open>Inr\<close> closes the branch, and the value of the
  branch is substituted for the variable that names the result.
\<close>

lemma if_eqE: "(if b then x else y) = z \<Longrightarrow> (b \<Longrightarrow> x = z \<Longrightarrow> P) \<Longrightarrow> (\<not> b \<Longrightarrow> y = z \<Longrightarrow> P) \<Longrightarrow> P"
  by (simp split: if_splits)

lemma option_case_eqE:
  "(case m of None \<Rightarrow> x | Some n \<Rightarrow> h n) = z \<Longrightarrow>
    (m = None \<Longrightarrow> x = z \<Longrightarrow> P) \<Longrightarrow> (\<And>n. m = Some n \<Longrightarrow> h n = z \<Longrightarrow> P) \<Longrightarrow> P"
  by (cases m) auto

lemma sum_case_eqE:
  "(case m of Inl e \<Rightarrow> g e | Inr n \<Rightarrow> h n) = z \<Longrightarrow>
    (\<And>e. m = Inl e \<Longrightarrow> g e = z \<Longrightarrow> P) \<Longrightarrow> (\<And>n. m = Inr n \<Longrightarrow> h n = z \<Longrightarrow> P) \<Longrightarrow> P"
  by (cases m) auto

lemma Inr_eqE: "Inr x = Inr y \<Longrightarrow> (y = x \<Longrightarrow> P) \<Longrightarrow> P"
  by simp

lemma Inl_InrE: "Inl x = Inr y \<Longrightarrow> P"
  by simp

lemmas result_elims = if_eqE option_case_eqE sum_case_eqE Inl_InrE Inr_eqE

subsection \<open>Loops that stop at the first error\<close>

fun loop_err :: "('s \<Rightarrow> 'a \<Rightarrow> 'e + 's) \<Rightarrow> 's \<Rightarrow> 'a list \<Rightarrow> 'e + 's" where
  "loop_err f s [] = Inr s"
| "loop_err f s (x # xs) = (case f s x of Inl e \<Rightarrow> Inl e | Inr s' \<Rightarrow> loop_err f s' xs)"

fun collect_err :: "('a \<Rightarrow> 'e + 'b) \<Rightarrow> 'a list \<Rightarrow> 'e + 'b list" where
  "collect_err f [] = Inr []"
| "collect_err f (x # xs) =
     (case f x of
        Inl e \<Rightarrow> Inl e
      | Inr y \<Rightarrow> (case collect_err f xs of Inl e \<Rightarrow> Inl e | Inr ys \<Rightarrow> Inr (y # ys)))"

lemma case_sum_id: "(case m of Inl e \<Rightarrow> Inl e | Inr s \<Rightarrow> Inr s) = m"
  by (cases m) auto

lemma loop_err_append:
  "loop_err f s (xs @ ys) = bind_err (loop_err f s xs) (\<lambda>s'. loop_err f s' ys)"
  by (induction xs arbitrary: s) (auto split: sum.splits)

lemma loop_err_snoc:
  "loop_err f s (xs @ [x]) = Inr t \<longleftrightarrow> (\<exists>s'. loop_err f s xs = Inr s' \<and> f s' x = Inr t)"
proof -
  have "loop_err f s' [x] = f s' x" for s' by (cases "f s' x") simp_all
  then show ?thesis by (simp add: loop_err_append bind_err_Inr_iff del: loop_err.simps)
qed

text \<open>An invariant of the body is an invariant of the loop.\<close>

lemma loop_err_invariant:
  assumes "loop_err f s xs = Inr t" and "P s"
    and "\<And>s x s'. x \<in> set xs \<Longrightarrow> P s \<Longrightarrow> f s x = Inr s' \<Longrightarrow> P s'"
  shows "P t"
  using assms
proof (induction xs arbitrary: s)
  case (Cons x xs)
  from Cons.prems(1) obtain s' where s': "f s x = Inr s'" and t: "loop_err f s' xs = Inr t"
    by (auto split: sum.splits)
  have "P s'" using Cons.prems(2,3) s' by (meson list.set_intros(1))
  with Cons.IH t Cons.prems(3) show ?case by (meson list.set_intros(2))
qed simp

lemma loop_err_total:
  assumes "\<And>s x. x \<in> set xs \<Longrightarrow> \<exists>s'. f s x = Inr s'"
  shows "\<exists>t. loop_err f s xs = Inr t"
  using assms
proof (induction xs arbitrary: s)
  case (Cons x xs)
  then obtain s' where "f s x = Inr s'" by (meson list.set_intros(1))
  with Cons show ?case by auto
qed simp

lemma collect_err_Inr_iff:
  "collect_err f xs = Inr ys \<longleftrightarrow> map f xs = map Inr ys"
proof (induction xs arbitrary: ys)
  case (Cons x xs)
  show ?case
    using Cons.IH [of "tl ys"]
    by (cases ys; cases "f x"; cases "collect_err f xs") auto
qed auto

lemma collect_err_list_all2:
  "collect_err f xs = Inr ys \<longleftrightarrow> list_all2 (\<lambda>x y. f x = Inr y) xs ys"
  by (simp add: collect_err_Inr_iff list_all2_conv_all_nth list_eq_iff_nth_eq) auto

lemma collect_err_length: "collect_err f xs = Inr ys \<Longrightarrow> length ys = length xs"
  by (auto simp: collect_err_list_all2 dest: list_all2_lengthD)

lemma collect_err_set:
  "collect_err f xs = Inr ys \<Longrightarrow> y \<in> set ys \<Longrightarrow> \<exists>x \<in> set xs. f x = Inr y"
  by (auto simp: collect_err_list_all2 list_all2_conv_all_nth set_conv_nth)

lemma collect_err_total:
  "(\<And>x. x \<in> set xs \<Longrightarrow> \<exists>y. f x = Inr y) \<Longrightarrow> \<exists>ys. collect_err f xs = Inr ys"
proof (induction xs)
  case (Cons x xs)
  obtain y where "f x = Inr y" using Cons.prems by (meson list.set_intros(1))
  moreover obtain ys where "collect_err f xs = Inr ys" using Cons by (meson list.set_intros(2))
  ultimately show ?case by simp
qed simp

lemma collect_err_Inl:
  "collect_err f xs = Inl e \<Longrightarrow> \<exists>x \<in> set xs. f x = Inl e"
  by (induction xs) (auto split: sum.splits)

subsection \<open>Lists\<close>

text \<open>The first element that satisfies a predicate, and its index.\<close>

fun find_index :: "('a \<Rightarrow> bool) \<Rightarrow> 'a list \<Rightarrow> nat option" where
  "find_index p [] = None"
| "find_index p (x # xs) = (if p x then Some 0 else map_option Suc (find_index p xs))"

lemma find_index_Some:
  "find_index p xs = Some i \<longleftrightarrow> i < length xs \<and> p (xs ! i) \<and> (\<forall>j < i. \<not> p (xs ! j))"
proof (induction xs arbitrary: i)
  case (Cons x xs)
  show ?case
  proof (cases i)
    case (Suc k)
    have "(\<forall>j < Suc k. \<not> p ((x # xs) ! j)) \<longleftrightarrow> \<not> p x \<and> (\<forall>j < k. \<not> p (xs ! j))"
      by (metis Suc_less_eq nth_Cons_0 nth_Cons_Suc not0_implies_Suc zero_less_Suc)
    with Suc Cons.IH show ?thesis by auto
  qed auto
qed simp

lemma find_index_None: "find_index p xs = None \<longleftrightarrow> (\<forall>x \<in> set xs. \<not> p x)"
  by (induction xs) auto

lemma find_index_less: "find_index p xs = Some i \<Longrightarrow> i < length xs"
  by (simp add: find_index_Some)

lemma distinct_map_nth_eq:
  "distinct (map f xs) \<Longrightarrow> i < length xs \<Longrightarrow> j < length xs \<Longrightarrow> f (xs ! i) = f (xs ! j) \<Longrightarrow> i = j"
  by (metis length_map nth_eq_iff_index_eq nth_map)

lemma map_of_map_Some:
  "distinct (map f xs) \<Longrightarrow> x \<in> set xs \<Longrightarrow> map_of (map (\<lambda>x. (f x, g x)) xs) (f x) = Some (g x)"
  by (simp add: map_of_eq_Some_iff comp_def image_iff) blast

lemma map_of_map_eq_None:
  "map_of (map (\<lambda>x. (f x, g x)) xs) k = None \<longleftrightarrow> k \<notin> f ` set xs"
  by (induction xs) auto

text \<open>A result that is known to be a success is its right part.\<close>

lemma Inr_projr: "\<not> isl x \<Longrightarrow> x = Inr (projr x)"
  by (cases x) simp_all

lemma Inr_projr_pair: "\<not> isl x \<Longrightarrow> snd (projr x) = i \<Longrightarrow> x = Inr (fst (projr x), i)"
  by (cases x) auto

lemma Inr_projr_split: "\<not> isl x \<Longrightarrow> x = Inr (fst (projr x), snd (projr x))"
  by (cases x) simp_all

text \<open>Searching a list by a key that its elements do not share, and mapping related lists.\<close>

lemma find_distinct_key:
  "distinct (map g xs) \<Longrightarrow> find (\<lambda>x. g x = k) xs = Some x \<longleftrightarrow> x \<in> set xs \<and> g x = k"
  by (induction xs) auto

lemma list_all2_map_eq:
  "list_all2 P xs ys \<Longrightarrow> (\<And>x y. P x y \<Longrightarrow> g x = h y) \<Longrightarrow> map g xs = map h ys"
  by (induction rule: list_all2_induct) auto

lemma those_Some: "those xs = Some ys \<longleftrightarrow> xs = map Some ys"
proof (induction xs arbitrary: ys)
  case (Cons x xs)
  then show ?case by (cases ys) (auto split: option.splits)
qed auto

lemma those_map_Some_iff: "those (map f xs) = Some ys \<longleftrightarrow> list_all2 (\<lambda>x y. f x = Some y) xs ys"
  by (simp add: those_Some list_all2_conv_all_nth list_eq_iff_nth_eq) auto

lemma those_map_total: "(\<forall>x \<in> set xs. \<exists>y. f x = Some y) \<Longrightarrow> \<exists>ys. those (map f xs) = Some ys"
  by (induction xs) auto

lemma list_all2_right: "list_all2 P xs ys \<Longrightarrow> y \<in> set ys \<Longrightarrow> \<exists>x \<in> set xs. P x y"
  by (induction rule: list_all2_induct) auto

lemma filter_key_absent: "k \<notin> g ` set xs \<Longrightarrow> filter (\<lambda>x. g x \<noteq> k) xs = xs"
  by (induction xs) auto

lemma map_key_absent: "k \<notin> g ` set xs \<Longrightarrow> map (\<lambda>x. if g x = k then y else x) xs = xs"
  by (induction xs) auto

lemma subseq_distinct: "subseq xs ys \<Longrightarrow> distinct ys \<Longrightarrow> distinct xs"
  unfolding subseq_conv_nths by (auto intro: distinct_nthsI)

end
