(* ===== verification/Go_Strings.thy ===== *)
theory Go_Strings
  imports Go_Prelude
begin

text \<open>
  Go strings are byte strings, which is what HOL's \<open>string\<close> (a list of 8-bit \<open>char\<close>) is. This
  theory models the functions of the packages \<open>strings\<close> and \<open>strconv\<close> that the source calls,
  under their Go names, and the facts the components need: joining, splitting, replacing,
  searching, trimming, and the decimal form of integers with its inverse. Letter case is the
  one of ASCII, so the model covers identifiers and SQL names written in ASCII.
\<close>

subsection \<open>Characters\<close>

definition code :: "char \<Rightarrow> nat" where
  "code c = of_char c"

definition is_upper :: "char \<Rightarrow> bool" where
  "is_upper c \<longleftrightarrow> 65 \<le> code c \<and> code c \<le> 90"

definition is_lower :: "char \<Rightarrow> bool" where
  "is_lower c \<longleftrightarrow> 97 \<le> code c \<and> code c \<le> 122"

definition is_digit :: "char \<Rightarrow> bool" where
  "is_digit c \<longleftrightarrow> 48 \<le> code c \<and> code c \<le> 57"

definition is_space :: "char \<Rightarrow> bool" where
  "is_space c \<longleftrightarrow> code c = 32 \<or> (9 \<le> code c \<and> code c \<le> 13)"

definition lower_char :: "char \<Rightarrow> char" where
  "lower_char c = (if is_upper c then char_of (code c + 32) else c)"

definition upper_char :: "char \<Rightarrow> char" where
  "upper_char c = (if is_lower c then char_of (code c - 32) else c)"

lemma code_less: "code c < 256"
  by (simp add: code_def)

lemma code_char_of: "n < 256 \<Longrightarrow> code (char_of n) = n"
  by (simp add: code_def)

lemma code_inject [simp]: "code c = code d \<longleftrightarrow> c = d"
  by (simp add: code_def)

lemma code_lower_char: "code (lower_char c) = (if is_upper c then code c + 32 else code c)"
  by (auto simp: lower_char_def is_upper_def code_char_of)

lemma is_upper_lower_char [simp]: "\<not> is_upper (lower_char c)"
  using code_lower_char [of c] by (auto simp: is_upper_def split: if_splits)

lemma lower_char_id: "\<not> is_upper c \<Longrightarrow> lower_char c = c"
  by (simp add: lower_char_def)

lemma is_upper_not_lower: "is_upper c \<Longrightarrow> \<not> is_lower c \<and> \<not> is_digit c"
  by (auto simp: is_upper_def is_lower_def is_digit_def)

lemma is_lower_lower_char: "is_upper c \<Longrightarrow> is_lower (lower_char c)"
  using code_lower_char [of c] by (auto simp: is_upper_def is_lower_def)

definition ToLower :: "string \<Rightarrow> string" where
  "ToLower s = map lower_char s"

definition EqualFold :: "string \<Rightarrow> string \<Rightarrow> bool" where
  "EqualFold s t \<longleftrightarrow> ToLower s = ToLower t"

lemma ToLower_idem [simp]: "ToLower (ToLower s) = ToLower s"
  by (simp add: ToLower_def lower_char_id)

lemma EqualFold_refl [simp]: "EqualFold s s"
  by (simp add: EqualFold_def)

subsection \<open>Prefixes, suffixes, searching\<close>

definition HasPrefix :: "string \<Rightarrow> string \<Rightarrow> bool" where
  "HasPrefix s p \<longleftrightarrow> take (length p) s = p"

definition HasSuffix :: "string \<Rightarrow> string \<Rightarrow> bool" where
  "HasSuffix s p \<longleftrightarrow> HasPrefix (rev s) (rev p)"

lemma HasPrefix_iff: "HasPrefix s p \<longleftrightarrow> (\<exists>r. s = p @ r)"
  unfolding HasPrefix_def by (metis append_eq_conv_conj append_take_drop_id)

lemma HasPrefix_append [simp]: "HasPrefix (p @ s) p"
  by (simp add: HasPrefix_def)

lemma HasPrefix_Nil [simp]: "HasPrefix s []"
  by (simp add: HasPrefix_def)

lemma HasPrefix_Cons [simp]: "HasPrefix (c # s) (d # p) \<longleftrightarrow> c = d \<and> HasPrefix s p"
  by (auto simp: HasPrefix_def)

lemma HasPrefix_Nil_Cons [simp]: "\<not> HasPrefix [] (d # p)"
  by (simp add: HasPrefix_def)

lemma HasPrefix_drop: "HasPrefix s p \<Longrightarrow> s = p @ drop (length p) s"
  by (auto simp: HasPrefix_iff)

fun IndexByte :: "string \<Rightarrow> char \<Rightarrow> nat option" where
  "IndexByte [] c = None"
| "IndexByte (d # s) c = (if d = c then Some 0 else map_option Suc (IndexByte s c))"

lemma IndexByte_Some:
  "IndexByte s c = Some i \<Longrightarrow> s = take i s @ c # drop (Suc i) s \<and> c \<notin> set (take i s)"
proof (induction s arbitrary: i)
  case (Cons d s)
  then show ?case by (cases "d = c") auto
qed simp

lemma IndexByte_append: "c \<notin> set u \<Longrightarrow> IndexByte (u @ c # v) c = Some (length u)"
  by (induction u) auto

lemma IndexByte_None: "IndexByte s c = None \<longleftrightarrow> c \<notin> set s"
  by (induction s) auto

text \<open>\<open>LastIndex s sub\<close> is the position of the last occurrence of \<open>sub\<close> in \<open>s\<close>.\<close>

fun LastIndex :: "string \<Rightarrow> string \<Rightarrow> nat option" where
  "LastIndex [] sub = (if sub = [] then Some 0 else None)"
| "LastIndex (c # s) sub =
     (case LastIndex s sub of
        Some i \<Rightarrow> Some (Suc i)
      | None \<Rightarrow> if HasPrefix (c # s) sub then Some 0 else None)"

lemma LastIndex_Some:
  "LastIndex s sub = Some i \<Longrightarrow> s = take i s @ sub @ drop (i + length sub) s"
proof (induction s arbitrary: i)
  case (Cons c s)
  show ?case
  proof (cases "LastIndex s sub")
    case None
    with Cons.prems have i: "i = 0" and p: "HasPrefix (c # s) sub" by (auto split: if_splits)
    from HasPrefix_drop [OF p] i show ?thesis by simp
  next
    case (Some j)
    with Cons show ?thesis by auto
  qed
qed (auto split: if_splits)

lemma LastIndex_None: "LastIndex s sub = None \<longleftrightarrow> (\<forall>u v. s \<noteq> u @ sub @ v)"
proof (induction s)
  case (Cons c s)
  have "(\<exists>u v. c # s = u @ sub @ v) \<longleftrightarrow> HasPrefix (c # s) sub \<or> (\<exists>u v. s = u @ sub @ v)"
    unfolding HasPrefix_iff by (metis append_Cons append_Nil list.exhaust list.inject)
  with Cons show ?case by (auto split: option.splits)
qed simp

text \<open>After the last occurrence there is no other.\<close>

lemma LastIndex_last:
  "LastIndex s sub = Some i \<Longrightarrow> LastIndex (drop (Suc i) s) sub = None \<or> sub = []"
proof (induction s arbitrary: i)
  case (Cons c s)
  then show ?case by (cases "LastIndex s sub") (auto split: if_splits)
qed (auto split: if_splits)

lemma LastIndex_append:
  "sub \<noteq> [] \<Longrightarrow> LastIndex (tl (sub @ v)) sub = None \<Longrightarrow> LastIndex (u @ sub @ v) sub = Some (length u)"
proof (induction u)
  case Nil
  then obtain c r where "sub @ v = c # r" by (cases "sub @ v") auto
  with Nil show ?case using HasPrefix_append [of sub v] by (simp del: HasPrefix_append)
qed simp

subsection \<open>Joining, splitting, replacing, trimming\<close>

fun Join :: "string list \<Rightarrow> string \<Rightarrow> string" where
  "Join [] sep = []"
| "Join [x] sep = x"
| "Join (x # y # xs) sep = x @ sep @ Join (y # xs) sep"

lemma Join_Cons: "Join (x # xs) sep = (if xs = [] then x else x @ sep @ Join xs sep)"
  by (cases xs) auto

text \<open>\<open>strings.Split\<close> with a separator of one byte, as every call of the source has it.\<close>

fun Split :: "string \<Rightarrow> char \<Rightarrow> string list" where
  "Split [] sep = [[]]"
| "Split (c # s) sep =
     (if c = sep then [] # Split s sep
      else (case Split s sep of [] \<Rightarrow> [[c]] | w # ws \<Rightarrow> (c # w) # ws))"

lemma Split_nonempty [simp]: "Split s sep \<noteq> []"
  by (cases s) (auto split: list.splits)

lemma Split_no_sep: "w \<in> set (Split s sep) \<Longrightarrow> sep \<notin> set w"
  by (induction s arbitrary: w) (auto split: list.splits if_splits)

lemma Join_Split: "Join (Split s sep) [sep] = s"
proof (induction s)
  case (Cons c s)
  then show ?case by (auto simp: Join_Cons split: list.splits if_splits)
qed simp

lemma Split_single: "sep \<notin> set w \<Longrightarrow> Split w sep = [w]"
  by (induction w) auto

lemma Split_append: "sep \<notin> set w \<Longrightarrow> Split (w @ sep # s) sep = w # Split s sep"
  by (induction w) auto

function ReplaceAll :: "string \<Rightarrow> string \<Rightarrow> string \<Rightarrow> string" where
  "ReplaceAll [] old new = []"
| "ReplaceAll (c # s) old new =
     (if old \<noteq> [] \<and> HasPrefix (c # s) old
      then new @ ReplaceAll (drop (length old) (c # s)) old new
      else c # ReplaceAll s old new)"
  by pat_completeness auto
termination
  by (relation "measure (\<lambda>(s, old, new). length s)") auto

lemma ReplaceAll_byte:
  "ReplaceAll s [x] new = concat (map (\<lambda>c. if c = x then new else [c]) s)"
  by (induction s) auto

fun TrimLeft :: "string \<Rightarrow> char \<Rightarrow> string" where
  "TrimLeft [] x = []"
| "TrimLeft (c # s) x = (if c = x then TrimLeft s x else c # s)"

definition TrimRight :: "string \<Rightarrow> char \<Rightarrow> string" where
  "TrimRight s x = rev (TrimLeft (rev s) x)"

definition TrimSpace :: "string \<Rightarrow> string" where
  "TrimSpace s = rev (dropWhile is_space (rev (dropWhile is_space s)))"

lemma TrimLeft_hd: "TrimLeft s x = c # r \<Longrightarrow> c \<noteq> x"
  by (induction s) (auto split: if_splits)

lemma TrimLeft_id: "s = [] \<or> hd s \<noteq> x \<Longrightarrow> TrimLeft s x = s"
  by (cases s) auto

subsection \<open>Decimal numbers\<close>

definition digit_char :: "nat \<Rightarrow> char" where
  "digit_char n = char_of (48 + n)"

fun utoa :: "nat \<Rightarrow> string" where
  "utoa n = (if n < 10 then [digit_char n] else utoa (n div 10) @ [digit_char (n mod 10)])"

declare utoa.simps [simp del]

text \<open>\<open>strconv.Itoa\<close>, \<open>strconv.FormatInt (_, 10)\<close> and the verb \<open>%d\<close>.\<close>

definition itoa :: "int \<Rightarrow> string" where
  "itoa i = (if i < 0 then CHR ''-'' # utoa (nat (- i)) else utoa (nat i))"

definition digit_val :: "char \<Rightarrow> nat" where
  "digit_val c = code c - 48"

definition digits_val :: "string \<Rightarrow> nat" where
  "digits_val s = foldl (\<lambda>n c. 10 * n + digit_val c) 0 s"

text \<open>
  \<open>strconv.ParseInt (s, 10, 64)\<close>, which is also \<open>strconv.Atoi\<close> where \<open>int\<close> has 64 bits: an
  optional sign, then at least one digit and nothing else, and a value of 64 bits. None stands
  for either error (syntax or range); the source never tells them apart.
\<close>

definition parse_int64 :: "string \<Rightarrow> int option" where
  "parse_int64 s =
     (let neg = (case s of c # _ \<Rightarrow> c = CHR ''-'' | [] \<Rightarrow> False);
          ds = (case s of c # r \<Rightarrow> if c = CHR ''-'' \<or> c = CHR ''+'' then r else s | [] \<Rightarrow> []);
          v = int (digits_val ds)
      in if ds = [] \<or> \<not> list_all is_digit ds then None
         else if neg then (if v \<le> 2 ^ 63 then Some (- v) else None)
         else (if v < 2 ^ 63 then Some v else None))"

definition int64_range :: "int \<Rightarrow> bool" where
  "int64_range i \<longleftrightarrow> - (2 ^ 63) \<le> i \<and> i < 2 ^ 63"

lemma code_digit_char: "n < 10 \<Longrightarrow> code (digit_char n) = 48 + n"
  by (simp add: digit_char_def code_char_of)

lemma is_digit_digit_char: "n < 10 \<Longrightarrow> is_digit (digit_char n)"
  by (simp add: is_digit_def code_digit_char)

lemma utoa_nonempty [simp]: "utoa n \<noteq> []"
  by (subst utoa.simps) simp

lemma utoa_digits: "list_all is_digit (utoa n)"
proof (induction n rule: utoa.induct)
  case (1 n)
  then show ?case by (subst utoa.simps) (simp add: is_digit_digit_char)
qed

lemma digits_val_append: "digits_val (s @ [c]) = 10 * digits_val s + digit_val c"
  by (simp add: digits_val_def)

lemma digits_val_utoa [simp]: "digits_val (utoa n) = n"
proof (induction n rule: utoa.induct)
  case (1 n)
  show ?case
  proof (cases "n < 10")
    case True
    then show ?thesis
      by (subst utoa.simps) (simp add: digits_val_def digit_val_def code_digit_char)
  next
    case False
    then show ?thesis using 1
      by (subst utoa.simps) (simp add: digits_val_append digit_val_def code_digit_char)
  qed
qed

lemma is_digit_signs [simp]: "\<not> is_digit CHR ''-''" "\<not> is_digit CHR ''+''"
  by (simp_all add: is_digit_def code_def)

lemma hd_utoa_digit: "utoa n = c # r \<Longrightarrow> is_digit c"
  using utoa_digits [of n] by simp

lemma parse_int64_range: "parse_int64 s = Some v \<Longrightarrow> int64_range v"
  by (auto simp: parse_int64_def int64_range_def Let_def split: if_splits)

lemma parse_int64_itoa: "int64_range i \<Longrightarrow> parse_int64 (itoa i) = Some i"
proof (cases "i < 0")
  case True
  assume "int64_range i"
  with True show ?thesis
    by (simp add: parse_int64_def itoa_def utoa_digits int64_range_def)
next
  case False
  assume r: "int64_range i"
  obtain c u where cu: "utoa (nat i) = c # u" by (cases "utoa (nat i)") auto
  from hd_utoa_digit [OF cu] have "c \<noteq> CHR ''-''" "c \<noteq> CHR ''+''" by auto
  with False r cu utoa_digits [of "nat i"] digits_val_utoa [of "nat i"] show ?thesis
    by (simp add: parse_int64_def itoa_def int64_range_def)
qed

end
