(* ===== verification/Go_Utf8.thy ===== *)
theory Go_Utf8
  imports Go_Strings
begin

text \<open>
  The runes of a Go string (package \<open>unicode/utf8\<close>): how many bytes the rune at the front takes, its
  code point, and the bytes of a code point. A byte that starts no valid sequence is a rune of one byte.
\<close>

definition continuation :: "nat \<Rightarrow> nat \<Rightarrow> char \<Rightarrow> bool" where
  "continuation lo hi c \<longleftrightarrow> lo \<le> code c \<and> code c \<le> hi"

definition rune_size :: "string \<Rightarrow> nat" where
  "rune_size s =
     (case s of
        c # c1 # r \<Rightarrow>
          (let b = code c; tail = continuation 128 191 in
           if 194 \<le> b \<and> b \<le> 223 then (if tail c1 then 2 else 1)
           else if 224 \<le> b \<and> b \<le> 239 then
             (if continuation (if b = 224 then 160 else 128) (if b = 237 then 159 else 191) c1 \<and>
                 r \<noteq> [] \<and> tail (hd r) then 3 else 1)
           else if 240 \<le> b \<and> b \<le> 244 then
             (if continuation (if b = 240 then 144 else 128) (if b = 244 then 143 else 191) c1 \<and>
                 1 < length r \<and> tail (hd r) \<and> tail (r ! 1) then 4 else 1)
           else 1)
      | _ \<Rightarrow> 1)"

lemma rune_size_pos: "0 < rune_size s"
  by (simp add: rune_size_def Let_def split: list.splits)

text \<open>The length of \<open>[]rune(s)\<close>.\<close>

function rune_count :: "string \<Rightarrow> nat" where
  "rune_count [] = 0"
| "rune_count (c # s) = Suc (rune_count (drop (rune_size (c # s)) (c # s)))"
  by pat_completeness auto
termination
  by (relation "measure length") (simp_all add: rune_size_pos)

definition encode_rune :: "nat \<Rightarrow> string" where
  "encode_rune r =
     (if r < 128 then [char_of r]
      else if r < 2048 then [char_of (192 + r div 64), char_of (128 + r mod 64)]
      else if r < 65536 then
        [char_of (224 + r div 4096), char_of (128 + r div 64 mod 64), char_of (128 + r mod 64)]
      else
        [char_of (240 + r div 262144), char_of (128 + r div 4096 mod 64),
         char_of (128 + r div 64 mod 64), char_of (128 + r mod 64)])"

definition decode_rune :: "string \<Rightarrow> nat" where
  "decode_rune w =
     (case map code w of
        [a, b] \<Rightarrow> (a - 192) * 64 + (b - 128)
      | [a, b, c] \<Rightarrow> (a - 224) * 4096 + (b - 128) * 64 + (c - 128)
      | [a, b, c, d] \<Rightarrow> (a - 240) * 262144 + (b - 128) * 4096 + (c - 128) * 64 + (d - 128)
      | a # _ \<Rightarrow> a
      | [] \<Rightarrow> 0)"

lemma char_of_code: "n = code c \<Longrightarrow> char_of n = c"
  by (simp add: code_def)

lemma base64_digits:
  assumes "(z :: nat) < 64"
  shows "(x * 64 + z) mod 64 = z" and "(x * 64 + z) div 64 = x"
  using assms by simp_all

lemma offset: "n \<le> code c \<Longrightarrow> \<exists>x. code c = n + x"
  by (rule le_Suc_ex)

lemma encode_two:
  assumes "194 \<le> code a" and "code a \<le> 223" and "128 \<le> code b" and "code b \<le> 191"
  shows "encode_rune (decode_rune [a, b]) = [a, b]"
proof -
  from offset [of 192 a] offset [of 128 b] assms obtain x y where
    xy: "code a = 192 + x" "code b = 128 + y" by auto
  with assms have lt: "y < 64" "2 \<le> x" "x < 32" by simp_all
  then have "128 \<le> x * 64 + y" "x * 64 + y < 2048" by linarith+
  then have "encode_rune (x * 64 + y) = [a, b]"
    using base64_digits [OF lt(1), of x] xy by (simp add: encode_rune_def char_of_code)
  with xy show ?thesis by (simp add: decode_rune_def)
qed

lemma div_4096: "(n :: nat) div 4096 = n div 64 div 64"
  using div_mult2_eq [of n 64 64] by simp

lemma div_262144: "(n :: nat) div 262144 = n div 64 div 64 div 64"
  using div_mult2_eq [of n 4096 64] by (simp add: div_4096)

lemma encode_three:
  assumes "224 \<le> code a" and "code a \<le> 239" and "128 \<le> code b" and "code b \<le> 191"
    and "code a = 224 \<Longrightarrow> 160 \<le> code b" and "128 \<le> code c" and "code c \<le> 191"
  shows "encode_rune (decode_rune [a, b, c]) = [a, b, c]"
proof -
  from offset [of 224 a] offset [of 128 b] offset [of 128 c] assms obtain x y z where
    xyz: "code a = 224 + x" "code b = 128 + y" "code c = 128 + z" by auto
  with assms have lt: "z < 64" "y < 64" "x < 16" and "x \<noteq> 0 \<or> 32 \<le> y" by auto
  let ?r = "(x * 64 + y) * 64 + z"
  have "2048 \<le> ?r" using \<open>x \<noteq> 0 \<or> 32 \<le> y\<close> by auto
  moreover have "?r < 65536" using lt by simp
  moreover have "?r mod 64 = z" "?r div 64 = x * 64 + y" using base64_digits [OF lt(1)] by blast+
  ultimately have "encode_rune ?r = [a, b, c]"
    using base64_digits [OF lt(2), of x] xyz by (simp add: encode_rune_def char_of_code div_4096)
  moreover have "decode_rune [a, b, c] = ?r" using xyz by (simp add: decode_rune_def)
  ultimately show ?thesis by simp
qed

lemma encode_four:
  assumes "240 \<le> code a" and "code a \<le> 244" and "128 \<le> code b" and "code b \<le> 191"
    and "code a = 240 \<Longrightarrow> 144 \<le> code b"
    and "128 \<le> code c" and "code c \<le> 191" and "128 \<le> code d" and "code d \<le> 191"
  shows "encode_rune (decode_rune [a, b, c, d]) = [a, b, c, d]"
proof -
  from offset [of 240 a] offset [of 128 b] offset [of 128 c] offset [of 128 d] assms obtain w x y z where
    wxyz: "code a = 240 + w" "code b = 128 + x" "code c = 128 + y" "code d = 128 + z" by auto
  with assms have lt: "z < 64" "y < 64" "x < 64" and "w \<noteq> 0 \<or> 16 \<le> x" by auto
  let ?r = "((w * 64 + x) * 64 + y) * 64 + z"
  have "65536 \<le> ?r" using \<open>w \<noteq> 0 \<or> 16 \<le> x\<close> by auto
  moreover have "?r mod 64 = z" "?r div 64 = (w * 64 + x) * 64 + y" using base64_digits [OF lt(1)] by blast+
  ultimately have "encode_rune ?r = [a, b, c, d]"
    using base64_digits [OF lt(2), of "w * 64 + x"] base64_digits [OF lt(3), of w] wxyz
    by (simp add: encode_rune_def char_of_code div_4096 div_262144)
  moreover have "decode_rune [a, b, c, d] = ?r" using wxyz by (simp add: decode_rune_def)
  ultimately show ?thesis by simp
qed

lemma rune_shapes:
  assumes "rune_size s \<noteq> 1"
  obtains (two) a b where "take (rune_size s) s = [a, b]" "194 \<le> code a" "code a \<le> 223" "128 \<le> code b" "code b \<le> 191"
  | (three) a b c where "take (rune_size s) s = [a, b, c]" "224 \<le> code a" "code a \<le> 239" "128 \<le> code b"
      "code b \<le> 191" "code a = 224 \<Longrightarrow> 160 \<le> code b" "128 \<le> code c" "code c \<le> 191"
  | (four) a b c d where "take (rune_size s) s = [a, b, c, d]" "240 \<le> code a" "code a \<le> 244" "128 \<le> code b"
      "code b \<le> 191" "code a = 240 \<Longrightarrow> 144 \<le> code b" "128 \<le> code c" "code c \<le> 191" "128 \<le> code d" "code d \<le> 191"
proof -
  from assms obtain a b r where s: "s = a # b # r"
    by (auto simp: rune_size_def split: list.splits)
  show thesis
  proof (cases "code a \<le> 223")
    case True
    with assms s show thesis
      by (intro two [of a b]) (auto simp: rune_size_def continuation_def Let_def eval_nat_numeral split: if_splits)
  next
    case big: False
    show thesis
    proof (cases "code a \<le> 239")
      case True
      with assms s big obtain c r' where r: "r = c # r'"
        by (cases r) (auto simp: rune_size_def Let_def split: if_splits)
      from True assms s big r show thesis
        by (intro three [of a b c]) (auto simp: rune_size_def continuation_def Let_def eval_nat_numeral split: if_splits)
    next
      case False
      with assms s big obtain c d r' where r: "r = c # d # r'"
        by (cases r; cases "tl r") (auto simp: rune_size_def Let_def split: if_splits)
      from False assms s big r show thesis
        by (intro four [of a b c d]) (auto simp: rune_size_def continuation_def Let_def eval_nat_numeral split: if_splits)
    qed
  qed
qed

lemma encode_decode: "rune_size s \<noteq> 1 \<Longrightarrow> encode_rune (decode_rune (take (rune_size s) s)) = take (rune_size s) s"
  by (erule rune_shapes) (simp_all add: encode_two encode_three encode_four)

lemma rune_bytes: "rune_size s \<noteq> 1 \<Longrightarrow> c \<in> set (take (rune_size s) s) \<Longrightarrow> 128 \<le> code c"
  by (erule rune_shapes) auto

lemma rune_size_ascii: "code c < 128 \<Longrightarrow> rune_size (c # s) = 1"
  by (auto simp: rune_size_def Let_def split: list.splits)

lemma decode_rune_less: "rune_size s \<noteq> 1 \<Longrightarrow> decode_rune (take (rune_size s) s) < 2 ^ 32"
  by (erule rune_shapes) (simp_all add: decode_rune_def)

end
