(* ===== verification/Go_Values.thy ===== *)
theory Go_Values
  imports Go_Strings
begin

text \<open>
  The dynamic values and types that the source reaches by reflection and through \<open>any\<close>:
  \<open>goval\<close> is a Go value, \<open>gotype\<close> the type of a struct field, an instance of a struct is the
  list of its field values. Integers carry their width, and storing into one wraps as
  \<open>reflect.Value.SetInt\<close> and \<open>SetUint\<close> do. \<open>sprint\<close> is \<open>fmt.Sprint\<close> of one operand.
\<close>

subsection \<open>Times\<close>

text \<open>A \<open>time.Time\<close> by its civil reading and the offset of its zone in minutes.\<close>

record gotime =
  t_year :: int
  t_month :: nat
  t_day :: nat
  t_hour :: nat
  t_minute :: nat
  t_second :: nat
  t_nano :: nat
  t_zone :: int

definition zero_time :: gotime where
  "zero_time = \<lparr>t_year = 1, t_month = 1, t_day = 1, t_hour = 0, t_minute = 0, t_second = 0,
     t_nano = 0, t_zone = 0\<rparr>"

definition pad :: "nat \<Rightarrow> nat \<Rightarrow> string" where
  "pad w n = replicate (w - length (utoa n)) CHR ''0'' @ utoa n"

definition pad_year :: "int \<Rightarrow> string" where
  "pad_year y = (if y < 0 then CHR ''-'' # pad 4 (nat (- y)) else pad 4 (nat y))"

definition frac_string :: "nat \<Rightarrow> string" where
  "frac_string n =
     (if n = 0 then []
      else CHR ''.'' # rev (dropWhile (\<lambda>c. c = CHR ''0'') (rev (pad 9 n))))"

definition zone_string :: "int \<Rightarrow> string" where
  "zone_string z = (if z < 0 then CHR ''-'' else CHR ''+'') #
     pad 2 (nat \<bar>z\<bar> div 60) @ pad 2 (nat \<bar>z\<bar> mod 60)"

text \<open>\<open>time.Time.String\<close>: layout \<open>2006-01-02 15:04:05.999999999 -0700 MST\<close>.\<close>

definition time_string :: "gotime \<Rightarrow> string" where
  "time_string t =
     pad_year (t_year t) @ ''-'' @ pad 2 (t_month t) @ ''-'' @ pad 2 (t_day t) @ '' '' @
     pad 2 (t_hour t) @ '':'' @ pad 2 (t_minute t) @ '':'' @ pad 2 (t_second t) @
     frac_string (t_nano t) @ '' '' @ zone_string (t_zone t) @ '' '' @
     (if t_zone t = 0 then ''UTC'' else zone_string (t_zone t))"

subsection \<open>Types and values\<close>

datatype ikind = IInt | I8 | I16 | I32 | I64

fun ibits :: "ikind \<Rightarrow> nat" where
  "ibits IInt = 64"
| "ibits I8 = 8"
| "ibits I16 = 16"
| "ibits I32 = 32"
| "ibits I64 = 64"

definition wrap_int :: "ikind \<Rightarrow> int \<Rightarrow> int" where
  "wrap_int k i = signed_take_bit (ibits k - 1) i"

definition wrap_uint :: "ikind \<Rightarrow> int \<Rightarrow> int" where
  "wrap_uint k i = take_bit (ibits k) i"

text \<open>A named struct type: its package path and its name.\<close>

datatype rtype = RType (rt_pkg: string) (rt_name: string)

datatype gotype =
    TString
  | TInt ikind
  | TUint ikind
  | TBool
  | TTime
  | TFK rtype
  | TStruct rtype
  | TOther string

text \<open>
  \<open>VFK pk obj\<close> is a value of \<open>FK[T]\<close> with its loaded object, if any. \<open>VFloat i s\<close> is a
  \<open>float64\<close> by its integer part and its printed form, all the source reads of one; \<open>VOther ty s\<close> is
  a value of any other type, by type name and printed form.
\<close>

datatype goval =
    VNil
  | VInt ikind int
  | VUint ikind int
  | VBool bool
  | VString string
  | VBytes string
  | VTime gotime
  | VFloat int string
  | VFK int "goval list option"
  | VSlice "goval list"
  | VOther string string

type_synonym struct_val = "goval list"

fun zero_val :: "gotype \<Rightarrow> goval" where
  "zero_val TString = VString []"
| "zero_val (TInt k) = VInt k 0"
| "zero_val (TUint k) = VUint k 0"
| "zero_val TBool = VBool False"
| "zero_val TTime = VTime zero_time"
| "zero_val (TFK t) = VFK 0 None"
| "zero_val (TStruct t) = VOther (rt_name t) ''{}''"
| "zero_val (TOther n) = VOther n []"

text \<open>
  \<open>fmt.Sprint\<close>. The struct \<open>FK[T]\<close> prints its three fields; the address of a loaded object,
  which no run repeats, is printed as \<open>0x0\<close>.
\<close>

fun sprint :: "goval \<Rightarrow> string" where
  "sprint VNil = ''<nil>''"
| "sprint (VInt k i) = itoa i"
| "sprint (VUint k i) = itoa i"
| "sprint (VBool b) = (if b then ''true'' else ''false'')"
| "sprint (VString s) = s"
| "sprint (VBytes s) = ''['' @ Join (map (\<lambda>c. utoa (code c)) s) '' '' @ '']''"
| "sprint (VTime t) = time_string t"
| "sprint (VFloat i s) = s"
| "sprint (VFK pk None) = ''{'' @ itoa pk @ '' <nil> false}''"
| "sprint (VFK pk (Some obj)) = ''{'' @ itoa pk @ '' 0x0 true}''"
| "sprint (VSlice vs) = ''['' @ Join (map sprint vs) '' '' @ '']''"
| "sprint (VOther ty s) = s"

lemma wrap_int_range:
  "- (2 ^ (ibits k - 1)) \<le> wrap_int k i \<and> wrap_int k i < 2 ^ (ibits k - 1)"
  by (simp add: wrap_int_def signed_take_bit_int_less_exp signed_take_bit_int_greater_eq_minus_exp)

lemma wrap_int_id:
  "- (2 ^ (ibits k - 1)) \<le> i \<Longrightarrow> i < 2 ^ (ibits k - 1) \<Longrightarrow> wrap_int k i = i"
  unfolding wrap_int_def by (rule signed_take_bit_int_eq_self)

lemma wrap_uint_range: "0 \<le> wrap_uint k i \<and> wrap_uint k i < 2 ^ ibits k"
  by (simp add: wrap_uint_def)

lemma wrap_uint_id: "0 \<le> i \<Longrightarrow> i < 2 ^ ibits k \<Longrightarrow> wrap_uint k i = i"
  by (simp add: wrap_uint_def take_bit_int_eq_self)

text \<open>A well-typed value of a field type, with its integer in range.\<close>

definition has_type :: "goval \<Rightarrow> gotype \<Rightarrow> bool" where
  "has_type v t \<longleftrightarrow>
     (case t of
        TString \<Rightarrow> (case v of VString s \<Rightarrow> True | _ \<Rightarrow> False)
      | TInt k \<Rightarrow> (case v of VInt k' i \<Rightarrow> k = k' \<and> wrap_int k i = i | _ \<Rightarrow> False)
      | TUint k \<Rightarrow> (case v of VUint k' i \<Rightarrow> k = k' \<and> wrap_uint k i = i | _ \<Rightarrow> False)
      | TBool \<Rightarrow> (case v of VBool b \<Rightarrow> True | _ \<Rightarrow> False)
      | TTime \<Rightarrow> (case v of VTime t \<Rightarrow> True | _ \<Rightarrow> False)
      | TFK r \<Rightarrow> (case v of VFK pk obj \<Rightarrow> int64_range pk | _ \<Rightarrow> False)
      | TStruct r \<Rightarrow> (case v of VOther n s \<Rightarrow> True | _ \<Rightarrow> False)
      | TOther m \<Rightarrow> (case v of VOther n s \<Rightarrow> True | _ \<Rightarrow> False))"

lemma has_type_zero_val [simp]: "has_type (zero_val t) t"
  by (cases t) (simp_all add: has_type_def wrap_int_def wrap_uint_def int64_range_def)

end
