(* ===== verification/Orm_Field.thy ===== *)
theory Orm_Field
  imports Go_Values
begin

text \<open>
  \<open>orm/field.go\<close>, \<open>orm/meta.go\<close>, the relation types of \<open>orm/relations.go\<close> and the errors of the
  package: how a struct field and its \<open>orm\<close> tag become a column description. A field that parses
  satisfies \<open>field_wf\<close>, on which the registry, the SQL generation and the forms rely.
\<close>

subsection \<open>Kinds, relations, fields\<close>

datatype kind = KindAuto | KindInt | KindChar | KindText | KindBool | KindDateTime

fun kind_string :: "kind \<Rightarrow> string" where
  "kind_string KindAuto = ''Auto''"
| "kind_string KindInt = ''Int''"
| "kind_string KindChar = ''Char''"
| "kind_string KindText = ''Text''"
| "kind_string KindBool = ''Bool''"
| "kind_string KindDateTime = ''DateTime''"

datatype rel_kind = RelNone | RelFK

datatype on_delete = OnDeleteDoNothing | OnDeleteCascade | OnDeleteSetNull | OnDeleteRestrict

fun on_delete_clause :: "on_delete \<Rightarrow> string" where
  "on_delete_clause OnDeleteCascade = '' ON DELETE CASCADE''"
| "on_delete_clause OnDeleteSetNull = '' ON DELETE SET NULL''"
| "on_delete_clause OnDeleteRestrict = '' ON DELETE RESTRICT''"
| "on_delete_clause OnDeleteDoNothing = []"

fun on_delete_string :: "on_delete \<Rightarrow> string" where
  "on_delete_string OnDeleteCascade = ''cascade''"
| "on_delete_string OnDeleteSetNull = ''set_null''"
| "on_delete_string OnDeleteRestrict = ''restrict''"
| "on_delete_string OnDeleteDoNothing = ''do_nothing''"

text \<open>
  A \<open>*Model\<close> is a position in the registry's list of models: relations may form cycles, and
  \<open>Resolve\<close> links them in place.
\<close>

record relation =
  rel_kind :: rel_kind
  rel_column :: string
  rel_on_delete :: on_delete
  rel_target_type :: rtype
  rel_target :: "nat option"

record choice =
  c_value :: string
  c_label :: string

record field =
  f_name :: string
  f_column :: string
  f_kind :: kind
  f_primary_key :: bool
  f_null :: bool
  f_unique :: bool
  f_max_length :: int
  f_index :: nat
  f_rel :: "relation option"
  f_has_default :: bool
  f_default :: goval
  f_auto_now_add :: bool
  f_auto_now :: bool
  f_choices :: "choice list"

datatype default_error =
    InvalidIntDefault string
  | InvalidBoolDefault string
  | DefaultOnDateTime
  | DefaultUnsupported

text \<open>The errors of \<open>field.go\<close>, one constructor for each error the source builds.\<close>

datatype field_error =
    UnsupportedType string gotype
  | SetNullRequiresNull string
  | AutoNowExclusive string
  | TypeTextNotString string
  | EmptyColumnName string
  | InvalidMaxLength string string
  | NotATimeField string string
  | BadDefault string default_error
  | BadOnDelete string string
  | PkOnRelation string
  | NotValidOnRelation string string
  | UnknownTagOption string string

definition parse_on_delete :: "string \<Rightarrow> string + on_delete" where
  "parse_on_delete raw =
     (if raw = ''cascade'' then Inr OnDeleteCascade
      else if raw = ''set_null'' then Inr OnDeleteSetNull
      else if raw = ''restrict'' then Inr OnDeleteRestrict
      else if raw = ''do_nothing'' then Inr OnDeleteDoNothing
      else Inl raw)"

subsection \<open>Column names\<close>

text \<open>\<open>toSnakeCase\<close>: the loop reads the previous and the next character of each position.\<close>

fun snake_from :: "char option \<Rightarrow> string \<Rightarrow> string" where
  "snake_from prev [] = []"
| "snake_from prev (r # rest) =
     (if is_upper r then
        (case prev of
           None \<Rightarrow> []
         | Some p \<Rightarrow>
             if is_lower p \<or> is_digit p \<or> (case rest of [] \<Rightarrow> False | n # _ \<Rightarrow> is_lower n)
             then ''_'' else []) @ [lower_char r]
      else [r]) @ snake_from (Some r) rest"

definition to_snake_case :: "string \<Rightarrow> string" where
  "to_snake_case s = snake_from None s"

subsection \<open>Tag options\<close>

definition parse_default :: "kind \<Rightarrow> string \<Rightarrow> default_error + goval" where
  "parse_default k raw =
     (case k of
        KindInt \<Rightarrow>
          (case parse_int64 raw of
             None \<Rightarrow> Inl (InvalidIntDefault raw)
           | Some n \<Rightarrow> Inr (VInt I64 n))
      | KindBool \<Rightarrow>
          (if raw = ''true'' then Inr (VBool True)
           else if raw = ''false'' then Inr (VBool False)
           else Inl (InvalidBoolDefault raw))
      | KindChar \<Rightarrow> Inr (VString raw)
      | KindText \<Rightarrow> Inr (VString raw)
      | KindDateTime \<Rightarrow> Inl DefaultOnDateTime
      | _ \<Rightarrow> Inl DefaultUnsupported)"

text \<open>
  \<open>token[len(p):]\<close> after \<open>HasPrefix (token, p)\<close>.
\<close>

definition after :: "string \<Rightarrow> string \<Rightarrow> string" where
  "after p token = drop (length p) token"

definition apply_tag_option :: "field \<Rightarrow> string \<Rightarrow> string \<Rightarrow> field_error + field" where
  "apply_tag_option f fieldName token =
     (if token = ''pk'' then Inr (f\<lparr>f_primary_key := True\<rparr>)
      else if token = ''null'' then Inr (f\<lparr>f_null := True\<rparr>)
      else if token = ''unique'' then Inr (f\<lparr>f_unique := True\<rparr>)
      else if token = ''type=text'' then
        (if f_kind f \<noteq> KindChar then Inl (TypeTextNotString fieldName)
         else Inr (f\<lparr>f_kind := KindText, f_max_length := 0\<rparr>))
      else if HasPrefix token ''column='' then
        (let name = after ''column='' token
         in if name = [] then Inl (EmptyColumnName fieldName) else Inr (f\<lparr>f_column := name\<rparr>))
      else if HasPrefix token ''max_length='' then
        (let raw = after ''max_length='' token
         in case parse_int64 raw of
              None \<Rightarrow> Inl (InvalidMaxLength fieldName raw)
            | Some n \<Rightarrow> if n \<le> 0 then Inl (InvalidMaxLength fieldName raw)
                        else Inr (f\<lparr>f_max_length := n\<rparr>))
      else if token = ''auto_now_add'' then
        (if f_kind f \<noteq> KindDateTime then Inl (NotATimeField fieldName token)
         else Inr (f\<lparr>f_auto_now_add := True\<rparr>))
      else if token = ''auto_now'' then
        (if f_kind f \<noteq> KindDateTime then Inl (NotATimeField fieldName token)
         else Inr (f\<lparr>f_auto_now := True\<rparr>))
      else if HasPrefix token ''default='' then
        (case parse_default (f_kind f) (after ''default='' token) of
           Inl e \<Rightarrow> Inl (BadDefault fieldName e)
         | Inr v \<Rightarrow> Inr (f\<lparr>f_has_default := True, f_default := v\<rparr>))
      else Inl (UnknownTagOption fieldName token))"

definition set_on_delete :: "on_delete \<Rightarrow> field \<Rightarrow> field" where
  "set_on_delete od f = f\<lparr>f_rel := map_option (\<lambda>r. r\<lparr>rel_on_delete := od\<rparr>) (f_rel f)\<rparr>"

definition apply_relation_tag_option :: "field \<Rightarrow> string \<Rightarrow> string \<Rightarrow> field_error + field" where
  "apply_relation_tag_option f fieldName token =
     (if token = ''null'' then Inr (f\<lparr>f_null := True\<rparr>)
      else if token = ''unique'' then Inr (f\<lparr>f_unique := True\<rparr>)
      else if HasPrefix token ''column='' then
        (let name = after ''column='' token
         in if name = [] then Inl (EmptyColumnName fieldName) else Inr (f\<lparr>f_column := name\<rparr>))
      else if HasPrefix token ''on_delete='' then
        (case parse_on_delete (after ''on_delete='' token) of
           Inl e \<Rightarrow> Inl (BadOnDelete fieldName e)
         | Inr od \<Rightarrow> Inr (set_on_delete od f))
      else if token = ''pk'' then Inl (PkOnRelation fieldName)
      else if token = ''type=text'' \<or> HasPrefix token ''max_length='' \<or> token = ''auto_now'' \<or>
              token = ''auto_now_add'' \<or> HasPrefix token ''default=''
        then Inl (NotValidOnRelation fieldName token)
      else Inl (UnknownTagOption fieldName token))"

text \<open>
  The loop over the tokens of a tag, with either of the two functions above: tokens are split at
  semicolons and trimmed, empty ones are skipped, the first error stops it.
\<close>

definition apply_tags ::
  "(field \<Rightarrow> string \<Rightarrow> string \<Rightarrow> field_error + field) \<Rightarrow> field \<Rightarrow> string \<Rightarrow> string \<Rightarrow> field_error + field"
where
  "apply_tags apply_opt f name tag =
     (if tag = [] then Inr f
      else loop_err
             (\<lambda>f token. let t = TrimSpace token in if t = [] then Inr f else apply_opt f name t)
             f (Split tag CHR '';''))"

subsection \<open>Struct fields\<close>

text \<open>
  What reflection tells of a struct field: name, whether it is exported (\<open>PkgPath\<close> is empty),
  type, and the text of its \<open>orm\<close> tag.
\<close>

record struct_field =
  sf_name :: string
  sf_exported :: bool
  sf_type :: gotype
  sf_tag :: string

definition base_field :: "struct_field \<Rightarrow> nat \<Rightarrow> field" where
  "base_field sf index =
     \<lparr>f_name = sf_name sf, f_column = to_snake_case (sf_name sf), f_kind = KindAuto,
      f_primary_key = False, f_null = False, f_unique = False, f_max_length = 0,
      f_index = index, f_rel = None, f_has_default = False, f_default = VNil,
      f_auto_now_add = False, f_auto_now = False, f_choices = []\<rparr>"

definition relation_field :: "struct_field \<Rightarrow> nat \<Rightarrow> rtype \<Rightarrow> field_error + field option" where
  "relation_field sf index target =
     (let f = (base_field sf index)
            \<lparr>f_kind := KindInt, f_column := to_snake_case (sf_name sf) @ ''_id'',
             f_rel := Some \<lparr>rel_kind = RelFK, rel_column = [], rel_on_delete = OnDeleteDoNothing,
                            rel_target_type = target, rel_target = None\<rparr>\<rparr>
      in case apply_tags apply_relation_tag_option f (sf_name sf) (sf_tag sf) of
           Inl e \<Rightarrow> Inl e
         | Inr f \<Rightarrow>
             if map_option rel_on_delete (f_rel f) = Some OnDeleteSetNull \<and> \<not> f_null f
             then Inl (SetNullRequiresNull (sf_name sf))
             else Inr (Some (f\<lparr>f_rel := map_option (\<lambda>r. r\<lparr>rel_column := f_column f\<rparr>) (f_rel f)\<rparr>)))"

definition scalar_kind :: "gotype \<Rightarrow> (kind \<times> int) option" where
  "scalar_kind t =
     (case t of
        TString \<Rightarrow> Some (KindChar, 255)
      | TInt k \<Rightarrow> Some (KindInt, 0)
      | TUint k \<Rightarrow> Some (KindInt, 0)
      | TBool \<Rightarrow> Some (KindBool, 0)
      | TTime \<Rightarrow> Some (KindDateTime, 0)
      | _ \<Rightarrow> None)"

definition parse_struct_field :: "struct_field \<Rightarrow> nat \<Rightarrow> field_error + field option" where
  "parse_struct_field sf index =
     (if \<not> sf_exported sf \<or> sf_tag sf = ''-'' then Inr None
      else case sf_type sf of
        TFK target \<Rightarrow> relation_field sf index target
      | t \<Rightarrow>
        (case scalar_kind t of
           None \<Rightarrow> Inl (UnsupportedType (sf_name sf) t)
         | Some (k, len) \<Rightarrow>
             (case apply_tags apply_tag_option
                     ((base_field sf index)\<lparr>f_kind := k, f_max_length := len\<rparr>)
                     (sf_name sf) (sf_tag sf) of
                Inl e \<Rightarrow> Inl e
              | Inr f \<Rightarrow>
                  if f_auto_now f \<and> f_auto_now_add f then Inl (AutoNowExclusive (sf_name sf))
                  else Inr (Some f))))"

subsection \<open>Column names: facts\<close>

lemma is_upper_underscore [simp]: "\<not> is_upper CHR ''_''"
  by (simp add: is_upper_def code_def)

lemma snake_from_no_upper: "c \<in> set (snake_from prev s) \<Longrightarrow> \<not> is_upper c"
  by (induction prev s rule: snake_from.induct) (auto split: if_splits option.splits)

lemma snake_from_id: "(\<And>c. c \<in> set s \<Longrightarrow> \<not> is_upper c) \<Longrightarrow> snake_from prev s = s"
  by (induction s arbitrary: prev) auto

lemma lower_char_underscore [simp]: "lower_char c = CHR ''_'' \<longleftrightarrow> c = CHR ''_''"
proof
  assume l: "lower_char c = CHR ''_''"
  show "c = CHR ''_''"
  proof (cases "is_upper c")
    case True
    from is_lower_lower_char [OF True] l show ?thesis by (simp add: is_lower_def code_def)
  next
    case False
    with l show ?thesis by (simp add: lower_char_def)
  qed
qed (simp add: lower_char_def is_upper_def code_def)

lemma snake_from_letters:
  "filter (\<lambda>c. c \<noteq> CHR ''_'') (snake_from prev s) = filter (\<lambda>c. c \<noteq> CHR ''_'') (ToLower s)"
  by (induction prev s rule: snake_from.induct) (auto simp: ToLower_def lower_char_id split: option.splits)

lemma snake_from_nonempty: "s \<noteq> [] \<Longrightarrow> snake_from prev s \<noteq> []"
  by (cases s) auto

lemma to_snake_case_nonempty: "s \<noteq> [] \<Longrightarrow> to_snake_case s \<noteq> []"
  by (simp add: to_snake_case_def snake_from_nonempty)

subsection \<open>Well-formed fields\<close>

definition default_typed :: "kind \<Rightarrow> goval \<Rightarrow> bool" where
  "default_typed k v \<longleftrightarrow>
     (case k of
        KindInt \<Rightarrow> (\<exists>n. v = VInt I64 n \<and> int64_range n)
      | KindBool \<Rightarrow> (\<exists>b. v = VBool b)
      | KindChar \<Rightarrow> (\<exists>s. v = VString s)
      | KindText \<Rightarrow> (\<exists>s. v = VString s)
      | _ \<Rightarrow> False)"

text \<open>
  What holds of every field that parses: a column name, a default of its kind, time stamps on time
  columns only and never both, and on a relation an integer column that carries its name, with
  neither default nor primary key, and nullable under \<open>ON DELETE SET NULL\<close>.
\<close>

definition scalar_wf :: "field \<Rightarrow> bool" where
  "scalar_wf f \<longleftrightarrow>
     f_column f \<noteq> [] \<and> 0 \<le> f_max_length f \<and>
     (f_has_default f \<longrightarrow> default_typed (f_kind f) (f_default f)) \<and>
     (f_auto_now f \<or> f_auto_now_add f \<longrightarrow> f_kind f = KindDateTime)"

definition relation_wf :: "field \<Rightarrow> relation \<Rightarrow> bool" where
  "relation_wf f r \<longleftrightarrow>
     rel_kind r = RelFK \<and> rel_column r = f_column f \<and> f_kind f = KindInt \<and>
     (rel_on_delete r = OnDeleteSetNull \<longrightarrow> f_null f) \<and>
     \<not> f_has_default f \<and> \<not> f_primary_key f \<and> \<not> f_auto_now f \<and> \<not> f_auto_now_add f"

definition field_wf :: "field \<Rightarrow> bool" where
  "field_wf f \<longleftrightarrow>
     scalar_wf f \<and> \<not> (f_auto_now f \<and> f_auto_now_add f) \<and>
     (case f_rel f of None \<Rightarrow> True | Some r \<Rightarrow> relation_wf f r)"

lemma parse_default_typed: "parse_default k raw = Inr v \<Longrightarrow> default_typed k v"
  by (auto simp: parse_default_def default_typed_def split: kind.splits option.splits if_splits
      dest: parse_int64_range)

lemma apply_tag_option_wf:
  assumes "apply_tag_option f name token = Inr g" and "scalar_wf f"
  shows "scalar_wf g"
  using assms unfolding apply_tag_option_def Let_def
  by (elim result_elims) (simp_all add: scalar_wf_def default_typed_def parse_default_typed [unfolded default_typed_def])

lemma apply_tag_option_frame:
  assumes "apply_tag_option f name token = Inr g"
  shows "f_name g = f_name f \<and> f_index g = f_index f \<and> f_choices g = f_choices f \<and>
    f_rel g = f_rel f \<and> (f_kind g = f_kind f \<or> f_kind f = KindChar \<and> f_kind g = KindText)"
  using assms unfolding apply_tag_option_def Let_def
  by (elim result_elims) simp_all

text \<open>The part of \<open>relation_wf\<close> that the options of a relation keep while the tag is read.\<close>

definition relation_open :: "field \<Rightarrow> bool" where
  "relation_open f \<longleftrightarrow>
     f_column f \<noteq> [] \<and> f_kind f = KindInt \<and> f_max_length f = 0 \<and> \<not> f_has_default f \<and>
     \<not> f_primary_key f \<and> \<not> f_auto_now f \<and> \<not> f_auto_now_add f \<and>
     (\<exists>r. f_rel f = Some r \<and> rel_kind r = RelFK)"

lemma apply_relation_tag_option_open:
  assumes "apply_relation_tag_option f name token = Inr g" and "relation_open f"
  shows "relation_open g \<and> f_name g = f_name f \<and> f_index g = f_index f \<and>
    map_option rel_target_type (f_rel g) = map_option rel_target_type (f_rel f)"
  using assms unfolding apply_relation_tag_option_def Let_def
  by (elim result_elims) (auto simp: relation_open_def set_on_delete_def)

text \<open>A predicate that every option keeps holds after the whole tag.\<close>

lemma apply_tags_invariant:
  assumes "apply_tags apply_opt f name tag = Inr g" and "P f"
    and "\<And>f token g. P f \<Longrightarrow> apply_opt f name token = Inr g \<Longrightarrow> P g"
  shows "P g"
proof (cases "tag = []")
  case True
  with assms show ?thesis by (simp add: apply_tags_def)
next
  case False
  with assms(1) have l: "loop_err
      (\<lambda>f token. let t = TrimSpace token in if t = [] then Inr f else apply_opt f name t)
      f (Split tag CHR '';'') = Inr g"
    by (simp add: apply_tags_def)
  show ?thesis
    by (rule loop_err_invariant [of _ _ _ _ P, OF l])
      (use assms(2,3) in \<open>auto simp: Let_def split: if_splits\<close>)
qed

lemma scalar_wf_base:
  "sf_name sf \<noteq> [] \<Longrightarrow> 0 \<le> n \<Longrightarrow> scalar_wf ((base_field sf i)\<lparr>f_kind := k, f_max_length := n\<rparr>)"
  by (simp add: scalar_wf_def base_field_def to_snake_case_nonempty)

lemma scalar_kind_length: "scalar_kind t = Some (k, n) \<Longrightarrow> 0 \<le> n"
  by (auto simp: scalar_kind_def split: gotype.splits)

lemma relation_field_wf:
  assumes "relation_field sf i target = Inr (Some f)"
  shows "field_wf f \<and> f_name f = sf_name sf \<and> f_index f = i \<and>
    (\<exists>r. f_rel f = Some r \<and> rel_target_type r = target)"
proof -
  let ?f0 = "(base_field sf i)\<lparr>f_kind := KindInt, f_column := to_snake_case (sf_name sf) @ ''_id'',
     f_rel := Some \<lparr>rel_kind = RelFK, rel_column = [], rel_on_delete = OnDeleteDoNothing,
                    rel_target_type = target, rel_target = None\<rparr>\<rparr>"
  let ?P = "\<lambda>g. relation_open g \<and> f_name g = sf_name sf \<and> f_index g = i \<and>
     map_option rel_target_type (f_rel g) = Some target"
  from assms obtain g where g: "apply_tags apply_relation_tag_option ?f0 (sf_name sf) (sf_tag sf) = Inr g"
    and sn: "\<not> (map_option rel_on_delete (f_rel g) = Some OnDeleteSetNull \<and> \<not> f_null g)"
    and f: "f = g\<lparr>f_rel := map_option (\<lambda>r. r\<lparr>rel_column := f_column g\<rparr>) (f_rel g)\<rparr>"
    by (auto simp: relation_field_def Let_def split: sum.splits if_splits)
  have "?P g"
    by (rule apply_tags_invariant [OF g, of ?P])
      (auto simp: relation_open_def base_field_def dest: apply_relation_tag_option_open)
  with sn show ?thesis
    by (auto simp: f field_wf_def scalar_wf_def relation_wf_def relation_open_def)
qed

lemma scalar_field_wf:
  assumes "apply_tags apply_tag_option ((base_field sf i)\<lparr>f_kind := k, f_max_length := n\<rparr>)
      (sf_name sf) (sf_tag sf) = Inr f"
    and "sf_name sf \<noteq> []" and "0 \<le> n"
  shows "scalar_wf f \<and> f_rel f = None \<and> f_name f = sf_name sf \<and> f_index f = i \<and>
    (f_kind f = k \<or> k = KindChar \<and> f_kind f = KindText)"
proof -
  let ?P = "\<lambda>g. scalar_wf g \<and> f_rel g = None \<and> f_name g = sf_name sf \<and> f_index g = i \<and>
    (f_kind g = k \<or> k = KindChar \<and> f_kind g = KindText)"
  show ?thesis
  proof (rule apply_tags_invariant [OF assms(1), of ?P])
    show "?P ((base_field sf i)\<lparr>f_kind := k, f_max_length := n\<rparr>)"
      using scalar_wf_base assms(2,3) by (simp add: base_field_def)
  next
    fix f token g
    assume "?P f" and "apply_tag_option f (sf_name sf) token = Inr g"
    then show "?P g"
      using apply_tag_option_wf apply_tag_option_frame by fastforce
  qed
qed

lemma parse_struct_field_cases:
  assumes "parse_struct_field sf i = Inr (Some f)"
  shows "sf_exported sf \<and> sf_tag sf \<noteq> ''-'' \<and>
    ((\<exists>t. sf_type sf = TFK t \<and> relation_field sf i t = Inr (Some f)) \<or>
     (\<exists>k n. scalar_kind (sf_type sf) = Some (k, n) \<and>
        apply_tags apply_tag_option ((base_field sf i)\<lparr>f_kind := k, f_max_length := n\<rparr>)
          (sf_name sf) (sf_tag sf) = Inr f \<and> \<not> (f_auto_now f \<and> f_auto_now_add f)))"
  using assms
  by (auto simp: parse_struct_field_def split: if_splits gotype.splits option.splits sum.splits)

lemma parse_struct_field_field_wf:
  assumes "parse_struct_field sf i = Inr (Some f)" and "sf_name sf \<noteq> []"
  shows "field_wf f \<and> f_name f = sf_name sf \<and> f_index f = i"
  using parse_struct_field_cases [OF assms(1)]
proof (elim conjE disjE exE)
  fix t
  assume "relation_field sf i t = Inr (Some f)"
  from relation_field_wf [OF this] show ?thesis by simp
next
  fix k n
  assume k: "scalar_kind (sf_type sf) = Some (k, n)"
    and a: "apply_tags apply_tag_option ((base_field sf i)\<lparr>f_kind := k, f_max_length := n\<rparr>)
        (sf_name sf) (sf_tag sf) = Inr f"
    and "\<not> (f_auto_now f \<and> f_auto_now_add f)"
  with scalar_field_wf [OF a assms(2) scalar_kind_length [OF k]] show ?thesis
    by (simp add: field_wf_def)
qed

lemma parse_on_delete_string [simp]: "parse_on_delete (on_delete_string od) = Inr od"
  by (cases od) (simp_all add: parse_on_delete_def)

lemma parse_on_delete_Inr: "parse_on_delete raw = Inr od \<longleftrightarrow> raw = on_delete_string od"
  by (cases od) (auto simp: parse_on_delete_def)

subsection \<open>Properties\<close>

text \<open>A column name that \<open>toSnakeCase\<close> derives has no upper-case letter, is the lower-cased field
  name up to underscores, and is a fixed point: deriving again changes nothing.\<close>

theorem to_snake_case_form:
  "list_all (\<lambda>c. \<not> is_upper c) (to_snake_case s) \<and>
   filter (\<lambda>c. c \<noteq> CHR ''_'') (to_snake_case s) = filter (\<lambda>c. c \<noteq> CHR ''_'') (ToLower s) \<and>
   to_snake_case (to_snake_case s) = to_snake_case s"
  unfolding to_snake_case_def list_all_iff
  by (auto simp: snake_from_letters intro!: snake_from_id dest: snake_from_no_upper)

text \<open>C11: A struct field that parses is exported and not tagged \<open>-\<close>, and is well formed: it keeps its
  name and index and has a column, its default has the type of its kind, \<open>auto_now\<close> and
  \<open>auto_now_add\<close> stand on time fields only and never together, and a relation is an integer column
  with neither default nor primary key, nullable when it is deleted with \<open>SET NULL\<close>.\<close>

theorem parse_struct_field_wf:
  assumes "parse_struct_field sf i = Inr (Some f)" and "sf_name sf \<noteq> []"
  shows "sf_exported sf \<and> sf_tag sf \<noteq> ''-'' \<and> f_name f = sf_name sf \<and> f_index f = i \<and> field_wf f"
  using parse_struct_field_field_wf [OF assms] parse_struct_field_cases [OF assms(1)] by blast

definition author_field :: struct_field where
  "author_field = \<lparr>sf_name = ''Author'', sf_exported = True, sf_type = TFK (RType ''blog'' ''Author''),
     sf_tag = ''null; on_delete=set_null''\<rparr>"

lemma parse_author_field:
  "parse_struct_field author_field 2 = Inr (Some
     \<lparr>f_name = ''Author'', f_column = ''author_id'', f_kind = KindInt, f_primary_key = False,
      f_null = True, f_unique = False, f_max_length = 0, f_index = 2,
      f_rel = Some \<lparr>rel_kind = RelFK, rel_column = ''author_id'', rel_on_delete = OnDeleteSetNull,
        rel_target_type = RType ''blog'' ''Author'', rel_target = None\<rparr>,
      f_has_default = False, f_default = VNil, f_auto_now_add = False, f_auto_now = False,
      f_choices = []\<rparr>)"
  by code_simp

theorem parse_struct_field_wf_witness:
  "\<exists>f. parse_struct_field author_field 2 = Inr (Some f) \<and> f_name f = sf_name author_field \<and>
     f_index f = 2 \<and> field_wf f"
proof -
  have "sf_name author_field \<noteq> []" by (simp add: author_field_def)
  from parse_struct_field_wf [OF parse_author_field this] parse_author_field show ?thesis by blast
qed

end
