(* ===== verification/Orm_Registry.thy ===== *)
theory Orm_Registry
  imports Orm_Field
begin

text \<open>
  \<open>orm/model.go\<close>, \<open>orm/registry.go\<close> and \<open>orm/label.go\<close>: models, their registration, the linking of
  relations, and the printed label of an instance. A \<open>*Model\<close> is a position in \<open>reg_models\<close>, a
  \<open>*Field\<close> of a model a position in \<open>m_fields\<close>. Every registry that \<open>Register\<close> and \<open>Resolve\<close>
  build satisfies \<open>registry_wf\<close>.
\<close>

subsection \<open>Models\<close>

record model =
  m_name :: string
  m_table :: string
  m_fields :: "field list"
  m_pk :: "nat option"
  m_by_name :: "string \<rightharpoonup> nat"
  m_by_column :: "string \<rightharpoonup> nat"
  m_go_type :: rtype

definition primary_key :: "model \<Rightarrow> field option" where
  "primary_key m = map_option (\<lambda>i. m_fields m ! i) (m_pk m)"

definition relations :: "model \<Rightarrow> field list" where
  "relations m = filter (\<lambda>f. f_rel f \<noteq> None) (m_fields m)"

definition field_by_name :: "model \<Rightarrow> string \<Rightarrow> field option" where
  "field_by_name m name = map_option (\<lambda>i. m_fields m ! i) (m_by_name m name)"

definition columns :: "model \<Rightarrow> string list" where
  "columns m = map f_column (m_fields m)"

text \<open>
  The argument of \<open>Register\<close>. \<open>st_meta\<close> is the table of the model's \<open>Meta()\<close> if it has that
  method; \<open>st_choices\<close> is the map its \<open>Choices()\<close> returns, if it has that one, as a list in the order
  in which \<open>range\<close> happens to visit it.
\<close>

record struct_type =
  st_type :: rtype
  st_fields :: "struct_field list"
  st_meta :: "string option"
  st_choices :: "(string \<times> choice list) list option"

datatype reg_arg =
    NotPointer string
  | NilPointer string
  | PointerToNonStruct string
  | PointerToStruct struct_type

fun name_of :: "reg_arg \<Rightarrow> string" where
  "name_of (NotPointer n) = n"
| "name_of (NilPointer n) = n"
| "name_of (PointerToNonStruct n) = n"
| "name_of (PointerToStruct st) = rt_name (st_type st)"

record registry =
  reg_models :: "model list"
  reg_by_type :: "rtype \<rightharpoonup> nat"
  reg_by_name :: "string \<rightharpoonup> nat"
  reg_frozen :: bool

definition new_registry :: registry where
  "new_registry = \<lparr>reg_models = [], reg_by_type = Map.empty, reg_by_name = Map.empty,
     reg_frozen = False\<rparr>"

datatype registry_error =
    RegistryFrozen string
  | NotAStructPointer string
  | AlreadyRegistered string
  | BadField string field_error
  | MultiplePrimaryKeys string
  | NoPrimaryKey string
  | PrimaryKeyDefault string string
  | DuplicateColumn string string
  | ChoicesUnknownField string string
  | ChoicesNotString string string
  | UnregisteredTarget string string rtype

subsection \<open>Registration\<close>

text \<open>Step 4: the fields that are kept, each with its index in the struct.\<close>

definition collect_fields :: "struct_type \<Rightarrow> field_error + field list" where
  "collect_fields st =
     (case collect_err (\<lambda>(i, sf). parse_struct_field sf i)
             (enumerate 0 (st_fields st)) of
        Inl e \<Rightarrow> Inl e
      | Inr fs \<Rightarrow> Inr (concat (map (\<lambda>f. case f of None \<Rightarrow> [] | Some f \<Rightarrow> [f]) fs)))"

text \<open>Step 5: the table name.\<close>

definition table_name :: "struct_type \<Rightarrow> string" where
  "table_name st =
     (case st_meta st of
        Some t \<Rightarrow> if t \<noteq> [] then t else ToLower (rt_name (st_type st))
      | None \<Rightarrow> ToLower (rt_name (st_type st)))"

text \<open>
  Step 6: the one tagged field, or else the first field named ID of kind \<open>KindInt\<close>; it is then
  marked, becomes \<open>KindAuto\<close> when it is an integer, and must not have a default.
\<close>

definition find_pk :: "string \<Rightarrow> field list \<Rightarrow> registry_error + nat" where
  "find_pk name fs =
     (case filter (\<lambda>i. f_primary_key (fs ! i)) [0..<length fs] of
        [] \<Rightarrow>
          (case find_index (\<lambda>f. f_name f = ''ID'' \<and> f_kind f = KindInt) fs of
             None \<Rightarrow> Inl (NoPrimaryKey name)
           | Some i \<Rightarrow> Inr i)
      | [i] \<Rightarrow> Inr i
      | _ \<Rightarrow> Inl (MultiplePrimaryKeys name))"

definition promote :: "field \<Rightarrow> field" where
  "promote f = f\<lparr>f_primary_key := True,
     f_kind := (if f_kind f = KindInt then KindAuto else f_kind f)\<rparr>"

definition resolve_pk :: "string \<Rightarrow> field list \<Rightarrow> registry_error + (field list \<times> nat)" where
  "resolve_pk name fs =
     (case find_pk name fs of
        Inl e \<Rightarrow> Inl e
      | Inr i \<Rightarrow>
          (let fs = fs[i := promote (fs ! i)]
           in if f_has_default (fs ! i)
              then Inl (PrimaryKeyDefault name (f_name (fs ! i)))
              else Inr (fs, i)))"

text \<open>Step 7: the two lookup maps; a column that is already there is an error.\<close>

definition index_field ::
  "string \<Rightarrow> field list \<Rightarrow> (string \<rightharpoonup> nat) \<times> (string \<rightharpoonup> nat) \<Rightarrow> nat \<Rightarrow>
     registry_error + (string \<rightharpoonup> nat) \<times> (string \<rightharpoonup> nat)"
where
  "index_field name fs maps i =
     (let f = fs ! i; byName = (fst maps)(f_name f \<mapsto> i)
      in if snd maps (f_column f) \<noteq> None then Inl (DuplicateColumn name (f_column f))
         else Inr (byName, (snd maps)(f_column f \<mapsto> i)))"

definition index_fields ::
  "string \<Rightarrow> field list \<Rightarrow> registry_error + (string \<rightharpoonup> nat) \<times> (string \<rightharpoonup> nat)"
where
  "index_fields name fs =
     loop_err (index_field name fs) (Map.empty, Map.empty) [0..<length fs]"

text \<open>The choices: each names a field of kind \<open>KindChar\<close>, whose options it sets.\<close>

definition apply_choice ::
  "string \<Rightarrow> (string \<rightharpoonup> nat) \<Rightarrow> field list \<Rightarrow> string \<times> choice list \<Rightarrow> registry_error + field list"
where
  "apply_choice name byName fs = (\<lambda>(fieldName, choices).
     (case byName fieldName of
        None \<Rightarrow> Inl (ChoicesUnknownField name fieldName)
      | Some i \<Rightarrow>
          if f_kind (fs ! i) \<noteq> KindChar then Inl (ChoicesNotString name fieldName)
          else Inr (fs[i := (fs ! i)\<lparr>f_choices := choices\<rparr>])))"

definition apply_choices ::
  "string \<Rightarrow> (string \<rightharpoonup> nat) \<Rightarrow> (string \<times> choice list) list option \<Rightarrow> field list \<Rightarrow>
     registry_error + field list"
where
  "apply_choices name byName choices fs =
     (case choices of
        None \<Rightarrow> Inr fs
      | Some cs \<Rightarrow> loop_err (apply_choice name byName) fs cs)"

definition build_model :: "struct_type \<Rightarrow> registry_error + model" where
  "build_model st =
     (let name = rt_name (st_type st)
      in case collect_fields st of
           Inl e \<Rightarrow> Inl (BadField name e)
         | Inr fs \<Rightarrow>
             (case resolve_pk name fs of
                Inl e \<Rightarrow> Inl e
              | Inr (fs, pk) \<Rightarrow>
                  (case index_fields name fs of
                     Inl e \<Rightarrow> Inl e
                   | Inr (byName, byColumn) \<Rightarrow>
                       (case apply_choices name byName (st_choices st) fs of
                          Inl e \<Rightarrow> Inl e
                        | Inr fs \<Rightarrow>
                            Inr \<lparr>m_name = name, m_table = table_name st, m_fields = fs,
                                 m_pk = Some pk, m_by_name = byName, m_by_column = byColumn,
                                 m_go_type = st_type st\<rparr>))))"

definition register :: "registry \<Rightarrow> reg_arg \<Rightarrow> registry_error + registry \<times> nat" where
  "register r arg =
     (if reg_frozen r then Inl (RegistryFrozen (name_of arg))
      else case arg of
        PointerToStruct st \<Rightarrow>
          (let name = rt_name (st_type st)
           in if reg_by_name r name \<noteq> None then Inl (AlreadyRegistered name)
              else case build_model st of
                     Inl e \<Rightarrow> Inl e
                   | Inr m \<Rightarrow>
                       (let i = length (reg_models r)
                        in Inr (r\<lparr>reg_models := reg_models r @ [m],
                                  reg_by_type := (reg_by_type r)(st_type st \<mapsto> i),
                                  reg_by_name := (reg_by_name r)(name \<mapsto> i)\<rparr>, i)))
      | _ \<Rightarrow> Inl (NotAStructPointer (name_of arg)))"

definition freeze :: "registry \<Rightarrow> registry" where
  "freeze r = r\<lparr>reg_frozen := True\<rparr>"

definition registry_get :: "registry \<Rightarrow> string \<Rightarrow> model option" where
  "registry_get r name = map_option (\<lambda>i. reg_models r ! i) (reg_by_name r name)"

text \<open>\<open>ModelOf\<close>, given the type of its argument with a pointer removed (None for nil).\<close>

definition model_of :: "registry \<Rightarrow> rtype option \<Rightarrow> model option" where
  "model_of r t =
     (case t of
        None \<Rightarrow> None
      | Some t \<Rightarrow> map_option (\<lambda>i. reg_models r ! i) (reg_by_type r t))"

subsection \<open>Resolving relations\<close>

definition resolve_field :: "registry \<Rightarrow> string \<Rightarrow> field \<Rightarrow> registry_error + field" where
  "resolve_field r mname f =
     (case f_rel f of
        None \<Rightarrow> Inr f
      | Some rel \<Rightarrow>
          (case reg_by_type r (rel_target_type rel) of
             None \<Rightarrow> Inl (UnregisteredTarget mname (f_name f) (rel_target_type rel))
           | Some i \<Rightarrow> Inr (f\<lparr>f_rel := Some (rel\<lparr>rel_target := Some i\<rparr>)\<rparr>)))"

definition resolve_model :: "registry \<Rightarrow> model \<Rightarrow> registry_error + model" where
  "resolve_model r m =
     (case collect_err (resolve_field r (m_name m)) (m_fields m) of
        Inl e \<Rightarrow> Inl e
      | Inr fs \<Rightarrow> Inr (m\<lparr>m_fields := fs\<rparr>))"

text \<open>
  The source links in place and stops at the first error; on an error the caller gives the registry
  up, so the model returns the error alone.
\<close>

definition resolve :: "registry \<Rightarrow> registry_error + registry" where
  "resolve r =
     (case collect_err (resolve_model r) (reg_models r) of
        Inl e \<Rightarrow> Inl e
      | Inr ms \<Rightarrow> Inr (r\<lparr>reg_models := ms\<rparr>))"

subsection \<open>Labels\<close>

text \<open>
  \<open>Label\<close> of an instance; \<open>str\<close> is the model's own \<open>String()\<close> method, None when it has none.
\<close>

datatype instance_val = StructInstance struct_val | NilInstance | OtherInstance

definition pk_value :: "model \<Rightarrow> instance_val \<Rightarrow> goval" where
  "pk_value m inst =
     (case primary_key m of
        None \<Rightarrow> VString []
      | Some pk \<Rightarrow>
          (case inst of
             StructInstance vs \<Rightarrow> vs ! f_index pk
           | _ \<Rightarrow> VString []))"

definition default_label :: "model \<Rightarrow> instance_val \<Rightarrow> string" where
  "default_label m inst = m_name m @ '' object ('' @ sprint (pk_value m inst) @ '')''"

definition label :: "(instance_val \<Rightarrow> string) option \<Rightarrow> model \<Rightarrow> instance_val \<Rightarrow> string" where
  "label str m inst =
     (case str of Some s \<Rightarrow> s inst | None \<Rightarrow> default_label m inst)"

subsection \<open>Well-formed models\<close>

text \<open>
  The language's own rules on a struct: exported fields have names, and different ones.
\<close>

definition go_struct :: "struct_type \<Rightarrow> bool" where
  "go_struct st \<longleftrightarrow>
     (\<forall>sf \<in> set (st_fields st). sf_name sf \<noteq> []) \<and>
     distinct (map sf_name (filter sf_exported (st_fields st)))"

definition pk_wf :: "field list \<Rightarrow> nat \<Rightarrow> bool" where
  "pk_wf fs pk \<longleftrightarrow>
     pk < length fs \<and> (\<forall>i < length fs. f_primary_key (fs ! i) \<longleftrightarrow> i = pk) \<and>
     f_kind (fs ! pk) \<noteq> KindInt \<and> \<not> f_has_default (fs ! pk)"

definition fields_wf :: "field list \<Rightarrow> nat \<Rightarrow> bool" where
  "fields_wf fs pk \<longleftrightarrow>
     (\<forall>i < length fs. f_column (fs ! i) \<noteq> [] \<and> (i \<noteq> pk \<longrightarrow> field_wf (fs ! i)))"

definition model_wf :: "model \<Rightarrow> bool" where
  "model_wf m \<longleftrightarrow>
     m_name m = rt_name (m_go_type m) \<and>
     (\<exists>pk. m_pk m = Some pk \<and> pk_wf (m_fields m) pk \<and> fields_wf (m_fields m) pk) \<and>
     (\<forall>c i. m_by_column m c = Some i \<longleftrightarrow> i < length (m_fields m) \<and> f_column (m_fields m ! i) = c) \<and>
     (\<forall>n i. m_by_name m n = Some i \<longleftrightarrow> i < length (m_fields m) \<and> f_name (m_fields m ! i) = n)"

definition registry_wf :: "registry \<Rightarrow> bool" where
  "registry_wf r \<longleftrightarrow>
     (\<forall>m \<in> set (reg_models r). model_wf m) \<and>
     (\<forall>n i. reg_by_name r n = Some i \<longleftrightarrow> i < length (reg_models r) \<and> m_name (reg_models r ! i) = n) \<and>
     (\<forall>t i. reg_by_type r t = Some i \<longleftrightarrow> i < length (reg_models r) \<and> m_go_type (reg_models r ! i) = t)"

lemma index_map_distinct:
  assumes "\<forall>k i. b k = Some i \<longleftrightarrow> i < length xs \<and> g (xs ! i) = k"
  shows "distinct (map g xs)"
  by (simp add: distinct_conv_nth) (metis assms option.inject)

lemma model_wf_distinct_columns: "model_wf m \<Longrightarrow> distinct (columns m)"
  unfolding model_wf_def columns_def by (blast intro: index_map_distinct)

lemma registry_wf_distinct_names: "registry_wf r \<Longrightarrow> distinct (map m_name (reg_models r))"
  unfolding registry_wf_def by (blast intro: index_map_distinct)

lemma model_wf_primary_key:
  "model_wf m \<Longrightarrow> \<exists>pk. primary_key m = Some pk \<and> f_primary_key pk \<and> pk \<in> set (m_fields m)"
  by (auto simp: model_wf_def primary_key_def pk_wf_def)

subsubsection \<open>Each step of the registration\<close>

definition parsed_as :: "struct_field \<Rightarrow> field option \<Rightarrow> bool" where
  "parsed_as sf g \<longleftrightarrow>
     (case g of
        None \<Rightarrow> True
      | Some f \<Rightarrow> sf_exported sf \<and> field_wf f \<and> f_name f = sf_name sf)"

lemma parse_struct_field_parsed_as:
  "parse_struct_field sf i = Inr g \<Longrightarrow> sf_name sf \<noteq> [] \<Longrightarrow> parsed_as sf g"
  by (cases g) (auto simp: parsed_as_def dest: parse_struct_field_field_wf parse_struct_field_cases)

lemma collect_parsed_as:
  "list_all2 (\<lambda>x g. (case x of (i, sf) \<Rightarrow> parse_struct_field sf i) = Inr g) (enumerate n sfs) gs \<Longrightarrow>
     \<forall>sf \<in> set sfs. sf_name sf \<noteq> [] \<Longrightarrow> list_all2 parsed_as sfs gs"
  by (induction sfs arbitrary: n gs) (auto simp: list_all2_Cons1 intro: parse_struct_field_parsed_as)

lemma collect_fields_wf:
  assumes "collect_fields st = Inr fs" and "go_struct st"
  shows "(\<forall>f \<in> set fs. field_wf f) \<and> distinct (map f_name fs)"
proof -
  from assms(1) obtain gs where
    gs: "collect_err (\<lambda>(i, sf). parse_struct_field sf i) (enumerate 0 (st_fields st)) = Inr gs"
    and fs: "fs = concat (map (\<lambda>f. case f of None \<Rightarrow> [] | Some f \<Rightarrow> [f]) gs)"
    by (auto simp: collect_fields_def split: sum.splits)
  have R: "list_all2 parsed_as (st_fields st) gs"
    using gs assms(2) unfolding collect_err_list_all2 go_struct_def
    by (blast intro: collect_parsed_as)
  have "set (map f_name fs) \<subseteq> set (map sf_name (filter sf_exported (st_fields st))) \<and>
      (distinct (map sf_name (filter sf_exported (st_fields st))) \<longrightarrow> distinct (map f_name fs)) \<and>
      (\<forall>f \<in> set fs. field_wf f)"
    using R unfolding fs
  proof (induction rule: list_all2_induct)
    case (Cons sf sfs g gs)
    then show ?case by (cases g) (auto simp: parsed_as_def)
  qed simp
  with assms(2) show ?thesis by (simp add: go_struct_def)
qed

lemma find_pk_Inr:
  assumes "find_pk name fs = Inr i"
  shows "i < length fs \<and> (\<forall>j < length fs. f_primary_key (fs ! j) \<longrightarrow> j = i)"
proof (cases "filter (\<lambda>i. f_primary_key (fs ! i)) [0..<length fs]")
  case Nil
  with assms show ?thesis
    by (auto simp: find_pk_def filter_empty_conv find_index_less split: option.splits)
next
  case (Cons j js)
  with assms have i: "filter (\<lambda>i. f_primary_key (fs ! i)) [0..<length fs] = [i]"
    by (auto simp: find_pk_def split: list.splits)
  have "set (filter (\<lambda>i. f_primary_key (fs ! i)) [0..<length fs]) = {i}" by (simp add: i)
  then show ?thesis by auto
qed

lemma resolve_pk_Inr:
  assumes "resolve_pk name fs = Inr (gs, pk)"
  shows "pk < length fs \<and> gs = fs[pk := promote (fs ! pk)] \<and> pk_wf gs pk"
proof -
  from assms have i: "find_pk name fs = Inr pk" and gs: "gs = fs[pk := promote (fs ! pk)]"
    and d: "\<not> f_has_default (gs ! pk)"
    by (auto simp: resolve_pk_def Let_def split: sum.splits if_splits)
  from find_pk_Inr [OF i] gs d show ?thesis
    by (auto simp: pk_wf_def promote_def nth_list_update)
qed

definition indexed :: "field list \<Rightarrow> nat \<Rightarrow> (string \<rightharpoonup> nat) \<times> (string \<rightharpoonup> nat) \<Rightarrow> bool" where
  "indexed fs n maps \<longleftrightarrow>
     (\<forall>c i. snd maps c = Some i \<longleftrightarrow> i < n \<and> f_column (fs ! i) = c) \<and>
     (\<forall>x i. fst maps x = Some i \<longrightarrow> i < n \<and> f_name (fs ! i) = x) \<and>
     (\<forall>i < n. fst maps (f_name (fs ! i)) \<noteq> None)"

lemma index_field_indexed:
  assumes "index_field name fs maps n = Inr maps'" and "indexed fs n maps"
  shows "indexed fs (Suc n) maps'"
proof -
  from assms(1) have new: "snd maps (f_column (fs ! n)) = None"
    and m: "maps' = ((fst maps)(f_name (fs ! n) \<mapsto> n), (snd maps)(f_column (fs ! n) \<mapsto> n))"
    by (auto simp: index_field_def Let_def split: if_splits)
  from new assms(2) have "\<forall>i < n. f_column (fs ! i) \<noteq> f_column (fs ! n)"
    unfolding indexed_def by (metis option.distinct(1))
  with assms(2) show ?thesis
    unfolding m indexed_def by (auto simp: less_Suc_eq)
qed

lemma index_fields_indexed:
  assumes "index_fields name fs = Inr maps"
  shows "indexed fs (length fs) maps"
proof -
  have "loop_err (index_field name fs) (Map.empty, Map.empty) [0..<n] = Inr maps \<Longrightarrow> indexed fs n maps"
    for n maps
  proof (induction n arbitrary: maps)
    case 0
    then show ?case by (auto simp: indexed_def)
  next
    case (Suc n)
    from Suc.prems obtain maps' where
      "loop_err (index_field name fs) (Map.empty, Map.empty) [0..<n] = Inr maps'"
      and "index_field name fs maps' n = Inr maps"
      by (auto simp: loop_err_snoc simp del: loop_err.simps)
    with Suc.IH show ?case by (blast intro: index_field_indexed)
  qed
  with assms show ?thesis by (simp add: index_fields_def)
qed

lemma indexed_name_iff:
  assumes "indexed fs (length fs) maps" and "distinct (map f_name fs)"
  shows "fst maps x = Some i \<longleftrightarrow> i < length fs \<and> f_name (fs ! i) = x"
proof
  assume "fst maps x = Some i"
  with assms(1) show "i < length fs \<and> f_name (fs ! i) = x" by (simp add: indexed_def)
next
  assume i: "i < length fs \<and> f_name (fs ! i) = x"
  with assms(1) obtain j where j: "fst maps x = Some j" by (auto simp: indexed_def)
  with assms(1) have "j < length fs \<and> f_name (fs ! j) = x" by (simp add: indexed_def)
  with i assms(2) have "i = j" by (metis distinct_map_nth_eq)
  with j show "fst maps x = Some i" by simp
qed

text \<open>Setting choices changes nothing else: fields are compared without them.\<close>

definition no_choices :: "field \<Rightarrow> field" where
  "no_choices f = f\<lparr>f_choices := []\<rparr>"

definition same_fields :: "field list \<Rightarrow> field list \<Rightarrow> bool" where
  "same_fields fs gs \<longleftrightarrow> map no_choices fs = map no_choices gs"

lemma no_choices_simps [simp]:
  "f_name (no_choices f) = f_name f" "f_column (no_choices f) = f_column f"
  "f_kind (no_choices f) = f_kind f" "f_primary_key (no_choices f) = f_primary_key f"
  "f_has_default (no_choices f) = f_has_default f" "field_wf (no_choices f) = field_wf f"
  by (simp_all add: no_choices_def field_wf_def scalar_wf_def relation_wf_def split: option.splits)

lemma same_fields_length: "same_fields fs gs \<Longrightarrow> length fs = length gs"
  unfolding same_fields_def by (metis length_map)

lemma same_fields_nth:
  assumes "same_fields fs gs" and "i < length gs"
  shows "no_choices (fs ! i) = no_choices (gs ! i)"
  using assms same_fields_length unfolding same_fields_def by (metis nth_map)

lemma same_fields_fact:
  assumes "same_fields fs gs" and "i < length gs"
  shows "f_name (fs ! i) = f_name (gs ! i)" "f_column (fs ! i) = f_column (gs ! i)"
    "f_kind (fs ! i) = f_kind (gs ! i)" "f_primary_key (fs ! i) = f_primary_key (gs ! i)"
    "f_has_default (fs ! i) = f_has_default (gs ! i)" "field_wf (fs ! i) = field_wf (gs ! i)"
  using same_fields_nth [OF assms] no_choices_simps by metis+

lemma apply_choices_same:
  assumes "apply_choices name byName cs fs = Inr gs"
  shows "same_fields gs fs"
proof -
  have step: "same_fields hs' fs"
    if "same_fields hs fs" and "apply_choice name byName hs c = Inr hs'" for hs c hs'
  proof -
    from that(2) obtain i x where "hs' = hs[i := (hs ! i)\<lparr>f_choices := x\<rparr>]"
      by (auto simp: apply_choice_def split: prod.splits option.splits if_splits)
    then have "map no_choices hs' = map no_choices hs"
      by (cases "i < length hs") (auto simp: map_update no_choices_def intro!: nth_equalityI
        simp: nth_list_update)
    with that(1) show ?thesis by (simp add: same_fields_def)
  qed
  show ?thesis
  proof (cases cs)
    case None
    with assms show ?thesis by (simp add: apply_choices_def same_fields_def)
  next
    case (Some l)
    with assms have "loop_err (apply_choice name byName) fs l = Inr gs"
      by (simp add: apply_choices_def)
    then show ?thesis
      by (rule loop_err_invariant [where P = "\<lambda>hs. same_fields hs fs"])
        (auto simp: same_fields_def [of fs fs] intro: step)
  qed
qed

lemma build_model_wf:
  assumes "build_model st = Inr m" and "go_struct st"
  shows "model_wf m \<and> m_go_type m = st_type st \<and> m_name m = rt_name (st_type st)"
proof -
  from assms(1) obtain fs0 fs1 pk bn bc fs2 where
    f0: "collect_fields st = Inr fs0" and f1: "resolve_pk (rt_name (st_type st)) fs0 = Inr (fs1, pk)"
    and ix: "index_fields (rt_name (st_type st)) fs1 = Inr (bn, bc)"
    and f2: "apply_choices (rt_name (st_type st)) bn (st_choices st) fs1 = Inr fs2"
    and m: "m = \<lparr>m_name = rt_name (st_type st), m_table = table_name st, m_fields = fs2,
                 m_pk = Some pk, m_by_name = bn, m_by_column = bc, m_go_type = st_type st\<rparr>"
    by (auto simp: build_model_def Let_def split: sum.splits prod.splits)
  from collect_fields_wf [OF f0 assms(2)] have wf0: "\<forall>f \<in> set fs0. field_wf f"
    and d0: "distinct (map f_name fs0)" by auto
  from resolve_pk_Inr [OF f1] have pk: "pk < length fs0" "fs1 = fs0[pk := promote (fs0 ! pk)]"
    "pk_wf fs1 pk" by auto
  have "map f_name fs1 = map f_name fs0"
    using pk(1) by (simp add: pk(2) map_update promote_def list_update_same_conv)
  with d0 have d1: "distinct (map f_name fs1)" by simp
  have wf1: "fields_wf fs1 pk"
    using wf0 pk(1) by (auto simp: fields_wf_def pk(2) nth_list_update promote_def field_wf_def scalar_wf_def)
  from index_fields_indexed [OF ix] have ixd: "indexed fs1 (length fs1) (bn, bc)" .
  from apply_choices_same [OF f2] have same: "same_fields fs2 fs1" .
  note facts = same_fields_fact [OF same] and len = same_fields_length [OF same]
  have "pk_wf fs2 pk" using pk(3) len facts by (simp add: pk_wf_def)
  moreover have "fields_wf fs2 pk" using wf1 len facts by (simp add: fields_wf_def)
  moreover have "bc c = Some i \<longleftrightarrow> i < length fs2 \<and> f_column (fs2 ! i) = c" for c i
    using ixd len facts by (auto simp: indexed_def)
  moreover have "bn n = Some i \<longleftrightarrow> i < length fs2 \<and> f_name (fs2 ! i) = n" for n i
    using indexed_name_iff [OF ixd d1, of n i] len facts by auto
  ultimately show ?thesis by (simp add: m model_wf_def)
qed

lemma registry_wf_new: "registry_wf new_registry"
  by (simp add: registry_wf_def new_registry_def)

text \<open>What a successful \<open>Register\<close> does: a model is built and appended, the maps point to it.\<close>

lemma register_Inr:
  assumes "register r arg = Inr (r', i)"
  shows "\<exists>st m. arg = PointerToStruct st \<and> \<not> reg_frozen r \<and> build_model st = Inr m \<and>
    reg_by_name r (rt_name (st_type st)) = None \<and> i = length (reg_models r) \<and>
    r' = r\<lparr>reg_models := reg_models r @ [m], reg_by_type := (reg_by_type r)(st_type st \<mapsto> i),
           reg_by_name := (reg_by_name r)(rt_name (st_type st) \<mapsto> i)\<rparr>"
  using assms by (auto simp: register_def Let_def split: if_splits reg_arg.splits sum.splits)

lemma register_keeps_wf:
  assumes "register r (PointerToStruct st) = Inr (r', i)" and "registry_wf r" and "go_struct st"
  shows "registry_wf r'"
proof -
  from register_Inr [OF assms(1)] obtain m where m: "build_model st = Inr m"
    and fresh: "reg_by_name r (rt_name (st_type st)) = None"
    and r': "r' = r\<lparr>reg_models := reg_models r @ [m],
        reg_by_type := (reg_by_type r)(st_type st \<mapsto> length (reg_models r)),
        reg_by_name := (reg_by_name r)(rt_name (st_type st) \<mapsto> length (reg_models r))\<rparr>"
    by auto
  from build_model_wf [OF m assms(3)] have mwf: "model_wf m" and mt: "m_go_type m = st_type st"
    and mn: "m_name m = rt_name (st_type st)" by auto
  have names: "m_name (reg_models r ! j) \<noteq> m_name m" if "j < length (reg_models r)" for j
    using assms(2) fresh that by (metis mn option.distinct(1) registry_wf_def)
  have types: "m_go_type (reg_models r ! j) \<noteq> m_go_type m" if "j < length (reg_models r)" for j
    using names [OF that] that assms(2) mwf by (metis model_wf_def nth_mem registry_wf_def)
  have name: "rt_name (m_go_type m) = m_name m" by (simp add: mn mt)
  show ?thesis
    using assms(2) mwf names types
    by (auto simp: r' registry_wf_def nth_append mt [symmetric] name less_Suc_eq)
qed

subsubsection \<open>Resolution\<close>

definition resolved :: "registry \<Rightarrow> bool" where
  "resolved r \<longleftrightarrow>
     (\<forall>m \<in> set (reg_models r). \<forall>f \<in> set (m_fields m). \<forall>rel. f_rel f = Some rel \<longrightarrow>
        (\<exists>i < length (reg_models r). rel_target rel = Some i \<and>
           m_go_type (reg_models r ! i) = rel_target_type rel))"

text \<open>Resolution changes the targets only.\<close>

definition no_target :: "field \<Rightarrow> field" where
  "no_target f = f\<lparr>f_rel := map_option (\<lambda>r. r\<lparr>rel_target := None\<rparr>) (f_rel f)\<rparr>"

lemma no_target_simps [simp]:
  "f_name (no_target f) = f_name f" "f_column (no_target f) = f_column f"
  "f_kind (no_target f) = f_kind f" "f_primary_key (no_target f) = f_primary_key f"
  "f_has_default (no_target f) = f_has_default f" "field_wf (no_target f) = field_wf f"
  by (cases "f_rel f"; simp add: no_target_def field_wf_def scalar_wf_def relation_wf_def)+

lemma resolve_field_no_target: "resolve_field r n f = Inr g \<Longrightarrow> no_target g = no_target f"
  by (auto simp: resolve_field_def no_target_def split: option.splits)

lemma resolve_model_Inr:
  assumes "resolve_model r m = Inr m'"
  shows "\<exists>fs. m' = m\<lparr>m_fields := fs\<rparr> \<and> list_all2 (\<lambda>f g. resolve_field r (m_name m) f = Inr g) (m_fields m) fs"
  using assms by (auto simp: resolve_model_def collect_err_list_all2 split: sum.splits)

lemma no_target_facts:
  assumes "no_target g = no_target f"
  shows "f_name g = f_name f" "f_column g = f_column f" "f_kind g = f_kind f"
    "f_primary_key g = f_primary_key f" "f_has_default g = f_has_default f" "field_wf g = field_wf f"
  using assms no_target_simps by metis+

lemma resolve_model_wf:
  assumes "resolve_model r m = Inr m'"
  shows "m_go_type m' = m_go_type m \<and> m_name m' = m_name m \<and> m_table m' = m_table m \<and>
    (model_wf m \<longrightarrow> model_wf m')"
proof -
  from resolve_model_Inr [OF assms] obtain fs where m': "m' = m\<lparr>m_fields := fs\<rparr>"
    and fs: "list_all2 (\<lambda>f g. resolve_field r (m_name m) f = Inr g) (m_fields m) fs" by blast
  from fs have len: "length fs = length (m_fields m)" by (simp add: list_all2_lengthD)
  have "no_target (fs ! i) = no_target (m_fields m ! i)" if "i < length (m_fields m)" for i
    using fs that by (auto simp: list_all2_conv_all_nth dest: resolve_field_no_target)
  note same = no_target_facts [OF this]
  show ?thesis
    using same by (auto simp: m' model_wf_def pk_wf_def fields_wf_def len)
qed

lemma resolve_Inr:
  assumes "resolve r = Inr r'"
  shows "\<exists>ms. r' = r\<lparr>reg_models := ms\<rparr> \<and> list_all2 (\<lambda>m m'. resolve_model r m = Inr m') (reg_models r) ms"
  using assms by (auto simp: resolve_def collect_err_list_all2 split: sum.splits)

lemma resolve_keeps_wf:
  assumes "resolve r = Inr r'" and "registry_wf r"
  shows "registry_wf r'"
proof -
  from resolve_Inr [OF assms(1)] obtain ms where r': "r' = r\<lparr>reg_models := ms\<rparr>"
    and ms: "list_all2 (\<lambda>m m'. resolve_model r m = Inr m') (reg_models r) ms" by blast
  have len: "length ms = length (reg_models r)" using ms by (simp add: list_all2_lengthD)
  have nth: "resolve_model r (reg_models r ! i) = Inr (ms ! i)" if "i < length (reg_models r)" for i
    using ms that by (simp add: list_all2_conv_all_nth)
  show ?thesis
    using assms(2) resolve_model_wf [OF nth] by (auto simp: r' registry_wf_def len all_set_conv_all_nth)
qed

lemma resolve_resolved:
  assumes "resolve r = Inr r'" and "registry_wf r"
  shows "resolved r'"
proof -
  from resolve_Inr [OF assms(1)] obtain ms where r': "r' = r\<lparr>reg_models := ms\<rparr>"
    and ms: "list_all2 (\<lambda>m m'. resolve_model r m = Inr m') (reg_models r) ms" by blast
  have len: "length ms = length (reg_models r)" using ms by (simp add: list_all2_lengthD)
  have types: "m_go_type (ms ! i) = m_go_type (reg_models r ! i)" if "i < length (reg_models r)" for i
  proof -
    from ms that have "resolve_model r (reg_models r ! i) = Inr (ms ! i)"
      by (simp add: list_all2_conv_all_nth)
    from resolve_model_wf [OF this] show ?thesis by simp
  qed
  have "\<exists>i < length ms. rel_target rel = Some i \<and> m_go_type (ms ! i) = rel_target_type rel"
    if m': "m' \<in> set ms" and g: "g \<in> set (m_fields m')" and rel: "f_rel g = Some rel" for m' g rel
  proof -
    from m' ms obtain m where "resolve_model r m = Inr m'"
      by (auto simp: list_all2_conv_all_nth in_set_conv_nth)
    with resolve_model_Inr g obtain f where "resolve_field r (m_name m) f = Inr g"
      by (fastforce simp: list_all2_conv_all_nth in_set_conv_nth)
    with rel obtain i where i: "reg_by_type r (rel_target_type rel) = Some i" "rel_target rel = Some i"
      by (auto simp: resolve_field_def split: option.splits)
    with assms(2) have "i < length (reg_models r)" "m_go_type (reg_models r ! i) = rel_target_type rel"
      by (auto simp: registry_wf_def)
    with i types len show ?thesis by auto
  qed
  then show ?thesis by (simp add: resolved_def r')
qed

text \<open>Resolving again finds the same targets.\<close>

lemma resolve_field_again: "resolve_field r n f = Inr g \<Longrightarrow> resolve_field r n g = Inr g"
  by (auto simp: resolve_field_def split: option.splits)

lemma resolve_field_cong:
  "reg_by_type r' = reg_by_type r \<Longrightarrow> resolve_field r' n f = resolve_field r n f"
  by (simp add: resolve_field_def split: option.splits)

lemma resolve_model_again:
  assumes "resolve_model r m = Inr m'" and "reg_by_type r' = reg_by_type r"
  shows "resolve_model r' m' = Inr m'"
proof -
  from resolve_model_Inr [OF assms(1)] obtain fs where m': "m' = m\<lparr>m_fields := fs\<rparr>"
    and fs: "list_all2 (\<lambda>f g. resolve_field r (m_name m) f = Inr g) (m_fields m) fs" by blast
  from fs have "list_all2 (\<lambda>f g. resolve_field r (m_name m) f = Inr g) fs fs"
    by (auto simp: list_all2_conv_all_nth dest: resolve_field_again)
  then have "collect_err (resolve_field r' (m_name m)) fs = Inr fs"
    by (simp add: collect_err_list_all2 resolve_field_cong [OF assms(2)])
  then show ?thesis by (simp add: resolve_model_def m')
qed

lemma resolve_again: "resolve r = Inr r' \<Longrightarrow> resolve r' = Inr r'"
proof -
  assume "resolve r = Inr r'"
  from resolve_Inr [OF this] obtain ms where r': "r' = r\<lparr>reg_models := ms\<rparr>"
    and ms: "list_all2 (\<lambda>m m'. resolve_model r m = Inr m') (reg_models r) ms" by blast
  from ms have "list_all2 (\<lambda>m m'. resolve_model r' m = Inr m') ms ms"
    by (auto simp: list_all2_conv_all_nth r' intro!: resolve_model_again)
  then have "collect_err (resolve_model r') ms = Inr ms" by (simp add: collect_err_list_all2)
  then show ?thesis by (simp add: resolve_def r')
qed

subsection \<open>Properties\<close>

definition author_struct :: struct_type where
  "author_struct = \<lparr>st_type = RType ''blog'' ''Author'',
     st_fields = [
       \<lparr>sf_name = ''ID'', sf_exported = True, sf_type = TInt I64, sf_tag = []\<rparr>,
       \<lparr>sf_name = ''Name'', sf_exported = True, sf_type = TString, sf_tag = ''max_length=80''\<rparr>,
       \<lparr>sf_name = ''cache'', sf_exported = False, sf_type = TOther ''map'', sf_tag = []\<rparr>],
     st_meta = Some ''authors'', st_choices = None\<rparr>"

definition post_struct :: struct_type where
  "post_struct = \<lparr>st_type = RType ''blog'' ''Post'',
     st_fields = [
       \<lparr>sf_name = ''ID'', sf_exported = True, sf_type = TInt I64, sf_tag = []\<rparr>,
       \<lparr>sf_name = ''Title'', sf_exported = True, sf_type = TString, sf_tag = ''unique''\<rparr>,
       author_field],
     st_meta = None, st_choices = None\<rparr>"

text \<open>The models and the registries that registering the two structs gives.\<close>

definition id_field :: field where
  "id_field = \<lparr>f_name = ''ID'', f_column = ''id'', f_kind = KindInt, f_primary_key = False,
     f_null = False, f_unique = False, f_max_length = 0, f_index = 0, f_rel = None,
     f_has_default = False, f_default = VNil, f_auto_now_add = False, f_auto_now = False,
     f_choices = []\<rparr>"

definition char_field :: "string \<Rightarrow> string \<Rightarrow> int \<Rightarrow> nat \<Rightarrow> field" where
  "char_field name column n i =
     id_field\<lparr>f_name := name, f_column := column, f_kind := KindChar, f_max_length := n, f_index := i\<rparr>"

definition fk_field :: "nat option \<Rightarrow> field" where
  "fk_field target = id_field\<lparr>f_name := ''Author'', f_column := ''author_id'', f_null := True, f_index := 2,
     f_rel := Some \<lparr>rel_kind = RelFK, rel_column = ''author_id'', rel_on_delete = OnDeleteSetNull,
       rel_target_type = RType ''blog'' ''Author'', rel_target = target\<rparr>\<rparr>"

definition author_model :: model where
  "author_model = \<lparr>m_name = ''Author'', m_table = ''authors'',
     m_fields = [promote id_field, char_field ''Name'' ''name'' 80 1], m_pk = Some 0,
     m_by_name = Map.empty(''ID'' \<mapsto> 0, ''Name'' \<mapsto> 1),
     m_by_column = Map.empty(''id'' \<mapsto> 0, ''name'' \<mapsto> 1), m_go_type = RType ''blog'' ''Author''\<rparr>"

definition post_model :: "nat option \<Rightarrow> model" where
  "post_model target = \<lparr>m_name = ''Post'', m_table = ''post'',
     m_fields = [promote id_field, (char_field ''Title'' ''title'' 255 1)\<lparr>f_unique := True\<rparr>,
       fk_field target], m_pk = Some 0,
     m_by_name = Map.empty(''ID'' \<mapsto> 0, ''Title'' \<mapsto> 1, ''Author'' \<mapsto> 2),
     m_by_column = Map.empty(''id'' \<mapsto> 0, ''title'' \<mapsto> 1, ''author_id'' \<mapsto> 2),
     m_go_type = RType ''blog'' ''Post''\<rparr>"

definition author_registry :: registry where
  "author_registry = \<lparr>reg_models = [author_model],
     reg_by_type = Map.empty(RType ''blog'' ''Author'' \<mapsto> 0),
     reg_by_name = Map.empty(''Author'' \<mapsto> 0), reg_frozen = False\<rparr>"

definition registry_of_models :: "nat option \<Rightarrow> registry" where
  "registry_of_models target = \<lparr>reg_models = [author_model, post_model target],
     reg_by_type = Map.empty(RType ''blog'' ''Author'' \<mapsto> 0, RType ''blog'' ''Post'' \<mapsto> 1),
     reg_by_name = Map.empty(''Author'' \<mapsto> 0, ''Post'' \<mapsto> 1), reg_frozen = False\<rparr>"

definition blog_registry :: registry where
  "blog_registry = registry_of_models None"

lemma go_structs: "go_struct author_struct" "go_struct post_struct"
  by (simp_all add: go_struct_def author_struct_def post_struct_def author_field_def)

lemma collect_author:
  "collect_fields author_struct = Inr [id_field, char_field ''Name'' ''name'' 80 1]"
  by code_simp

lemma collect_post:
  "collect_fields post_struct =
     Inr [id_field, (char_field ''Title'' ''title'' 255 1)\<lparr>f_unique := True\<rparr>, fk_field None]"
  by code_simp

lemma field_constants:
  "f_name id_field = ''ID''" "f_column id_field = ''id''" "f_kind id_field = KindInt"
  "\<not> f_primary_key id_field" "\<not> f_has_default id_field"
  "f_name (promote id_field) = ''ID''" "f_column (promote id_field) = ''id''"
  "f_name (char_field n c l i) = n" "f_column (char_field n c l i) = c"
  "\<not> f_primary_key (char_field n c l i)"
  "f_name (fk_field t) = ''Author''" "f_column (fk_field t) = ''author_id''"
  "\<not> f_primary_key (fk_field t)" "\<not> f_has_default (promote id_field)"
  by (simp_all add: id_field_def char_field_def fk_field_def promote_def)

lemma build_author: "build_model author_struct = Inr author_model"
proof -
  have tn: "table_name author_struct = ''authors''" "rt_name (st_type author_struct) = ''Author''"
    "st_choices author_struct = None" "st_type author_struct = RType ''blog'' ''Author''"
    by (simp_all add: table_name_def author_struct_def)
  show ?thesis
    by (simp add: build_model_def collect_author resolve_pk_def find_pk_def field_constants
        Let_def index_fields_def index_field_def apply_choices_def author_model_def tn upt_rec)
qed

lemma build_post: "build_model post_struct = Inr (post_model None)"
proof -
  have tn: "table_name post_struct = ''post''" by code_simp
  have st: "rt_name (st_type post_struct) = ''Post''"
    "st_choices post_struct = None" "st_type post_struct = RType ''blog'' ''Post''"
    by (simp_all add: post_struct_def)
  show ?thesis
    by (simp add: build_model_def collect_post resolve_pk_def find_pk_def field_constants
        Let_def index_fields_def index_field_def apply_choices_def post_model_def tn st upt_rec eval_nat_numeral)
qed

lemma register_author: "register new_registry (PointerToStruct author_struct) = Inr (author_registry, 0)"
proof -
  have "rt_name (st_type author_struct) = ''Author''" "st_type author_struct = RType ''blog'' ''Author''"
    by (simp_all add: author_struct_def)
  then show ?thesis
    by (simp add: register_def Let_def new_registry_def build_author author_registry_def)
qed

lemma register_post: "register author_registry (PointerToStruct post_struct) = Inr (blog_registry, 1)"
proof -
  have "rt_name (st_type post_struct) = ''Post''" "st_type post_struct = RType ''blog'' ''Post''"
    by (simp_all add: post_struct_def)
  then show ?thesis
    by (simp add: register_def Let_def author_registry_def blog_registry_def registry_of_models_def build_post)
qed

lemma author_registry_wf: "registry_wf author_registry"
  by (rule register_keeps_wf [OF register_author registry_wf_new go_structs(1)])

lemma blog_registry_wf: "registry_wf blog_registry"
  by (rule register_keeps_wf [OF register_post author_registry_wf go_structs(2)])

text \<open>C7: Registering a struct in a well-formed registry keeps it well formed (every model has exactly
  one primary key, distinct columns and well-formed fields, and both lookup maps are exact); the new
  model is found under its name and its type, and every other name finds what it found before.\<close>

theorem register_model:
  assumes "register r (PointerToStruct st) = Inr (r', i)" and "registry_wf r" and "go_struct st"
  shows "registry_wf r' \<and> registry_get r (rt_name (st_type st)) = None \<and>
    (\<exists>m pk. registry_get r' (rt_name (st_type st)) = Some m \<and> model_of r' (Some (st_type st)) = Some m \<and>
       m_go_type m = st_type st \<and> primary_key m = Some pk \<and> distinct (columns m)) \<and>
    registry_get r' n = (if n = rt_name (st_type st) then registry_get r' n else registry_get r n)"
proof -
  from register_Inr [OF assms(1)] obtain m where m: "build_model st = Inr m"
    and fresh: "reg_by_name r (rt_name (st_type st)) = None"
    and r': "r' = r\<lparr>reg_models := reg_models r @ [m],
        reg_by_type := (reg_by_type r)(st_type st \<mapsto> length (reg_models r)),
        reg_by_name := (reg_by_name r)(rt_name (st_type st) \<mapsto> length (reg_models r))\<rparr>"
    by auto
  from build_model_wf [OF m assms(3)] have wf: "model_wf m" "m_go_type m = st_type st" by auto
  from model_wf_primary_key [OF wf(1)] model_wf_distinct_columns [OF wf(1)] wf(2)
  have "\<exists>m pk. registry_get r' (rt_name (st_type st)) = Some m \<and> model_of r' (Some (st_type st)) = Some m \<and>
       m_go_type m = st_type st \<and> primary_key m = Some pk \<and> distinct (columns m)"
    by (auto simp: r' registry_get_def model_of_def)
  moreover have "registry_get r' n = registry_get r n" if "n \<noteq> rt_name (st_type st)"
  proof -
    have "j < length (reg_models r)" if "reg_by_name r n = Some j" for j
      using that assms(2) by (simp add: registry_wf_def)
    with that show ?thesis
      by (cases "reg_by_name r n") (auto simp: r' registry_get_def nth_append)
  qed
  ultimately show ?thesis
    using fresh register_keeps_wf [OF assms] by (simp add: registry_get_def)
qed

theorem register_model_witness:
  "registry_wf blog_registry \<and> registry_get author_registry ''Post'' = None \<and>
   registry_get blog_registry ''Author'' = registry_get author_registry ''Author'' \<and>
   (\<exists>m. registry_get blog_registry ''Post'' = Some m)"
  using register_model [OF register_post author_registry_wf go_structs(2), of "''Author''"]
  by (auto simp: post_struct_def)

text \<open>C10: \<open>Resolve\<close> of a well-formed registry links every relation to the model registered for its
  target type, keeps the registry well formed, and resolving again changes nothing.\<close>

theorem resolve_links:
  assumes "resolve r = Inr r'" and "registry_wf r"
  shows "registry_wf r' \<and> resolved r' \<and> resolve r' = Inr r'"
  using resolve_keeps_wf [OF assms] resolve_resolved [OF assms] resolve_again [OF assms(1)] by simp

definition linked_registry :: registry where
  "linked_registry = registry_of_models (Some 0)"

lemma resolve_blog: "resolve blog_registry = Inr linked_registry"
proof -
  have rels: "f_rel (promote id_field) = None" "f_rel (char_field n c l i) = None"
      "f_rel ((char_field n c l i)\<lparr>f_unique := u\<rparr>) = None" for n c l i u
    by (simp_all add: promote_def char_field_def id_field_def)
  have "resolve_model blog_registry author_model = Inr author_model"
    by (simp add: resolve_model_def author_model_def resolve_field_def rels)
  moreover have "resolve_model blog_registry (post_model None) = Inr (post_model (Some 0))"
    by (simp add: resolve_model_def post_model_def resolve_field_def rels fk_field_def
        blog_registry_def registry_of_models_def)
  ultimately show ?thesis
    by (simp add: resolve_def linked_registry_def blog_registry_def registry_of_models_def)
qed

theorem resolve_links_witness:
  "resolved linked_registry \<and> resolve linked_registry = Inr linked_registry \<and>
   map (map_option rel_target \<circ> f_rel) (m_fields (reg_models linked_registry ! 1)) =
     [None, None, Some (Some 0)]"
proof -
  have "map (map_option rel_target \<circ> f_rel) (m_fields (reg_models linked_registry ! 1)) =
     [None, None, Some (Some 0)]"
    by code_simp
  with resolve_links [OF resolve_blog blog_registry_wf] show ?thesis by simp
qed

end
