(* ===== verification/Orm_Dialect.thy ===== *)
theory Orm_Dialect
  imports Orm_Registry
begin

text \<open>
  \<open>orm/dialect.go\<close> and its two implementations, \<open>orm/backends/sqlite\<close> and
  \<open>orm/backends/postgres\<close>. The interface is the record \<open>dialect\<close>; the locale \<open>sql_dialect\<close> is the
  contract the SQL compiler relies on, over a reader of SQL text that reports which argument each
  placeholder binds. Both dialects are interpretations of it.
\<close>

abbreviation dquote :: char where "dquote \<equiv> CHR 0x22"
abbreviation squote :: char where "squote \<equiv> CHR 0x27"
abbreviation backslash :: char where "backslash \<equiv> CHR 0x5C"

record dialect =
  d_name :: string
  d_placeholder :: "nat \<Rightarrow> string"
  d_quote :: "string \<Rightarrow> string"
  d_column_type :: "field \<Rightarrow> string"
  d_create_table_sql :: "model list \<Rightarrow> model \<Rightarrow> string option"
  d_supports_returning :: bool

subsection \<open>SQLite\<close>

definition sqlite_placeholder :: "nat \<Rightarrow> string" where
  "sqlite_placeholder n = ''?''"

definition sqlite_quote :: "string \<Rightarrow> string" where
  "sqlite_quote ident = [dquote] @ ReplaceAll ident [dquote] [dquote, dquote] @ [dquote]"

definition sqlite_column_type :: "field \<Rightarrow> string" where
  "sqlite_column_type f =
     (if f_kind f = KindAuto then ''INTEGER PRIMARY KEY AUTOINCREMENT''
      else
        (case f_kind f of
           KindInt \<Rightarrow> ''INTEGER''
         | KindChar \<Rightarrow> ''VARCHAR('' @ itoa (f_max_length f) @ '')''
         | KindText \<Rightarrow> ''TEXT''
         | KindBool \<Rightarrow> ''BOOLEAN''
         | KindDateTime \<Rightarrow> ''DATETIME''
         | _ \<Rightarrow> ''TEXT'') @
        (if \<not> f_null f then '' NOT NULL'' else []) @
        (if f_primary_key f then '' PRIMARY KEY''
         else if f_unique f then '' UNIQUE'' else []))"

text \<open>
  The foreign-key clauses of a table. None is the panic of \<open>target.PrimaryKey().Column\<close> when the
  target has no primary key.
\<close>

fun fk_clauses :: "(string \<Rightarrow> string) \<Rightarrow> model list \<Rightarrow> field list \<Rightarrow> string list option" where
  "fk_clauses quote ms [] = Some []"
| "fk_clauses quote ms (f # fs) =
     (case f_rel f of
        None \<Rightarrow> fk_clauses quote ms fs
      | Some rel \<Rightarrow>
          (case rel_target rel of
             None \<Rightarrow> fk_clauses quote ms fs
           | Some i \<Rightarrow>
               (case primary_key (ms ! i) of
                  None \<Rightarrow> None
                | Some pk \<Rightarrow>
                    map_option (\<lambda>r.
                        (''FOREIGN KEY ('' @ quote (f_column f) @ '') REFERENCES '' @
                         quote (m_table (ms ! i)) @ '' ('' @ quote (f_column pk) @ '')'' @
                         on_delete_clause (rel_on_delete rel)) # r)
                      (fk_clauses quote ms fs))))"

definition sqlite_create_table_sql :: "model list \<Rightarrow> model \<Rightarrow> string option" where
  "sqlite_create_table_sql ms m =
     map_option (\<lambda>fks.
         ''CREATE TABLE '' @ sqlite_quote (m_table m) @ '' ('' @
         Join (map (\<lambda>f. sqlite_quote (f_column f) @ '' '' @ sqlite_column_type f) (m_fields m) @ fks)
           '', '' @ '')'')
       (fk_clauses sqlite_quote ms (m_fields m))"

definition sqlite :: dialect where
  "sqlite = \<lparr>d_name = ''sqlite'', d_placeholder = sqlite_placeholder, d_quote = sqlite_quote,
     d_column_type = sqlite_column_type, d_create_table_sql = sqlite_create_table_sql,
     d_supports_returning = False\<rparr>"

subsection \<open>PostgreSQL\<close>

definition postgres_placeholder :: "nat \<Rightarrow> string" where
  "postgres_placeholder n = ''$'' @ itoa (int n)"

definition postgres_quote :: "string \<Rightarrow> string" where
  "postgres_quote ident = [dquote] @ ReplaceAll ident [dquote] [dquote, dquote] @ [dquote]"

definition postgres_column_type :: "field \<Rightarrow> string" where
  "postgres_column_type f =
     (if f_kind f = KindAuto then ''BIGSERIAL PRIMARY KEY''
      else
        (case f_kind f of
           KindInt \<Rightarrow> ''BIGINT''
         | KindChar \<Rightarrow> ''VARCHAR('' @ itoa (f_max_length f) @ '')''
         | KindText \<Rightarrow> ''TEXT''
         | KindBool \<Rightarrow> ''BOOLEAN''
         | KindDateTime \<Rightarrow> ''TIMESTAMPTZ''
         | _ \<Rightarrow> ''TEXT'') @
        (if \<not> f_null f then '' NOT NULL'' else []) @
        (if f_primary_key f then '' PRIMARY KEY''
         else if f_unique f then '' UNIQUE'' else []))"

definition postgres_create_table_sql :: "model list \<Rightarrow> model \<Rightarrow> string option" where
  "postgres_create_table_sql ms m =
     map_option (\<lambda>fks.
         ''CREATE TABLE '' @ postgres_quote (m_table m) @ '' ('' @
         Join (map (\<lambda>f. postgres_quote (f_column f) @ '' '' @ postgres_column_type f) (m_fields m) @ fks)
           '', '' @ '')'')
       (fk_clauses postgres_quote ms (m_fields m))"

definition postgres :: dialect where
  "postgres = \<lparr>d_name = ''postgres'', d_placeholder = postgres_placeholder,
     d_quote = postgres_quote, d_column_type = postgres_column_type,
     d_create_table_sql = postgres_create_table_sql, d_supports_returning = True\<rparr>"

subsection \<open>Reading SQL text\<close>

text \<open>
  What a database makes of the placeholders of a statement: outside quoted identifiers and string
  literals, SQLite's \<open>?\<close> takes the next argument (the second parameter of \<open>sqlite_params\<close>), and
  PostgreSQL's \<open>$n\<close> the n-th. A quote written twice inside quotes closes and opens again, so only
  the parity of quotes matters. The result lists the arguments the placeholders bind, in the order
  of the text.
\<close>

datatype lex_mode = Outside | InDouble | InSingle

fun next_mode :: "lex_mode \<Rightarrow> char \<Rightarrow> lex_mode" where
  "next_mode Outside c = (if c = dquote then InDouble else if c = squote then InSingle else Outside)"
| "next_mode InDouble c = (if c = dquote then Outside else InDouble)"
| "next_mode InSingle c = (if c = squote then Outside else InSingle)"

fun sqlite_params_in :: "lex_mode \<Rightarrow> nat \<Rightarrow> string \<Rightarrow> nat list" where
  "sqlite_params_in md k [] = []"
| "sqlite_params_in md k (c # s) =
     (if md = Outside \<and> c = CHR ''?'' then k # sqlite_params_in Outside (Suc k) s
      else sqlite_params_in (next_mode md c) k s)"

function postgres_params_in :: "lex_mode \<Rightarrow> string \<Rightarrow> nat list" where
  "postgres_params_in md [] = []"
| "postgres_params_in md (c # s) =
     (if md = Outside \<and> c = CHR ''$''
      then digits_val (takeWhile is_digit s) # postgres_params_in Outside (dropWhile is_digit s)
      else postgres_params_in (next_mode md c) s)"
  by pat_completeness auto
termination
  by (relation "measure (\<lambda>(md, s). length s)") (auto simp: le_imp_less_Suc length_dropWhile_le)

definition sqlite_params :: "nat \<Rightarrow> string \<Rightarrow> nat list" where
  "sqlite_params k s = sqlite_params_in Outside k s"

definition postgres_params :: "nat \<Rightarrow> string \<Rightarrow> nat list" where
  "postgres_params k s = postgres_params_in Outside s"

subsection \<open>The contract of a dialect\<close>

definition plain_char :: "char \<Rightarrow> bool" where
  "plain_char c \<longleftrightarrow> c \<noteq> dquote \<and> c \<noteq> squote \<and> c \<noteq> CHR ''?'' \<and> c \<noteq> CHR ''$''"

definition ends_number :: "string \<Rightarrow> bool" where
  "ends_number s \<longleftrightarrow> (case s of [] \<Rightarrow> True | c # _ \<Rightarrow> \<not> is_digit c)"

locale sql_dialect =
  fixes d :: dialect
    and params :: "nat \<Rightarrow> string \<Rightarrow> nat list"
  assumes params_Nil: "params k [] = []"
    and params_quote: "params k (d_quote d ident @ rest) = params k rest"
    and params_plain: "plain_char c \<Longrightarrow> params k (c # rest) = params k rest"
    and params_placeholder:
      "ends_number rest \<Longrightarrow> params k (d_placeholder d k @ rest) = k # params (Suc k) rest"
    and params_literal: "params k (squote # backslash # squote # rest) = params k rest"
begin

text \<open>
  \<open>binds s k n\<close>: read from the outside, with the next argument being the k-th, the piece \<open>s\<close> binds
  the arguments \<open>k, ..., k + n - 1\<close> in this order and ends outside quotes.
\<close>

definition binds :: "string \<Rightarrow> nat \<Rightarrow> nat \<Rightarrow> bool" where
  "binds s k n \<longleftrightarrow>
     (\<forall>rest. ends_number rest \<longrightarrow> params k (s @ rest) = [k..<k + n] @ params (k + n) rest)"

lemma binds_params: "binds s k n \<Longrightarrow> params k s = [k..<k + n]"
  unfolding binds_def using params_Nil by (metis append_Nil2 ends_number_def list.simps(4))

lemma binds_Nil: "binds [] k 0"
  by (simp add: binds_def)

lemma binds_append:
  assumes "binds s k n" and "binds t (k + n) m" and "ends_number (t @ [CHR ''a''])"
  shows "binds (s @ t) k (n + m)"
proof -
  have "params k (s @ t @ rest) = [k..<k + (n + m)] @ params (k + (n + m)) rest"
    if "ends_number rest" for rest
  proof -
    have "ends_number (t @ rest)"
      using assms(3) that by (cases t) (simp_all add: ends_number_def)
    with assms(1) have "params k (s @ t @ rest) = [k..<k + n] @ params (k + n) (t @ rest)"
      by (simp add: binds_def)
    also have "params (k + n) (t @ rest) = [k + n..<k + n + m] @ params (k + n + m) rest"
      using assms(2) that by (simp add: binds_def)
    finally show ?thesis
      using upt_add_eq_append [of k "k + n" m] by (simp add: add.assoc)
  qed
  then show ?thesis by (simp add: binds_def)
qed

lemma binds_plain: "list_all plain_char s \<Longrightarrow> binds s k 0"
proof -
  assume "list_all plain_char s"
  then have "params k (s @ rest) = params k rest" for rest
    by (induction s) (simp_all add: params_plain)
  then show ?thesis by (simp add: binds_def)
qed

lemma binds_quote: "binds (d_quote d ident) k 0"
  by (simp add: binds_def params_quote)

lemma binds_placeholder: "binds (d_placeholder d k) k 1"
  by (simp add: binds_def params_placeholder)

lemma binds_literal: "binds [squote, backslash, squote] k 0"
  by (simp add: binds_def params_literal)

end

text \<open>Reading a quoted identifier leaves every reader where it was.\<close>

lemma sqlite_params_double:
  "sqlite_params_in InDouble k (ReplaceAll s [dquote] [dquote, dquote] @ dquote # rest) =
     sqlite_params_in Outside k rest"
  by (induction s) (auto simp: ReplaceAll_byte)

lemma postgres_params_double:
  "postgres_params_in InDouble (ReplaceAll s [dquote] [dquote, dquote] @ dquote # rest) =
     postgres_params_in Outside rest"
  by (induction s) (auto simp: ReplaceAll_byte)

lemma takeWhile_utoa: "ends_number rest \<Longrightarrow> takeWhile is_digit (utoa n @ rest) = utoa n"
  using utoa_digits [of n]
  by (auto simp: ends_number_def takeWhile_append list_all_iff split: list.splits)

lemma dropWhile_utoa: "ends_number rest \<Longrightarrow> dropWhile is_digit (utoa n @ rest) = rest"
  using utoa_digits [of n]
  by (auto simp: ends_number_def dropWhile_append list_all_iff split: list.splits)

interpretation lite: sql_dialect sqlite sqlite_params
  by unfold_locales
    (auto simp: sqlite_def sqlite_params_def sqlite_quote_def sqlite_placeholder_def
      sqlite_params_double plain_char_def)

lemma itoa_nat [simp]: "itoa (int n) = utoa n"
  by (simp add: itoa_def)

interpretation pg: sql_dialect postgres postgres_params
proof unfold_locales
  show "postgres_params k [] = []" for k by (simp add: postgres_params_def)
  show "postgres_params k (d_quote postgres ident @ rest) = postgres_params k rest" for k ident rest
    by (simp add: postgres_params_def postgres_def postgres_quote_def postgres_params_double)
  show "postgres_params k (c # rest) = postgres_params k rest" if "plain_char c" for c k rest
    using that by (simp add: postgres_params_def plain_char_def)
  show "postgres_params k (d_placeholder postgres k @ rest) = k # postgres_params (Suc k) rest"
    if "ends_number rest" for rest k
  proof -
    have "d_placeholder postgres k @ rest = CHR ''$'' # (utoa k @ rest)"
      by (simp add: postgres_def postgres_placeholder_def)
    then show ?thesis
      unfolding postgres_params_def
      by (simp only: postgres_params_in.simps takeWhile_utoa [OF that] dropWhile_utoa [OF that]
          digits_val_utoa simp_thms if_True)
  qed
  show "postgres_params k (squote # backslash # squote # rest) = postgres_params k rest" for k rest
    by (simp add: postgres_params_def)
qed

subsection \<open>Quoted identifiers\<close>

text \<open>Reading an identifier back: a quote written twice is one quote, a single one ends it.\<close>

fun unquote_body :: "string \<Rightarrow> (string \<times> string) option" where
  "unquote_body [] = None"
| "unquote_body (c # s) =
     (if c = dquote then
        (case s of
           c' # s' \<Rightarrow>
             if c' = dquote then map_option (\<lambda>(i, r). (dquote # i, r)) (unquote_body s')
             else Some ([], s)
         | [] \<Rightarrow> Some ([], []))
      else map_option (\<lambda>(i, r). (c # i, r)) (unquote_body s))"

definition read_ident :: "string \<Rightarrow> (string \<times> string) option" where
  "read_ident s = (case s of c # r \<Rightarrow> if c = dquote then unquote_body r else None | [] \<Rightarrow> None)"

lemma unquote_body_ReplaceAll:
  "rest = [] \<or> hd rest \<noteq> dquote \<Longrightarrow>
   unquote_body (ReplaceAll s [dquote] [dquote, dquote] @ dquote # rest) = Some (s, rest)"
proof (induction s)
  case Nil
  then show ?case by (cases rest) auto
qed (simp add: ReplaceAll_byte)

lemma read_ident_sqlite:
  "rest = [] \<or> hd rest \<noteq> dquote \<Longrightarrow> read_ident (sqlite_quote s @ rest) = Some (s, rest)"
  using unquote_body_ReplaceAll by (simp add: sqlite_quote_def read_ident_def)

lemma postgres_quote_sqlite: "postgres_quote = sqlite_quote"
  by (simp add: fun_eq_iff postgres_quote_def sqlite_quote_def)

lemma sqlite_quote_inject [simp]: "sqlite_quote s = sqlite_quote t \<longleftrightarrow> s = t"
proof
  assume "sqlite_quote s = sqlite_quote t"
  then have "read_ident (sqlite_quote s @ []) = read_ident (sqlite_quote t @ [])" by (rule arg_cong)
  then show "s = t" by (simp only: read_ident_sqlite simp_thms option.inject prod.inject)
qed simp

subsection \<open>Properties\<close>

text \<open>A quoted identifier is read back as the identifier, whatever characters it has, by a reader
  that stops at the closing quote, on both dialects: no name can leave its quotes.\<close>

theorem quote_roundtrip:
  assumes "rest = [] \<or> hd rest \<noteq> dquote"
  shows "read_ident (sqlite_quote ident @ rest) = Some (ident, rest) \<and>
    read_ident (postgres_quote ident @ rest) = Some (ident, rest)"
  using read_ident_sqlite [OF assms] by (simp add: postgres_quote_sqlite)

theorem quote_roundtrip_witness:
  "read_ident (postgres_quote [CHR ''a'', dquote, CHR '';''] @ '' (x)'') =
     Some ([CHR ''a'', dquote, CHR '';''], '' (x)'')"
  using quote_roundtrip [of "'' (x)''" "[CHR ''a'', dquote, CHR '';'']"] by simp

end
