(* ===== verification/Go_Source.thy ===== *)
theory Go_Source
  imports Go_Utf8 Orm_Dialect
begin

text \<open>
  The part of the Go language the generated migrations use, as the compiler reads it: quoted strings
  (\<open>strconv.Quote\<close>, the verb \<open>%q\<close>, and their inverse), the tokens with the semicolons that line ends
  insert, and composite literals. The reader is the reference that the text written by
  \<open>migrations/writer.go\<close> is compared with.
\<close>

subsection \<open>Quoted strings\<close>

definition hex_char :: "nat \<Rightarrow> char" where
  "hex_char n = (if n < 10 then char_of (48 + n) else char_of (87 + n))"

definition hex_val :: "char \<Rightarrow> nat option" where
  "hex_val c =
     (if is_digit c then Some (code c - 48)
      else if 97 \<le> code c \<and> code c \<le> 102 then Some (code c - 87)
      else if 65 \<le> code c \<and> code c \<le> 70 then Some (code c - 55)
      else None)"

fun hex_digits :: "nat \<Rightarrow> nat \<Rightarrow> string" where
  "hex_digits 0 n = []"
| "hex_digits (Suc k) n = hex_digits k (n div 16) @ [hex_char (n mod 16)]"

definition hex_value :: "string \<Rightarrow> nat option" where
  "hex_value s = map_option (foldl (\<lambda>n d. 16 * n + d) 0) (those (map hex_val s))"

text \<open>The escapes of one letter.\<close>

definition letter_escapes :: "(char \<times> char) list" where
  "letter_escapes =
     [(char_of (7 :: nat), CHR ''a''), (char_of (8 :: nat), CHR ''b''), (char_of (12 :: nat), CHR ''f''),
      (char_of (10 :: nat), CHR ''n''), (char_of (13 :: nat), CHR ''r''), (char_of (9 :: nat), CHR ''t''),
      (char_of (11 :: nat), CHR ''v''), (backslash, backslash), (dquote, dquote)]"

definition quote_ascii :: "char \<Rightarrow> string" where
  "quote_ascii c =
     (case map_of letter_escapes c of
        Some e \<Rightarrow> [backslash, e]
      | None \<Rightarrow> if 32 \<le> code c \<and> code c \<noteq> 127 then [c] else backslash # CHR ''x'' # hex_digits 2 (code c))"

definition quote_rune :: "(string \<Rightarrow> bool) \<Rightarrow> string \<Rightarrow> string" where
  "quote_rune printable w =
     (if length w = 1 then
        (if code (hd w) < 128 then quote_ascii (hd w) else backslash # CHR ''x'' # hex_digits 2 (code (hd w)))
      else if printable w then w
      else if decode_rune w < 65536 then backslash # CHR ''u'' # hex_digits 4 (decode_rune w)
      else backslash # CHR ''U'' # hex_digits 8 (decode_rune w))"

function quote_body :: "(string \<Rightarrow> bool) \<Rightarrow> string \<Rightarrow> string" where
  "quote_body printable [] = []"
| "quote_body printable (c # s) =
     quote_rune printable (take (rune_size (c # s)) (c # s)) @
     quote_body printable (drop (rune_size (c # s)) (c # s))"
  by pat_completeness auto
termination
  by (relation "measure (\<lambda>(p, s). length s)") (simp_all add: rune_size_pos)

definition go_quote :: "(string \<Rightarrow> bool) \<Rightarrow> string \<Rightarrow> string" where
  "go_quote printable s = dquote # quote_body printable s @ [dquote]"

text \<open>The rest of an interpreted string literal: its value and what follows the closing quote.\<close>

definition take_hex :: "nat \<Rightarrow> (nat \<Rightarrow> string) \<Rightarrow> string \<Rightarrow> (string \<times> string) option" where
  "take_hex k f s =
     (if length s < k then None else map_option (\<lambda>n. (f n, drop k s)) (hex_value (take k s)))"

definition read_escape :: "string \<Rightarrow> (string \<times> string) option" where
  "read_escape s =
     (case s of
        [] \<Rightarrow> None
      | e # r \<Rightarrow>
          (case map_of (map prod.swap letter_escapes) e of
             Some c \<Rightarrow> Some ([c], r)
           | None \<Rightarrow>
               if e = CHR ''x'' then take_hex 2 (\<lambda>n. [char_of n]) r
               else if e = CHR ''u'' then take_hex 4 encode_rune r
               else if e = CHR ''U'' then take_hex 8 encode_rune r
               else None))"

lemma read_escape_shorter: "read_escape s = Some (w, r) \<Longrightarrow> length r < length s"
  by (auto simp: read_escape_def take_hex_def split: list.splits option.splits if_splits)

definition prepend :: "string \<Rightarrow> (string \<times> string) option \<Rightarrow> (string \<times> string) option" where
  "prepend w x = map_option (\<lambda>(s, r). (w @ s, r)) x"

lemma prepend_prepend [simp]: "prepend v (prepend w x) = prepend (v @ w) x"
  by (cases x) (auto simp: prepend_def)

lemma prepend_Nil [simp]: "prepend [] x = x"
  by (cases x) (auto simp: prepend_def)

lemma prepend_Some [simp]: "prepend w (Some (s, r)) = Some (w @ s, r)"
  by (simp add: prepend_def)

function unquote :: "string \<Rightarrow> (string \<times> string) option" where
  "unquote [] = None"
| "unquote (c # s) =
     (if c = dquote then Some ([], s)
      else if code c = 10 then None
      else if c = backslash then
        (case read_escape s of
           None \<Rightarrow> None
         | Some (w, r) \<Rightarrow> prepend w (unquote r))
      else prepend [c] (unquote s))"
  by pat_completeness auto
termination
  by (relation "measure length") (auto dest: read_escape_shorter)

declare unquote.simps(2) [simp del] quote_body.simps(2) [simp del]

subsection \<open>Quoting is inverted by reading\<close>

lemma hex_val_char: "n < 16 \<Longrightarrow> hex_val (hex_char n) = Some n"
  by (simp add: hex_val_def hex_char_def is_digit_def code_char_of)

lemma hex_digits_length [simp]: "length (hex_digits k n) = k"
  by (induction k arbitrary: n) simp_all

lemma those_append: "those (xs @ ys) = Option.bind (those xs) (\<lambda>a. map_option ((@) a) (those ys))"
  by (induction xs) (cases "those ys"; auto split: option.splits bind_splits)+

lemma hex_value_digits: "n < 16 ^ k \<Longrightarrow> hex_value (hex_digits k n) = Some n"
proof (induction k arbitrary: n)
  case (Suc k)
  then have "n div 16 < 16 ^ k" by (simp add: less_mult_imp_div_less mult.commute)
  from Suc.IH [OF this] show ?case
    by (auto simp: hex_value_def those_append hex_val_char)
qed (simp add: hex_value_def)

lemma take_hex_digits: "n < 16 ^ k \<Longrightarrow> take_hex k f (hex_digits k n @ r) = Some (f n, r)"
  by (simp add: take_hex_def hex_value_digits)

lemma char_codes: "code dquote = 34" "code backslash = 92"
  by (simp_all add: code_def)

lemma unquote_escape:
  "read_escape s = Some (w, r) \<Longrightarrow> unquote (backslash # s) = prepend w (unquote r)"
  by (simp add: unquote.simps(2) char_codes code_inject [symmetric] del: code_inject)

lemma letter_escape_inverse:
  "map_of letter_escapes c = Some e \<Longrightarrow> map_of (map prod.swap letter_escapes) e = Some c"
  by (auto simp: letter_escapes_def split: if_splits)

lemma not_letter_escape: "e \<in> {CHR ''x'', CHR ''u'', CHR ''U''} \<Longrightarrow> map_of (map prod.swap letter_escapes) e = None"
  by (auto simp: letter_escapes_def)

lemma read_hex_escape:
  "n < 256 \<Longrightarrow> read_escape (CHR ''x'' # hex_digits 2 n @ r) = Some ([char_of n], r)"
  "n < 65536 \<Longrightarrow> read_escape (CHR ''u'' # hex_digits 4 n @ r) = Some (encode_rune n, r)"
  "n < 2 ^ 32 \<Longrightarrow> read_escape (CHR ''U'' # hex_digits 8 n @ r) = Some (encode_rune n, r)"
  using take_hex_digits [of n 2] take_hex_digits [of n 4] take_hex_digits [of n 8]
  by (simp_all add: read_escape_def not_letter_escape)

lemma unquote_quote_ascii: "unquote (quote_ascii c @ r) = prepend [c] (unquote r)"
proof (cases "map_of letter_escapes c")
  case (Some e)
  then have "read_escape (e # r) = Some ([c], r)"
    by (simp add: read_escape_def letter_escape_inverse)
  with Some show ?thesis by (simp add: quote_ascii_def unquote_escape)
next
  case None
  then have ne: "c \<noteq> dquote" "c \<noteq> backslash" "code c \<noteq> 10"
    by (auto simp: letter_escapes_def code_inject [symmetric] code_char_of char_codes
        simp del: code_inject split: if_splits)
  have "code c < 256" by (rule code_less)
  from read_hex_escape(1) [OF this] None ne show ?thesis
    by (auto simp: quote_ascii_def unquote_escape char_of_code unquote.simps(2) [of c])
qed

lemma unquote_plain:
  "\<forall>c \<in> set w. 128 \<le> code c \<Longrightarrow> unquote (w @ r) = prepend w (unquote r)"
proof (induction w)
  case (Cons c w)
  then have "c \<noteq> dquote" "c \<noteq> backslash" "code c \<noteq> 10" by (auto simp: char_codes)
  with Cons show ?case
    by (simp add: unquote.simps(2))
qed simp

lemma unquote_quote_rune:
  fixes s r :: string
  assumes "s \<noteq> []"
  defines "w \<equiv> take (rune_size s) s"
  shows "unquote (quote_rune printable w @ r) = prepend w (unquote r)"
proof (cases "rune_size s = 1")
  case True
  with assms obtain c where w: "w = [c]" by (cases s) auto
  have "code c < 256" by (rule code_less)
  from read_hex_escape(1) [OF this] w show ?thesis
    by (simp add: quote_rune_def unquote_quote_ascii unquote_escape char_of_code)
next
  case False
  with rune_bytes have "\<forall>c \<in> set w. 128 \<le> code c" by (auto simp: w_def)
  moreover have "length w \<noteq> 1" by (rule rune_shapes [OF False]) (simp_all add: w_def)
  moreover have "decode_rune w < 2 ^ 32" using decode_rune_less [OF False] by (simp add: w_def)
  moreover have "encode_rune (decode_rune w) = w" using encode_decode [OF False] by (simp add: w_def)
  ultimately show ?thesis using read_hex_escape(2,3) [of "decode_rune w" r]
    by (simp add: quote_rune_def unquote_plain unquote_escape)
qed

lemma unquote_quote_body: "unquote (quote_body printable s @ dquote # r) = Some (s, r)"
proof (induction printable s rule: quote_body.induct)
  case (1 printable)
  then show ?case by (simp add: unquote.simps(2))
next
  case (2 printable c s)
  show ?case
    unfolding quote_body.simps(2) append_assoc unquote_quote_rune [OF list.distinct(2)] 2
    by (simp only: prepend_Some append_take_drop_id)
qed

lemma unquote_go_quote: "go_quote printable s @ r = dquote # quote_body printable s @ dquote # r"
  by (simp add: go_quote_def)

subsection \<open>Tokens\<close>

datatype gtoken = TWord string | TStr string | TNum nat | TOp char | TSemi

definition ident_start :: "char \<Rightarrow> bool" where
  "ident_start c \<longleftrightarrow> is_upper c \<or> is_lower c \<or> c = CHR ''_''"

definition ident_char :: "char \<Rightarrow> bool" where
  "ident_char c \<longleftrightarrow> ident_start c \<or> is_digit c"

definition go_keywords :: "string list" where
  "go_keywords =
     [''break'', ''case'', ''chan'', ''const'', ''continue'', ''default'', ''defer'', ''else'', ''fallthrough'',
      ''for'', ''func'', ''go'', ''goto'', ''if'', ''import'', ''interface'', ''map'', ''package'', ''range'',
      ''return'', ''select'', ''struct'', ''switch'', ''type'', ''var'']"

text \<open>A line that ends with a literal, a name, a closing bracket or one of four keywords is a statement.\<close>

definition word_ends :: "string \<Rightarrow> bool" where
  "word_ends w \<longleftrightarrow>
     w \<notin> set go_keywords \<or> w \<in> {''break'', ''continue'', ''fallthrough'', ''return''}"

text \<open>
  One step of the scanner: the tokens it finds at the front, whether a line may end after them, and the
  rest of the text. The first argument says whether a statement may end here.
\<close>

definition lex_step :: "bool \<Rightarrow> char \<Rightarrow> string \<Rightarrow> (gtoken list \<times> bool \<times> string) option" where
  "lex_step b c s =
     (if code c = 10 then Some (if b then [TSemi] else [], False, s)
      else if code c \<in> {9, 13, 32} then Some ([], b, s)
      else if ident_start c then
        (let w = c # takeWhile ident_char s in Some ([TWord w], word_ends w, dropWhile ident_char s))
      else if is_digit c then
        Some ([TNum (digits_val (c # takeWhile is_digit s))], True, dropWhile is_digit s)
      else if c = dquote then map_option (\<lambda>(t, r). ([TStr t], True, r)) (unquote s)
      else if c \<in> set ''{}()[],.:;=-'' then Some ([TOp c], c \<in> set ''})]'', s)
      else None)"

lemma unquote_shorter: "unquote s = Some (t, r) \<Longrightarrow> length r < length s"
proof (induction s arbitrary: t r rule: unquote.induct)
  case (2 c s)
  show ?case
  proof (cases "c = backslash")
    case True
    with 2(3) obtain w q t' where q: "read_escape s = Some (w, q)" and u: "unquote q = Some (t', r)"
      by (auto simp: unquote.simps(2) char_codes prepend_def split: option.splits)
    from True have "c \<noteq> dquote" "code c \<noteq> 10" by (simp_all add: char_codes)
    from 2(1) [OF this True q refl u] read_escape_shorter [OF q] show ?thesis by simp
  next
    case False
    with 2(2,3) show ?thesis
      by (fastforce simp: unquote.simps(2) prepend_def split: if_splits)
  qed
qed simp

lemma lex_step_shorter: "lex_step b c s = Some (ts, b', r) \<Longrightarrow> length r < Suc (length s)"
  by (auto simp: lex_step_def Let_def le_imp_less_Suc length_dropWhile_le
      dest!: unquote_shorter split: if_splits)

function go_lex :: "bool \<Rightarrow> string \<Rightarrow> gtoken list option" where
  "go_lex b [] = Some (if b then [TSemi] else [])"
| "go_lex b (c # s) =
     (case lex_step b c s of
        None \<Rightarrow> None
      | Some (ts, b', r) \<Rightarrow> map_option ((@) ts) (go_lex b' r))"
  by pat_completeness auto
termination
  by (relation "measure (\<lambda>(b, s). length s)") (auto dest: lex_step_shorter)

declare go_lex.simps(2) [simp del]

text \<open>A text that reads as the same tokens whatever follows it.\<close>

definition lexes :: "bool \<Rightarrow> string \<Rightarrow> gtoken list \<Rightarrow> bool \<Rightarrow> bool" where
  "lexes b s ts b' \<longleftrightarrow> (\<forall>r. go_lex b (s @ r) = map_option ((@) ts) (go_lex b' r))"

lemma map_append_append [simp]: "map_option ((@) a) (map_option ((@) b) x) = map_option ((@) (a @ b)) x"
  by (cases x) simp_all

lemma map_append_assoc [simp]: "map_option ((@) (a @ b)) x = map_option (\<lambda>y. a @ b @ y) x"
  by (cases x) simp_all

lemma map_append_Nil [simp]: "map_option ((@) []) x = x"
  by (cases x) simp_all

lemma lexes_append: "lexes b s ts b' \<Longrightarrow> lexes b' s' ts' b'' \<Longrightarrow> lexes b (s @ s') (ts @ ts') b''"
  by (simp add: lexes_def)

lemma lexes_Nil: "lexes b [] [] b"
  by (simp add: lexes_def)

lemma lexes_concat:
  "\<forall>x \<in> set xs. lexes b (f x) (g x) b \<Longrightarrow> lexes b (concat (map f xs)) (concat (map g xs)) b"
  by (induction xs) (auto simp: lexes_Nil intro: lexes_append)

lemma lexes_str: "lexes b (go_quote printable s) [TStr s] True"
proof -
  have "lex_step b dquote (quote_body printable s @ dquote # r) = Some ([TStr s], True, r)" for r
    by (simp add: lex_step_def char_codes unquote_quote_body ident_start_def is_upper_def is_lower_def
        is_digit_def)
  then show ?thesis by (simp add: lexes_def unquote_go_quote go_lex.simps(2))
qed

text \<open>The tokens of a fixed text whose last token cannot grow, found by evaluation.\<close>

function chunk :: "bool \<Rightarrow> string \<Rightarrow> (gtoken list \<times> bool) option" where
  "chunk b [] = Some ([], b)"
| "chunk b (c # s) =
     (case lex_step b c s of
        None \<Rightarrow> None
      | Some (ts, b', r) \<Rightarrow>
          if r = [] \<and> ident_char c then None else map_option (apfst ((@) ts)) (chunk b' r))"
  by pat_completeness auto
termination
  by (relation "measure (\<lambda>(b, s). length s)") (auto dest: lex_step_shorter)

lemma take_hex_append: "take_hex k f s = Some (w, r) \<Longrightarrow> take_hex k f (s @ u) = Some (w, r @ u)"
  by (auto simp: take_hex_def split: if_splits)

lemma read_escape_append:
  assumes "read_escape s = Some (w, r)"
  shows "read_escape (s @ u) = Some (w, r @ u)"
proof (cases s)
  case (Cons e q)
  show ?thesis
  proof (cases "map_of (map prod.swap letter_escapes) e")
    case (Some c)
    with assms Cons show ?thesis by (simp add: read_escape_def)
  next
    case None
    consider "e = CHR ''x''" | "e = CHR ''u''" | "e = CHR ''U''" | "e \<notin> {CHR ''x'', CHR ''u'', CHR ''U''}"
      by blast
    then show ?thesis using assms Cons None
      by cases (simp_all add: read_escape_def take_hex_append)
  qed
qed (use assms in \<open>simp add: read_escape_def\<close>)

lemma unquote_append: "unquote s = Some (t, r) \<Longrightarrow> unquote (s @ u) = Some (t, r @ u)"
proof (induction s arbitrary: t r rule: unquote.induct)
  case (2 c s)
  show ?case
  proof (cases "c = backslash")
    case True
    with 2(3) obtain w q where q: "read_escape s = Some (w, q)"
      by (auto simp: unquote.simps(2) char_codes split: option.splits)
    with True 2(3) obtain t' where "unquote q = Some (t', r)" and t: "t = w @ t'"
      by (auto simp: unquote_escape prepend_def)
    from 2(1) [OF _ _ True q refl this(1)] True t read_escape_append [OF q] show ?thesis
      by (simp add: unquote_escape char_codes)
  next
    case False
    with 2(2,3) show ?thesis
      by (auto simp: unquote.simps(2) prepend_def split: if_splits)
  qed
qed simp

lemma dropWhile_stop: "dropWhile P s \<noteq> [] \<Longrightarrow> dropWhile P (s @ u) = dropWhile P s @ u \<and> takeWhile P (s @ u) = takeWhile P s"
  by (induction s) auto

lemma lex_step_append:
  assumes "lex_step b c s = Some (ts, b', r)" and "r \<noteq> [] \<or> \<not> ident_char c"
  shows "lex_step b c (s @ u) = Some (ts, b', r @ u)"
proof -
  consider "code c \<in> {9, 10, 13, 32}" | "ident_start c" "code c \<notin> {9, 10, 13, 32}"
    | "is_digit c" "\<not> ident_start c" "code c \<notin> {9, 10, 13, 32}" | "\<not> ident_char c" "code c \<notin> {9, 10, 13, 32}"
    by (auto simp: ident_char_def)
  then show ?thesis
  proof cases
    case 1
    with assms show ?thesis by (elim insertE emptyE) (simp_all add: lex_step_def)
  next
    case 2
    with assms dropWhile_stop [of ident_char s u] show ?thesis
      by (auto simp: lex_step_def Let_def ident_char_def)
  next
    case 3
    with assms dropWhile_stop [of is_digit s u] show ?thesis
      by (auto simp: lex_step_def Let_def ident_char_def)
  next
    case 4
    with assms show ?thesis
      by (auto simp: lex_step_def Let_def ident_char_def dest: unquote_append split: if_splits)
  qed
qed

lemma chunk_lexes: "chunk b s = Some (ts, b') \<Longrightarrow> lexes b s ts b'"
proof (induction b s arbitrary: ts rule: chunk.induct)
  case (1 b)
  then show ?case by (simp add: lexes_Nil)
next
  case (2 b c s)
  then obtain ts0 b0 r where step: "lex_step b c s = Some (ts0, b0, r)"
    and more: "r \<noteq> [] \<or> \<not> ident_char c"
    and rest: "map_option (apfst ((@) ts0)) (chunk b0 r) = Some (ts, b')"
    by (auto split: option.splits if_splits)
  from rest obtain ts1 where ts: "chunk b0 r = Some (ts1, b')" "ts = ts0 @ ts1" by auto
  from 2(1) [OF step refl refl _ ts(1)] more have "lexes b0 r ts1 b'" by blast
  with ts(2) show ?case
    by (simp add: lexes_def go_lex.simps(2) lex_step_append [OF step more] option.map_comp comp_def)
qed

subsection \<open>Composite literals\<close>

text \<open>
  Expressions: constants, names with their package, and composite literals, which are slices or not, have
  a type name (empty where it is elided) and elements with an optional key.
\<close>

datatype go_expr =
    EStr string
  | EInt int
  | EName "string list"
  | EComp bool "string list" "(string \<times> go_expr) list"

fun name_rest :: "gtoken list \<Rightarrow> string list \<times> gtoken list" where
  "name_rest (t # u # ts) =
     (case (t, u) of
        (TOp c, TWord w) \<Rightarrow>
          if c = CHR ''.'' then (let (ws, r) = name_rest ts in (w # ws, r)) else ([], t # u # ts)
      | _ \<Rightarrow> ([], t # u # ts))"
| "name_rest ts = ([], ts)"

lemma name_rest_stop [simp]: "c \<noteq> CHR ''.'' \<Longrightarrow> name_rest (TOp c # r) = ([], TOp c # r)"
  by (cases r) (auto split: gtoken.splits)

lemma name_rest_semi [simp]: "name_rest (TSemi # r) = ([], TSemi # r)"
  by (cases r) simp_all

definition element_key :: "gtoken list \<Rightarrow> string \<times> gtoken list" where
  "element_key ts =
     (case ts of
        TWord w # TOp c # r \<Rightarrow> if c = CHR '':'' then (w, r) else ([], ts)
      | _ \<Rightarrow> ([], ts))"

text \<open>The fuel bounds the number of nested calls; the length of the text is enough.\<close>

fun parse_expr :: "nat \<Rightarrow> gtoken list \<Rightarrow> (go_expr \<times> gtoken list) option"
  and parse_elems :: "nat \<Rightarrow> gtoken list \<Rightarrow> ((string \<times> go_expr) list \<times> gtoken list) option"
where
  "parse_expr 0 ts = None"
| "parse_expr (Suc n) ts =
     (case ts of
        TStr s # r \<Rightarrow> Some (EStr s, r)
      | TNum k # r \<Rightarrow> Some (EInt (int k), r)
      | TWord w # r \<Rightarrow>
          if w \<in> set go_keywords then None
          else (case name_rest r of
                  (ws, TOp c # r') \<Rightarrow>
                    if c = CHR ''{'' then map_option (apfst (EComp False (w # ws))) (parse_elems n r')
                    else Some (EName (w # ws), TOp c # r')
                | (ws, r') \<Rightarrow> Some (EName (w # ws), r'))
      | TOp c # r \<Rightarrow>
          if c = CHR ''-'' then
            (case r of TNum k # r' \<Rightarrow> Some (EInt (- int k), r') | _ \<Rightarrow> None)
          else if c = CHR ''{'' then map_option (apfst (EComp False [])) (parse_elems n r)
          else if c = CHR ''['' then
            (case r of
               TOp d # TWord w # r' \<Rightarrow>
                 (case name_rest r' of
                    (ws, TOp e # q) \<Rightarrow>
                      if d = CHR '']'' \<and> e = CHR ''{'' \<and> w \<notin> set go_keywords then
                        map_option (apfst (EComp True (w # ws))) (parse_elems n q)
                      else None
                  | _ \<Rightarrow> None)
             | _ \<Rightarrow> None)
          else None
      | _ \<Rightarrow> None)"
| "parse_elems 0 ts = None"
| "parse_elems (Suc n) ts =
     (if ts \<noteq> [] \<and> hd ts = TOp CHR ''}'' then Some ([], tl ts)
      else
        (let (k, r) = element_key ts
         in case parse_expr n r of
              Some (e, TOp c # q) \<Rightarrow>
                if c = CHR '','' then map_option (apfst ((#) (k, e))) (parse_elems n q)
                else if c = CHR ''}'' then Some ([(k, e)], q)
                else None
            | _ \<Rightarrow> None))"

declare parse_expr.simps(2) [simp del] parse_elems.simps(2) [simp del]

text \<open>The tokens of an expression followed by a comma, a brace or the end of the statement, and of the elements up to the closing brace.\<close>

definition no_key :: "gtoken list \<Rightarrow> bool" where
  "no_key ts \<longleftrightarrow> (case ts of TWord w # u # _ \<Rightarrow> u \<noteq> TOp CHR '':'' | _ \<Rightarrow> True)"

definition parses :: "gtoken list \<Rightarrow> go_expr \<Rightarrow> bool" where
  "parses ts e \<longleftrightarrow>
     (\<forall>n t r. length ts \<le> n \<longrightarrow> t \<in> {TOp CHR '','', TOp CHR ''}'', TSemi} \<longrightarrow>
        parse_expr n (ts @ t # r) = Some (e, t # r)) \<and>
     ts \<noteq> [] \<and> hd ts \<noteq> TOp CHR ''}'' \<and> no_key ts"

definition parses_elems :: "gtoken list \<Rightarrow> (string \<times> go_expr) list \<Rightarrow> bool" where
  "parses_elems ts es \<longleftrightarrow> ts \<noteq> [] \<and> (\<forall>n r. length ts \<le> n \<longrightarrow> parse_elems n (ts @ r) = Some (es, r))"

lemma Suc_le_cases: "Suc k \<le> n \<Longrightarrow> (\<And>m. n = Suc m \<Longrightarrow> k \<le> m \<Longrightarrow> P) \<Longrightarrow> P"
  by (cases n) auto

lemma parses_str [intro]: "parses [TStr s] (EStr s)"
  by (auto simp: parses_def no_key_def parse_expr.simps(2) elim!: Suc_le_cases)

lemma parses_num [intro]: "parses [TNum k] (EInt (int k))" "parses [TOp CHR ''-'', TNum k] (EInt (- int k))"
  by (auto simp: parses_def no_key_def parse_expr.simps(2) elim!: Suc_le_cases)

lemma parses_name:
  "w \<notin> set go_keywords \<Longrightarrow> parses [TWord w] (EName [w])"
  "w \<notin> set go_keywords \<Longrightarrow> parses [TWord w, TOp CHR ''.'', TWord v] (EName [w, v])"
  by (auto simp: parses_def no_key_def parse_expr.simps(2) elim!: Suc_le_cases)

lemma parses_comp:
  assumes "parses_elems ts es"
  shows "parses (TOp CHR ''{'' # ts) (EComp False [] es)"
    and "w \<notin> set go_keywords \<Longrightarrow>
      parses (TWord w # TOp CHR ''.'' # TWord v # TOp CHR ''{'' # ts) (EComp False [w, v] es)"
    and "w \<notin> set go_keywords \<Longrightarrow>
      parses (TOp CHR ''['' # TOp CHR '']'' # TWord w # TOp CHR ''.'' # TWord v # TOp CHR ''{'' # ts) (EComp True [w, v] es)"
    and "w \<notin> set go_keywords \<Longrightarrow>
      parses (TOp CHR ''['' # TOp CHR '']'' # TWord w # TOp CHR ''{'' # ts) (EComp True [w] es)"
  using assms
  by (auto simp: parses_def parses_elems_def no_key_def parse_expr.simps(2) elim!: Suc_le_cases)

lemma elems_end: "parses_elems [TOp CHR ''}''] []"
  by (auto simp: parses_elems_def parse_elems.simps(2) elim!: Suc_le_cases)

lemma elem_key:
  assumes "parses ts e"
  shows "element_key (TWord k # TOp CHR '':'' # ts @ r) = (k, ts @ r)"
    and "element_key (ts @ TOp c # r) = ([], ts @ TOp c # r) \<or> c = CHR '':''"
  using assms
  by (auto simp: element_key_def parses_def no_key_def neq_Nil_conv Cons_eq_append_conv split: list.splits gtoken.splits)

lemma elems_step:
  assumes "element_key ts = (k, q)" and "ts = [] \<or> hd ts \<noteq> TOp CHR ''}''"
    and "parse_expr m q = Some (e, TOp c # u)"
  shows "parse_elems (Suc m) ts =
    (if c = CHR '','' then map_option (apfst ((#) (k, e))) (parse_elems m u)
     else if c = CHR ''}'' then Some ([(k, e)], u) else None)"
  using assms by (auto simp: parse_elems.simps(2))

lemma elems_cons:
  assumes "parses ts e" and "parses_elems us es"
  shows "parses_elems (TWord k # TOp CHR '':'' # ts @ TOp CHR '','' # us) ((k, e) # es)"
    and "parses_elems (ts @ TOp CHR '','' # us) (([], e) # es)"
    and "parses_elems (TWord k # TOp CHR '':'' # ts @ [TOp CHR ''}'']) [(k, e)]"
proof -
  note key = elem_key [OF assms(1)]
  from assms(1) have e: "parse_expr n (ts @ TOp c # r) = Some (e, TOp c # r)"
    if "length ts \<le> n" "c \<in> {CHR '','', CHR ''}''}" for n c r
    using that by (auto simp: parses_def)
  from assms(1) have ne: "ts \<noteq> []" "hd ts \<noteq> TOp CHR ''}''" by (auto simp: parses_def)
  from assms(2) have es: "parse_elems n (us @ r) = Some (es, r)" if "length us \<le> n" for n r
    using that by (auto simp: parses_elems_def)
  have "parse_elems n (TWord k # TOp CHR '':'' # ts @ TOp CHR '','' # us @ r) = Some ((k, e) # es, r)"
    if "length ts + length us + 3 \<le> n" for n r
    using that by (cases n) (simp_all add: elems_step [OF key(1) _ e] es)
  then show "parses_elems (TWord k # TOp CHR '':'' # ts @ TOp CHR '','' # us) ((k, e) # es)"
    by (simp add: parses_elems_def)
  have "parse_elems n (TWord k # TOp CHR '':'' # ts @ TOp CHR ''}'' # r) = Some ([(k, e)], r)"
    if "length ts + 3 \<le> n" for n r
    using that by (cases n) (simp_all add: elems_step [OF key(1) _ e])
  then show "parses_elems (TWord k # TOp CHR '':'' # ts @ [TOp CHR ''}'']) [(k, e)]"
    by (simp add: parses_elems_def)
  have "parse_elems n (ts @ TOp CHR '','' # us @ r) = Some (([], e) # es, r)"
    if "length ts + length us + 1 \<le> n" for n r
    using that ne key(2) [of "CHR '',''" "us @ r"]
    by (cases n) (simp_all add: elems_step [OF _ _ e] es)
  then show "parses_elems (ts @ TOp CHR '','' # us) (([], e) # es)"
    by (simp add: parses_elems_def)
qed

subsection \<open>Files\<close>

text \<open>A file with imports, one package variable and an \<open>init\<close> function that makes one call.\<close>

record go_file =
  gf_package :: string
  gf_imports :: "string list"
  gf_var :: string
  gf_value :: go_expr
  gf_call :: "string list"
  gf_arg :: string

definition expect :: "gtoken list \<Rightarrow> gtoken list \<Rightarrow> gtoken list option" where
  "expect p ts = (if take (length p) ts = p then Some (drop (length p) ts) else None)"

fun import_specs :: "gtoken list \<Rightarrow> string list \<times> gtoken list" where
  "import_specs (TStr s # TSemi # ts) = apfst ((#) s) (import_specs ts)"
| "import_specs ts = ([], ts)"

definition parse_file :: "gtoken list \<Rightarrow> go_file option" where
  "parse_file ts =
     (case expect [TWord ''package''] ts of
        Some (TWord p # r) \<Rightarrow>
          Option.bind (expect [TSemi, TWord ''import'', TOp CHR ''(''] r) (\<lambda>r.
          (case import_specs r of (imps, r) \<Rightarrow>
             (case expect [TOp CHR '')'', TSemi, TWord ''var''] r of
                Some (TWord v # TOp c # r) \<Rightarrow>
                  if c \<noteq> CHR ''='' then None
                  else
                    Option.bind (parse_expr (length r) r) (\<lambda>(e, r).
                    (case expect [TSemi, TWord ''func'', TWord ''init'', TOp CHR ''('', TOp CHR '')'', TOp CHR ''{''] r of
                       Some (TWord q # TOp d # TWord f # TOp l # TWord a # r) \<Rightarrow>
                         if d = CHR ''.'' \<and> l = CHR ''('' \<and> r = [TOp CHR '')'', TOp CHR ''}'', TSemi] then
                           Some \<lparr>gf_package = p, gf_imports = imps, gf_var = v, gf_value = e,
                                 gf_call = [q, f], gf_arg = a\<rparr>
                         else None
                     | _ \<Rightarrow> None))
              | _ \<Rightarrow> None)))
      | _ \<Rightarrow> None)"

text \<open>
  The checks of the compiler on such a file: names that are not keywords, every import used and every
  package imported, the variable that is passed declared.
\<close>

fun names_of :: "go_expr \<Rightarrow> string list list" where
  "names_of (EStr s) = []"
| "names_of (EInt i) = []"
| "names_of (EName ws) = [ws]"
| "names_of (EComp sl ty es) = ty # concat (map (\<lambda>(k, e). names_of e) es)"

definition import_name :: "string \<Rightarrow> string" where
  "import_name p = last (Split p CHR ''/'')"

definition qualifiers :: "go_file \<Rightarrow> string list" where
  "qualifiers f = map hd (filter (\<lambda>ws. length ws = 2) (gf_call f # names_of (gf_value f)))"

definition file_ok :: "go_file \<Rightarrow> bool" where
  "file_ok f \<longleftrightarrow>
     gf_package f \<notin> set go_keywords \<and> gf_package f \<noteq> ''_'' \<and> gf_var f \<notin> set go_keywords \<and>
     gf_arg f = gf_var f \<and> distinct (map import_name (gf_imports f)) \<and>
     set (map import_name (gf_imports f)) = set (qualifiers f)"

definition read_file :: "string \<Rightarrow> go_file option" where
  "read_file s =
     (case go_lex False s of
        None \<Rightarrow> None
      | Some ts \<Rightarrow> (case parse_file ts of None \<Rightarrow> None | Some f \<Rightarrow> if file_ok f then Some f else None))"

text \<open>Files of one package compile together when they agree on its name and declare different variables.\<close>

definition package_ok :: "go_file list \<Rightarrow> bool" where
  "package_ok fs \<longleftrightarrow> distinct (map gf_var fs) \<and> (\<forall>f \<in> set fs. \<forall>g \<in> set fs. gf_package f = gf_package g)"

end
