(* ===== verification/Mig_State.thy ===== *)
theory Mig_State
  imports Orm_Dialect
begin

text \<open>
  \<open>migrations/state.go\<close>, \<open>migrations/ddl.go\<close> and \<open>migrations/operations.go\<close>: the schema snapshots,
  the operations that change them and the SQL of each operation. A pointer \<open>*ModelState\<close> is its value:
  every state owns its models, whose fields the operations copy. \<open>None\<close> is a nil dereference.
\<close>

subsection \<open>Snapshots\<close>

record field_state =
  fs_name :: string
  fs_column :: string
  fs_kind :: kind
  fs_primary_key :: bool
  fs_null :: bool
  fs_unique :: bool
  fs_max_length :: int
  fs_rel_kind :: rel_kind
  fs_rel_target_table :: string
  fs_rel_target_column :: string
  fs_rel_on_delete :: on_delete

definition field_equal :: "field_state \<Rightarrow> field_state \<Rightarrow> bool" where
  "field_equal f g \<longleftrightarrow>
     fs_name f = fs_name g \<and> fs_column f = fs_column g \<and> fs_kind f = fs_kind g \<and>
     fs_primary_key f = fs_primary_key g \<and> fs_null f = fs_null g \<and> fs_unique f = fs_unique g \<and>
     fs_max_length f = fs_max_length g \<and> fs_rel_kind f = fs_rel_kind g \<and>
     fs_rel_target_table f = fs_rel_target_table g \<and>
     fs_rel_target_column f = fs_rel_target_column g \<and> fs_rel_on_delete f = fs_rel_on_delete g"

definition same_type :: "field_state \<Rightarrow> field_state \<Rightarrow> bool" where
  "same_type f g = field_equal (f\<lparr>fs_name := [], fs_column := []\<rparr>) (g\<lparr>fs_name := [], fs_column := []\<rparr>)"

definition field_state_from_field :: "model list \<Rightarrow> field \<Rightarrow> field_state option" where
  "field_state_from_field ms f =
     (let fs = \<lparr>fs_name = f_name f, fs_column = f_column f, fs_kind = f_kind f,
                fs_primary_key = f_primary_key f, fs_null = f_null f, fs_unique = f_unique f,
                fs_max_length = f_max_length f, fs_rel_kind = RelNone, fs_rel_target_table = [],
                fs_rel_target_column = [], fs_rel_on_delete = OnDeleteDoNothing\<rparr>
      in case f_rel f of
           None \<Rightarrow> Some fs
         | Some rel \<Rightarrow>
             (let fs = fs\<lparr>fs_rel_kind := rel_kind rel, fs_rel_on_delete := rel_on_delete rel\<rparr>
              in case rel_target rel of
                   None \<Rightarrow> Some fs
                 | Some i \<Rightarrow>
                     map_option (\<lambda>pk. fs\<lparr>fs_rel_target_table := m_table (ms ! i),
                                        fs_rel_target_column := f_column pk\<rparr>)
                       (primary_key (ms ! i))))"

record model_state =
  ms_name :: string
  ms_table :: string
  ms_fields :: "field_state list"

definition state_field :: "model_state \<Rightarrow> string \<Rightarrow> field_state option" where
  "state_field m name = find (\<lambda>f. fs_name f = name) (ms_fields m)"

record project_state =
  ps_models :: "string \<rightharpoonup> model_state"
  ps_order :: "string list"

definition new_project_state :: project_state where
  "new_project_state = \<lparr>ps_models = Map.empty, ps_order = []\<rparr>"

definition model_state_from :: "model list \<Rightarrow> model \<Rightarrow> model_state option" where
  "model_state_from ms m =
     map_option (\<lambda>fs. \<lparr>ms_name = m_name m, ms_table = m_table m, ms_fields = fs\<rparr>)
       (those (map (field_state_from_field ms) (m_fields m)))"

definition add_model_state :: "project_state \<Rightarrow> model_state \<Rightarrow> project_state" where
  "add_model_state ps m =
     ps\<lparr>ps_models := (ps_models ps)(ms_name m \<mapsto> m), ps_order := ps_order ps @ [ms_name m]\<rparr>"

definition state_from_registry :: "registry \<Rightarrow> project_state option" where
  "state_from_registry r =
     map_option (foldl add_model_state new_project_state)
       (those (map (model_state_from (reg_models r)) (reg_models r)))"

subsection \<open>Operations\<close>

datatype operation =
    CreateModel string string "field_state list"
  | DeleteModel string
  | AddField string field_state
  | RemoveField string string
  | AlterField string field_state

text \<open>The slice operations of \<open>Apply\<close>: the first match is removed or replaced.\<close>

fun remove_named :: "string \<Rightarrow> field_state list \<Rightarrow> field_state list" where
  "remove_named n [] = []"
| "remove_named n (f # fs) = (if fs_name f = n then fs else f # remove_named n fs)"

fun replace_named :: "field_state \<Rightarrow> field_state list \<Rightarrow> field_state list" where
  "replace_named g [] = []"
| "replace_named g (f # fs) = (if fs_name f = fs_name g then g # fs else f # replace_named g fs)"

definition update_model ::
  "string \<Rightarrow> (field_state list \<Rightarrow> field_state list) \<Rightarrow> project_state \<Rightarrow> project_state option"
where
  "update_model n g ps =
     (case ps_models ps n of
        None \<Rightarrow> None
      | Some m \<Rightarrow>
          Some (ps\<lparr>ps_models := (ps_models ps)(n \<mapsto> m\<lparr>ms_fields := g (ms_fields m)\<rparr>)\<rparr>))"

fun op_apply :: "operation \<Rightarrow> project_state \<Rightarrow> project_state option" where
  "op_apply (CreateModel n t fs) ps =
     Some (ps\<lparr>ps_models := (ps_models ps)(n \<mapsto> \<lparr>ms_name = n, ms_table = t, ms_fields = fs\<rparr>),
              ps_order := (if n \<in> set (ps_order ps) then ps_order ps else ps_order ps @ [n])\<rparr>)"
| "op_apply (DeleteModel n) ps =
     Some (ps\<lparr>ps_models := (ps_models ps)(n := None), ps_order := remove1 n (ps_order ps)\<rparr>)"
| "op_apply (AddField n f) ps = update_model n (\<lambda>fs. fs @ [f]) ps"
| "op_apply (RemoveField n name) ps = update_model n (remove_named name) ps"
| "op_apply (AlterField n f) ps = update_model n (replace_named f) ps"

fun op_describe :: "operation \<Rightarrow> string" where
  "op_describe (CreateModel n t fs) = ''CreateModel '' @ n"
| "op_describe (DeleteModel n) = ''DeleteModel '' @ n"
| "op_describe (AddField n f) = ''AddField '' @ n @ ''.'' @ fs_name f"
| "op_describe (RemoveField n name) = ''RemoveField '' @ n @ ''.'' @ name"
| "op_describe (AlterField n f) = ''AlterField '' @ n @ ''.'' @ fs_name f"

subsection \<open>SQL\<close>

definition to_orm_field :: "field_state \<Rightarrow> field" where
  "to_orm_field fs =
     \<lparr>f_name = fs_name fs, f_column = fs_column fs, f_kind = fs_kind fs,
      f_primary_key = fs_primary_key fs, f_null = fs_null fs, f_unique = fs_unique fs,
      f_max_length = fs_max_length fs, f_index = 0, f_rel = None, f_has_default = False,
      f_default = VNil, f_auto_now_add = False, f_auto_now = False, f_choices = []\<rparr>"

definition column_def :: "dialect \<Rightarrow> field_state \<Rightarrow> string" where
  "column_def d f = d_quote d (fs_column f) @ '' '' @ d_column_type d (to_orm_field f)"

definition is_fk :: "field_state \<Rightarrow> bool" where
  "is_fk f \<longleftrightarrow> fs_rel_kind f = RelFK \<and> fs_rel_target_table f \<noteq> []"

definition fk_def :: "dialect \<Rightarrow> field_state \<Rightarrow> string" where
  "fk_def d f =
     ''FOREIGN KEY ('' @ d_quote d (fs_column f) @ '') REFERENCES '' @
     d_quote d (fs_rel_target_table f) @ '' ('' @ d_quote d (fs_rel_target_column f) @ '')'' @
     on_delete_clause (fs_rel_on_delete f)"

definition create_table :: "dialect \<Rightarrow> string \<Rightarrow> field_state list \<Rightarrow> string" where
  "create_table d table fs =
     ''CREATE TABLE '' @ d_quote d table @ '' ('' @
     Join (map (column_def d) fs @ map (fk_def d) (filter is_fk fs)) '', '' @ '')''"

definition common_columns :: "field_state list \<Rightarrow> field_state list \<Rightarrow> string list" where
  "common_columns old new =
     filter (\<lambda>c. c \<in> set (map fs_column old)) (map fs_column new)"

definition rebuild_table :: "dialect \<Rightarrow> string \<Rightarrow> field_state list \<Rightarrow> field_state list \<Rightarrow> string list" where
  "rebuild_table d table old new =
     (let tmp = table @ ''__new'';
          commonCols = map (d_quote d) (common_columns old new);
          quotedCommon = Join commonCols '', ''
      in [create_table d tmp new] @
         (if commonCols \<noteq> []
          then [''INSERT INTO '' @ d_quote d tmp @ '' ('' @ quotedCommon @ '') SELECT '' @
                quotedCommon @ '' FROM '' @ d_quote d table]
          else []) @
         [''DROP TABLE '' @ d_quote d table,
          ''ALTER TABLE '' @ d_quote d tmp @ '' RENAME TO '' @ d_quote d table])"

datatype sql_error =
    ModelNotFound operation
  | FieldNotFound operation
  | MustBeNullable string string

definition model_table ::
  "operation \<Rightarrow> string \<Rightarrow> project_state \<Rightarrow> (model_state \<Rightarrow> sql_error + string list) \<Rightarrow>
     sql_error + string list"
where
  "model_table op n ps k = (case ps_models ps n of None \<Rightarrow> Inl (ModelNotFound op) | Some m \<Rightarrow> k m)"

fun op_sql :: "dialect \<Rightarrow> project_state \<Rightarrow> operation \<Rightarrow> sql_error + string list" where
  "op_sql d ps (CreateModel n t fs) = Inr [create_table d t fs]"
| "op_sql d ps (DeleteModel n) =
     model_table (DeleteModel n) n ps (\<lambda>m. Inr [''DROP TABLE '' @ d_quote d (ms_table m)])"
| "op_sql d ps (AddField n f) =
     model_table (AddField n f) n ps (\<lambda>m.
       if \<not> fs_null f then Inl (MustBeNullable n (fs_name f))
       else Inr [''ALTER TABLE '' @ d_quote d (ms_table m) @ '' ADD COLUMN '' @ column_def d f])"
| "op_sql d ps (RemoveField n name) =
     model_table (RemoveField n name) n ps (\<lambda>m.
       let new = filter (\<lambda>f. fs_name f \<noteq> name) (ms_fields m)
       in if name \<notin> set (map fs_name (ms_fields m)) then Inl (FieldNotFound (RemoveField n name))
          else Inr (rebuild_table d (ms_table m) (ms_fields m) new))"
| "op_sql d ps (AlterField n f) =
     model_table (AlterField n f) n ps (\<lambda>m.
       if fs_name f \<notin> set (map fs_name (ms_fields m)) then Inl (FieldNotFound (AlterField n f))
       else Inr (rebuild_table d (ms_table m) (ms_fields m) (replace_named f (ms_fields m))))"

subsection \<open>Well-formed states\<close>

text \<open>Every model once in the order, under its name, with distinctly named fields.\<close>

definition ps_wf :: "project_state \<Rightarrow> bool" where
  "ps_wf ps \<longleftrightarrow>
     distinct (ps_order ps) \<and> set (ps_order ps) = dom (ps_models ps) \<and>
     (\<forall>n m. ps_models ps n = Some m \<longrightarrow> ms_name m = n \<and> distinct (map fs_name (ms_fields m)))"

lemma field_equal_eq [simp]: "field_equal f g \<longleftrightarrow> f = g"
  by (cases f; cases g) (auto simp: field_equal_def)

lemma state_field_None: "state_field m n = None \<longleftrightarrow> n \<notin> fs_name ` set (ms_fields m)"
  by (auto simp: state_field_def find_None_iff)

lemma state_field_Some:
  "distinct (map fs_name (ms_fields m)) \<Longrightarrow>
   state_field m n = Some f \<longleftrightarrow> f \<in> set (ms_fields m) \<and> fs_name f = n"
  by (simp add: state_field_def find_distinct_key)

lemma state_field_in: "state_field m n = Some f \<Longrightarrow> f \<in> set (ms_fields m) \<and> fs_name f = n"
  by (auto simp: state_field_def find_Some_iff)

lemma remove_named_filter:
  "distinct (map fs_name fs) \<Longrightarrow> remove_named n fs = filter (\<lambda>f. fs_name f \<noteq> n) fs"
  by (induction fs) (auto simp: filter_key_absent)

lemma replace_named_map:
  "distinct (map fs_name fs) \<Longrightarrow>
   replace_named g fs = map (\<lambda>f. if fs_name f = fs_name g then g else f) fs"
  by (induction fs) (auto simp: map_key_absent)

lemma names_replace_named [simp]: "map fs_name (replace_named g fs) = map fs_name fs"
  by (induction fs) auto

lemma ps_wf_new [simp]: "ps_wf new_project_state"
  by (simp add: ps_wf_def new_project_state_def)

lemma ps_wf_model: "ps_wf ps \<Longrightarrow> ps_models ps n = Some m \<Longrightarrow> ms_name m = n"
  by (simp add: ps_wf_def)

lemma ps_wf_names: "ps_wf ps \<Longrightarrow> ps_models ps n = Some m \<Longrightarrow> distinct (map fs_name (ms_fields m))"
  by (simp add: ps_wf_def)

lemma ps_wf_order: "ps_wf ps \<Longrightarrow> n \<in> set (ps_order ps) \<longleftrightarrow> ps_models ps n \<noteq> None"
  by (auto simp: ps_wf_def dom_def)

subsubsection \<open>The snapshot of a registry\<close>

lemma field_state_from_field_names:
  "field_state_from_field ms f = Some fs \<Longrightarrow> fs_name fs = f_name f \<and> fs_column fs = f_column f"
  by (auto simp: field_state_from_field_def Let_def split: option.splits)

lemma model_state_from_names:
  assumes "model_state_from ms m = Some st"
  shows "ms_name st = m_name m \<and> ms_table st = m_table m \<and>
    map fs_name (ms_fields st) = map f_name (m_fields m) \<and>
    map fs_column (ms_fields st) = columns m"
proof -
  from assms obtain fs where
    fs: "list_all2 (\<lambda>f g. field_state_from_field ms f = Some g) (m_fields m) fs"
    and st: "st = \<lparr>ms_name = m_name m, ms_table = m_table m, ms_fields = fs\<rparr>"
    by (auto simp: model_state_from_def those_map_Some_iff)
  have "map f_name (m_fields m) = map fs_name fs" "map f_column (m_fields m) = map fs_column fs"
    by (rule list_all2_map_eq [OF fs]; simp add: field_state_from_field_names)+
  then show ?thesis by (simp add: st columns_def)
qed

lemma add_model_state_simps [simp]:
  "ps_models (add_model_state ps st) = (ps_models ps)(ms_name st \<mapsto> st)"
  "ps_order (add_model_state ps st) = ps_order ps @ [ms_name st]"
  by (simp_all add: add_model_state_def)

lemma foldl_add_model_state:
  assumes "distinct (map ms_name sts)" and "ps_wf ps"
    and "ms_name ` set sts \<inter> set (ps_order ps) = {}"
    and "\<forall>st \<in> set sts. distinct (map fs_name (ms_fields st))"
  shows "ps_wf (foldl add_model_state ps sts) \<and>
    ps_order (foldl add_model_state ps sts) = ps_order ps @ map ms_name sts \<and>
    ps_models (foldl add_model_state ps sts) = ps_models ps ++ map_of (map (\<lambda>st. (ms_name st, st)) sts)"
  using assms
proof (induction sts arbitrary: ps)
  case (Cons st sts)
  have wf: "ps_wf (add_model_state ps st)"
    using Cons.prems by (auto simp: ps_wf_def)
  have fresh: "ms_name ` set sts \<inter> set (ps_order (add_model_state ps st)) = {}"
    using Cons.prems by auto
  have ih: "ps_wf (foldl add_model_state (add_model_state ps st) sts) \<and>
    ps_order (foldl add_model_state (add_model_state ps st) sts) =
      ps_order (add_model_state ps st) @ map ms_name sts \<and>
    ps_models (foldl add_model_state (add_model_state ps st) sts) =
      ps_models (add_model_state ps st) ++ map_of (map (\<lambda>st. (ms_name st, st)) sts)"
    by (rule Cons.IH [OF _ wf fresh]) (use Cons.prems in simp_all)
  have "map_of (map (\<lambda>st. (ms_name st, st)) sts) (ms_name st) = None"
    using Cons.prems(1) by (simp add: map_of_map_eq_None)
  with ih show ?case
    by (auto simp: fun_eq_iff map_add_def split: option.splits)
qed simp

lemma state_from_registry_wf:
  assumes "state_from_registry r = Some ps" and "registry_wf r"
  shows "ps_wf ps \<and> ps_order ps = map m_name (reg_models r)"
proof -
  from assms(1) obtain sts where
    l: "list_all2 (\<lambda>m st. model_state_from (reg_models r) m = Some st) (reg_models r) sts"
    and ps: "ps = foldl add_model_state new_project_state sts"
    by (auto simp: state_from_registry_def those_map_Some_iff)
  have names: "map m_name (reg_models r) = map ms_name sts"
    by (rule list_all2_map_eq [OF l]) (simp add: model_state_from_names)
  have "distinct (map fs_name (ms_fields st))" if st: "st \<in> set sts" for st
  proof -
    from list_all2_right [OF l st] obtain m
      where m: "m \<in> set (reg_models r)" "model_state_from (reg_models r) m = Some st" by blast
    with assms(2) have "model_wf m" by (simp add: registry_wf_def)
    then have "distinct (map f_name (m_fields m))"
      unfolding model_wf_def by (blast intro: index_map_distinct)
    with model_state_from_names [OF m(2)] show ?thesis by simp
  qed
  with foldl_add_model_state [of sts new_project_state] registry_wf_distinct_names [OF assms(2)] names
  show ?thesis by (simp add: ps) (simp add: new_project_state_def)
qed

text \<open>The snapshot of a well-formed, resolved registry exists: every target has a primary key.\<close>

lemma state_from_registry_total:
  assumes "registry_wf r" and "resolved r"
  shows "\<exists>ps. state_from_registry r = Some ps"
proof -
  have "\<exists>fs. field_state_from_field (reg_models r) f = Some fs"
    if m: "m \<in> set (reg_models r)" and f: "f \<in> set (m_fields m)" for m f
  proof (cases "f_rel f")
    case None
    then show ?thesis by (simp add: field_state_from_field_def Let_def)
  next
    case (Some rel)
    with assms(2) m f obtain i where i: "i < length (reg_models r)" "rel_target rel = Some i"
      unfolding resolved_def by blast
    with assms(1) have "model_wf (reg_models r ! i)" by (simp add: registry_wf_def)
    with model_wf_primary_key [OF this] i Some show ?thesis
      by (auto simp: field_state_from_field_def Let_def)
  qed
  then have "\<exists>st. model_state_from (reg_models r) m = Some st" if "m \<in> set (reg_models r)" for m
    using that those_map_total [of "m_fields m" "field_state_from_field (reg_models r)"]
    by (auto simp: model_state_from_def)
  with those_map_total [of "reg_models r" "model_state_from (reg_models r)"]
  show ?thesis by (auto simp: state_from_registry_def)
qed

subsection \<open>Rebuilding a table\<close>

text \<open>Renaming the column of a field while rebuilding: neither name is among the copied columns.\<close>

lemma common_columns_filter:
  "common_columns fs (filter P fs) = map fs_column (filter P fs)"
  by (auto simp: common_columns_def intro!: filter_True)

lemma common_columns_replace_same:
  assumes "distinct (map fs_name fs)" and "\<And>f. f \<in> set fs \<Longrightarrow> fs_name f = fs_name g \<Longrightarrow> fs_column f = fs_column g"
  shows "common_columns fs (replace_named g fs) = map fs_column fs"
proof -
  have "map fs_column (replace_named g fs) = map fs_column fs"
    using assms(2) by (simp add: replace_named_map [OF assms(1)] cong: map_cong)
  then show ?thesis by (auto simp: common_columns_def intro!: filter_True)
qed

lemma common_columns_replace_renamed:
  assumes "distinct (map fs_name fs)" and "f \<in> set fs" and "fs_name f = fs_name g"
    and "fs_column g \<notin> fs_column ` set fs"
  shows "common_columns fs (replace_named g fs) =
    map fs_column (filter (\<lambda>h. fs_name h \<noteq> fs_name g) fs)"
proof -
  have "common_columns fs (map (\<lambda>h. if fs_name h = fs_name g then g else h) hs) =
      map fs_column (filter (\<lambda>h. fs_name h \<noteq> fs_name g) hs)" if "set hs \<subseteq> set fs" for hs
    using that assms(4) by (induction hs) (auto simp: common_columns_def)
  then show ?thesis by (simp add: replace_named_map [OF assms(1)])
qed

subsection \<open>Properties\<close>

text \<open>The operations a state takes.\<close>

definition op_fits :: "project_state \<Rightarrow> operation \<Rightarrow> bool" where
  "op_fits ps op \<longleftrightarrow>
     (case op of
        CreateModel n t fs \<Rightarrow> True
      | DeleteModel n \<Rightarrow> ps_models ps n \<noteq> None
      | AddField n f \<Rightarrow> ps_models ps n \<noteq> None \<and> fs_null f
      | RemoveField n name \<Rightarrow>
          (case ps_models ps n of None \<Rightarrow> False | Some m \<Rightarrow> state_field m name \<noteq> None)
      | AlterField n f \<Rightarrow>
          (case ps_models ps n of None \<Rightarrow> False | Some m \<Rightarrow> state_field m (fs_name f) \<noteq> None))"

lemma op_sql_ok: "(\<exists>stmts. op_sql d ps op = Inr stmts) \<longleftrightarrow> op_fits ps op"
proof (cases op)
  case (CreateModel n t fs)
  then show ?thesis by (simp add: op_fits_def)
next
  case (DeleteModel n)
  then show ?thesis by (auto simp: op_fits_def model_table_def split: option.splits)
next
  case (AddField n f)
  then show ?thesis by (auto simp: op_fits_def model_table_def split: option.splits)
next
  case (RemoveField n name)
  then show ?thesis
    by (auto simp: op_fits_def model_table_def state_field_None Let_def split: option.splits)
next
  case (AlterField n f)
  then show ?thesis
    by (auto simp: op_fits_def model_table_def state_field_None Let_def split: option.splits)
qed

lemma op_fits_apply: "op_fits ps op \<Longrightarrow> \<exists>ps'. op_apply op ps = Some ps'"
  by (cases op) (auto simp: op_fits_def update_model_def split: option.splits)

text \<open>Rendering the SQL of an operation succeeds exactly when the state takes it: a model that is
  deleted or changed is there, a field that is removed or altered is in it, and a field that is added
  is nullable.\<close>

theorem op_sql_ok_iff:
  "(\<exists>stmts. op_sql d ps op = Inr stmts) \<longleftrightarrow>
     (case op of
        CreateModel n t fs \<Rightarrow> True
      | DeleteModel n \<Rightarrow> ps_models ps n \<noteq> None
      | AddField n f \<Rightarrow> ps_models ps n \<noteq> None \<and> fs_null f
      | RemoveField n name \<Rightarrow>
          (case ps_models ps n of None \<Rightarrow> False | Some m \<Rightarrow> state_field m name \<noteq> None)
      | AlterField n f \<Rightarrow>
          (case ps_models ps n of None \<Rightarrow> False | Some m \<Rightarrow> state_field m (fs_name f) \<noteq> None))"
  using op_sql_ok [of d ps op] unfolding op_fits_def .


text \<open>The states of the witnesses: the snapshot of the author model, and a changed one.\<close>

definition name_state :: field_state where
  "name_state = \<lparr>fs_name = ''Name'', fs_column = ''name'', fs_kind = KindChar, fs_primary_key = False,
     fs_null = False, fs_unique = False, fs_max_length = 80, fs_rel_kind = RelNone,
     fs_rel_target_table = [], fs_rel_target_column = [], fs_rel_on_delete = OnDeleteDoNothing\<rparr>"

definition id_state :: field_state where
  "id_state = name_state\<lparr>fs_name := ''ID'', fs_column := ''id'', fs_kind := KindAuto,
     fs_primary_key := True, fs_max_length := 0\<rparr>"


end
