(* ===== verification/Mig_Autodetect.thy ===== *)
theory Mig_Autodetect
  imports Mig_State
begin

text \<open>
  \<open>migrations/autodetect.go\<close>, \<open>migrations/migration.go\<close>, \<open>migrations/registry.go\<close>,
  \<open>migrations/makemigrations.go\<close> and \<open>migrations/errors.go\<close>: comparing two states, the operations
  between them, rename warnings, and the next migration. The main lemma, \<open>diff_applies\<close>, says what
  replaying the operations of \<open>Diff\<close> gives.
\<close>

subsection \<open>Diff\<close>

definition has_field :: "model_state \<Rightarrow> field_state \<Rightarrow> bool" where
  "has_field m f \<longleftrightarrow> state_field m (fs_name f) \<noteq> None"

definition added_fields :: "model_state \<Rightarrow> model_state \<Rightarrow> field_state list" where
  "added_fields om nm = filter (\<lambda>f. \<not> has_field om f) (ms_fields nm)"

definition altered_fields :: "model_state \<Rightarrow> model_state \<Rightarrow> field_state list" where
  "altered_fields om nm =
     filter (\<lambda>nf. case state_field om (fs_name nf) of
                   None \<Rightarrow> False
                 | Some f \<Rightarrow> \<not> field_equal f nf) (ms_fields nm)"

definition removed_fields :: "model_state \<Rightarrow> model_state \<Rightarrow> field_state list" where
  "removed_fields om nm = filter (\<lambda>f. \<not> has_field nm f) (ms_fields om)"

definition field_changes :: "string \<Rightarrow> model_state \<Rightarrow> model_state \<Rightarrow> operation list" where
  "field_changes n om nm =
     map (AddField n) (added_fields om nm) @
     map (AlterField n) (altered_fields om nm) @
     map (\<lambda>f. RemoveField n (fs_name f)) (removed_fields om nm)"

text \<open>One step of each of the three loops; None is the nil dereference of a name without a model.\<close>

definition create_ops :: "project_state \<Rightarrow> project_state \<Rightarrow> string \<Rightarrow> operation list option" where
  "create_ops old new n =
     (case ps_models old n of
        Some om \<Rightarrow> Some []
      | None \<Rightarrow> map_option (\<lambda>nm. [CreateModel n (ms_table nm) (ms_fields nm)]) (ps_models new n))"

definition change_ops :: "project_state \<Rightarrow> project_state \<Rightarrow> string \<Rightarrow> operation list option" where
  "change_ops old new n =
     (case ps_models old n of
        None \<Rightarrow> Some []
      | Some om \<Rightarrow> map_option (field_changes n om) (ps_models new n))"

definition delete_ops :: "project_state \<Rightarrow> string \<Rightarrow> operation list" where
  "delete_ops new n = (if ps_models new n = None then [DeleteModel n] else [])"

definition diff :: "project_state \<Rightarrow> project_state \<Rightarrow> operation list option" where
  "diff old new =
     (case those (map (create_ops old new) (ps_order new)) of
        None \<Rightarrow> None
      | Some cs \<Rightarrow>
          (case those (map (change_ops old new) (ps_order new)) of
             None \<Rightarrow> None
           | Some fs \<Rightarrow>
               Some (concat cs @ concat fs @ concat (map (delete_ops new) (ps_order old)))))"

subsection \<open>Rename warnings\<close>

record potential_rename =
  pr_model :: string
  pr_from :: string
  pr_to :: string

definition rename_string :: "potential_rename \<Rightarrow> string" where
  "rename_string r = pr_model r @ ''.'' @ pr_from r @ '' -> '' @ pr_model r @ ''.'' @ pr_to r"

text \<open>
  The inner loop claims the first unclaimed added field of the type of the removed one. The source
  keeps flags; the added fields that are still unclaimed, in their order, carry the same information.
\<close>

fun claim :: "field_state \<Rightarrow> field_state list \<Rightarrow> (field_state \<times> field_state list) option" where
  "claim f [] = None"
| "claim f (a # added) =
     (if same_type f a then Some (a, added)
      else map_option (\<lambda>(x, rest). (x, a # rest)) (claim f added))"

fun pair_renames :: "string \<Rightarrow> field_state list \<Rightarrow> field_state list \<Rightarrow> potential_rename list" where
  "pair_renames n [] added = []"
| "pair_renames n (f # removed) added =
     (case claim f added of
        None \<Rightarrow> pair_renames n removed added
      | Some (a, rest) \<Rightarrow>
          \<lparr>pr_model = n, pr_from = fs_name f, pr_to = fs_name a\<rparr> # pair_renames n removed rest)"

definition renames_of :: "project_state \<Rightarrow> project_state \<Rightarrow> string \<Rightarrow> potential_rename list option" where
  "renames_of old new n =
     (case ps_models old n of
        None \<Rightarrow> Some []
      | Some om \<Rightarrow>
          map_option (\<lambda>nm. pair_renames n (removed_fields om nm) (added_fields om nm))
            (ps_models new n))"

definition detect_renames :: "project_state \<Rightarrow> project_state \<Rightarrow> potential_rename list option" where
  "detect_renames old new = map_option concat (those (map (renames_of old new) (ps_order new)))"

subsection \<open>Migrations\<close>

record migration =
  mig_app :: string
  mig_name :: string
  mig_dependencies :: "string list"
  mig_operations :: "operation list"

fun apply_ops :: "operation list \<Rightarrow> project_state \<Rightarrow> project_state option" where
  "apply_ops [] ps = Some ps"
| "apply_ops (op # ops) ps = Option.bind (op_apply op ps) (apply_ops ops)"

definition state_from_migrations :: "migration list \<Rightarrow> project_state option" where
  "state_from_migrations migs = apply_ops (concat (map mig_operations migs)) new_project_state"

record mig_registry =
  mr_by_app :: "string \<rightharpoonup> migration list"
  mr_app_order :: "string list"

definition new_mig_registry :: mig_registry where
  "new_mig_registry = \<lparr>mr_by_app = Map.empty, mr_app_order = []\<rparr>"

definition for_app :: "mig_registry \<Rightarrow> string \<Rightarrow> migration list" where
  "for_app r app = (case mr_by_app r app of None \<Rightarrow> [] | Some ms \<Rightarrow> ms)"

definition add_migration :: "migration \<Rightarrow> mig_registry \<Rightarrow> mig_registry" where
  "add_migration m r =
     r\<lparr>mr_app_order := (if mr_by_app r (mig_app m) = None then mr_app_order r @ [mig_app m]
                        else mr_app_order r),
       mr_by_app := (mr_by_app r)(mig_app m \<mapsto> for_app r (mig_app m) @ [m])\<rparr>"

definition all_migrations :: "mig_registry \<Rightarrow> migration list" where
  "all_migrations r = concat (map (for_app r) (mr_app_order r))"

text \<open>\<open>fmt.Sprintf("%04d_%s", n, label)\<close>\<close>

definition migration_name :: "nat \<Rightarrow> string" where
  "migration_name n =
     replicate (4 - length (utoa n)) CHR ''0'' @ utoa n @ ''_'' @
     (if n = 1 then ''initial'' else ''auto'')"

datatype 'e make_error = NoChanges | NilModelState | WriteFailed 'e

text \<open>
  \<open>MakeMigrations\<close>: the file is written by \<open>write\<close>, which gives the path or an error, when there is a
  directory to write it to.
\<close>

definition make_migrations ::
  "string \<Rightarrow> project_state \<Rightarrow> migration list \<Rightarrow> (migration \<Rightarrow> 'e + string) option \<Rightarrow>
     'e make_error + migration \<times> string"
where
  "make_migrations app current prior write =
     (case Option.bind (state_from_migrations prior) (\<lambda>ps. diff ps current) of
        None \<Rightarrow> Inl NilModelState
      | Some ops \<Rightarrow>
          if ops = [] then Inl NoChanges
          else
            (let m = \<lparr>mig_app = app, mig_name = migration_name (length prior + 1),
                      mig_dependencies = (if prior = [] then [] else [mig_name (last prior)]),
                      mig_operations = ops\<rparr>
             in case write of
                  None \<Rightarrow> Inr (m, [])
                | Some w \<Rightarrow>
                    (case w m of Inl e \<Rightarrow> Inl (WriteFailed e) | Inr path \<Rightarrow> Inr (m, path))))"

subsection \<open>Replaying a list of operations\<close>

lemma apply_ops_append: "apply_ops (xs @ ys) ps = Option.bind (apply_ops xs ps) (apply_ops ys)"
  by (induction xs arbitrary: ps) (auto split: bind_splits)

lemma apply_ops_appendI:
  "apply_ops xs ps = Some ps' \<Longrightarrow> apply_ops ys ps' = r \<Longrightarrow> apply_ops (xs @ ys) ps = r"
  by (simp add: apply_ops_append)

text \<open>The operations of one model rewrite its fields and nothing else.\<close>

definition having_fields :: "project_state \<Rightarrow> string \<Rightarrow> field_state list \<Rightarrow> project_state" where
  "having_fields ps n fs =
     ps\<lparr>ps_models := (ps_models ps)(n := map_option (\<lambda>m. m\<lparr>ms_fields := fs\<rparr>) (ps_models ps n))\<rparr>"

lemma update_model_having_fields:
  "ps_models ps n = Some m \<Longrightarrow> update_model n g (having_fields ps n fs) = Some (having_fields ps n (g fs))"
  by (simp add: update_model_def having_fields_def)

lemma having_fields_same: "ps_models ps n = Some m \<Longrightarrow> having_fields ps n (ms_fields m) = ps"
  by (simp add: having_fields_def fun_upd_idem)

lemma apply_adds:
  "ps_models ps n = Some m \<Longrightarrow>
   apply_ops (map (AddField n) gs) (having_fields ps n fs) = Some (having_fields ps n (fs @ gs))"
  by (induction gs arbitrary: fs) (simp_all add: update_model_having_fields)

lemma apply_alters:
  "ps_models ps n = Some m \<Longrightarrow>
   apply_ops (map (AlterField n) gs) (having_fields ps n fs) =
     Some (having_fields ps n (fold replace_named gs fs))"
  by (induction gs arbitrary: fs) (simp_all add: update_model_having_fields)

lemma apply_removes:
  "ps_models ps n = Some m \<Longrightarrow>
   apply_ops (map (\<lambda>f. RemoveField n (fs_name f)) gs) (having_fields ps n fs) =
     Some (having_fields ps n (fold (\<lambda>g. remove_named (fs_name g)) gs fs))"
  by (induction gs arbitrary: fs) (simp_all add: update_model_having_fields)

text \<open>What the loops over fields compute, for distinctly named fields.\<close>

lemma fold_replace_named:
  assumes "distinct (map fs_name fs)" and "distinct (map fs_name gs)"
  shows "fold replace_named gs fs =
    map (\<lambda>f. case find (\<lambda>g. fs_name g = fs_name f) gs of None \<Rightarrow> f | Some g \<Rightarrow> g) fs"
  using assms
proof (induction gs arbitrary: fs)
  case (Cons g gs)
  have ih: "fold replace_named gs (replace_named g fs) =
      map (\<lambda>f. case find (\<lambda>h. fs_name h = fs_name f) gs of None \<Rightarrow> f | Some h \<Rightarrow> h) (replace_named g fs)"
    by (rule Cons.IH) (use Cons.prems in simp_all)
  have none: "find (\<lambda>h. fs_name h = fs_name g) gs = None"
    using Cons.prems(2) by (simp add: find_None_iff) (metis imageI)
  show ?case
    using ih none Cons.prems(1)
    by (auto simp: replace_named_map)
qed simp

lemma distinct_names_filter: "distinct (map fs_name fs) \<Longrightarrow> distinct (map fs_name (filter P fs))"
  by (rule distinct_map_filter)

lemma fold_remove_named:
  assumes "distinct (map fs_name fs)"
  shows "fold (\<lambda>g. remove_named (fs_name g)) gs fs =
    filter (\<lambda>f. fs_name f \<notin> fs_name ` set gs) fs"
  using assms
proof (induction gs arbitrary: fs)
  case (Cons g gs)
  have "fold (\<lambda>g. remove_named (fs_name g)) gs (remove_named (fs_name g) fs) =
      filter (\<lambda>f. fs_name f \<notin> fs_name ` set gs) (remove_named (fs_name g) fs)"
    by (rule Cons.IH) (use Cons.prems in \<open>simp add: remove_named_filter distinct_names_filter\<close>)
  with Cons.prems show ?case by (auto simp: remove_named_filter intro!: filter_cong)
qed simp

text \<open>
  The fields of a changed model afterwards: the fields that stay, in their old order and with their new
  definition, then the added ones in their new order.
\<close>

definition merged_fields :: "model_state \<Rightarrow> model_state \<Rightarrow> field_state list" where
  "merged_fields om nm =
     concat (map (\<lambda>f. case state_field nm (fs_name f) of None \<Rightarrow> [] | Some g \<Rightarrow> [g]) (ms_fields om)) @
     added_fields om nm"

lemma filter_map_concat: "filter P (map h xs) = concat (map (\<lambda>x. if P (h x) then [h x] else []) xs)"
  by (induction xs) auto

lemma find_altered:
  assumes "distinct (map fs_name (ms_fields nm))" and "distinct (map fs_name (ms_fields om))"
  shows "find (\<lambda>g. fs_name g = k) (altered_fields om nm) =
    (case state_field nm k of
       None \<Rightarrow> None
     | Some g \<Rightarrow> (case state_field om k of None \<Rightarrow> None | Some f \<Rightarrow> if f = g then None else Some g))"
proof -
  have d: "distinct (map fs_name (altered_fields om nm))"
    unfolding altered_fields_def by (rule distinct_names_filter [OF assms(1)])
  show ?thesis
  proof (cases "find (\<lambda>g. fs_name g = k) (altered_fields om nm)")
    case None
    then have "g \<notin> set (altered_fields om nm)" if "fs_name g = k" for g
      using that by (auto simp: find_None_iff)
    then have "f = g" if "state_field nm k = Some g" and "state_field om k = Some f" for f g
      using that by (auto simp: altered_fields_def state_field_Some [OF assms(1)])
    then show ?thesis by (auto simp: None split: option.splits)
  next
    case (Some g)
    then have "g \<in> set (altered_fields om nm)" "fs_name g = k"
      by (simp_all add: find_distinct_key [OF d])
    then have g: "g \<in> set (ms_fields nm)" "fs_name g = k"
      and f: "\<exists>f. state_field om k = Some f \<and> f \<noteq> g"
      by (auto simp: altered_fields_def split: option.splits)
    from g have "state_field nm k = Some g" by (simp add: state_field_Some [OF assms(1)])
    with f Some show ?thesis by auto
  qed
qed

lemma removed_names:
  "fs_name ` set (removed_fields om nm) =
     {k. state_field nm k = None \<and> k \<in> fs_name ` set (ms_fields om)}"
  by (auto simp: removed_fields_def has_field_def image_iff)

lemma added_names:
  "fs_name ` set (added_fields om nm) =
     {k. state_field om k = None \<and> k \<in> fs_name ` set (ms_fields nm)}"
  by (auto simp: added_fields_def has_field_def image_iff)

lemma distinct_added:
  assumes "distinct (map fs_name (ms_fields om))" and "distinct (map fs_name (ms_fields nm))"
  shows "distinct (map fs_name (ms_fields om @ added_fields om nm))"
proof -
  have "fs_name ` set (ms_fields om) \<inter> fs_name ` set (added_fields om nm) = {}"
    unfolding added_names by (auto simp: state_field_None)
  with assms show ?thesis by (simp add: added_fields_def distinct_names_filter)
qed

lemma field_changes_apply:
  assumes "ps_models ps n = Some om"
    and "distinct (map fs_name (ms_fields om))" and "distinct (map fs_name (ms_fields nm))"
  shows "apply_ops (field_changes n om nm) ps = Some (having_fields ps n (merged_fields om nm))"
proof -
  let ?fs1 = "ms_fields om @ added_fields om nm"
  let ?alter = "\<lambda>f. case find (\<lambda>g. fs_name g = fs_name f) (altered_fields om nm) of
      None \<Rightarrow> f | Some g \<Rightarrow> g"
  let ?keep = "\<lambda>f. fs_name f \<notin> fs_name ` set (removed_fields om nm)"
  note find = find_altered [OF assms(3,2)]
  have d1: "distinct (map fs_name ?fs1)" by (rule distinct_added [OF assms(2,3)])
  have da: "distinct (map fs_name (altered_fields om nm))"
    unfolding altered_fields_def by (rule distinct_names_filter [OF assms(3)])
  have names: "fs_name (?alter f) = fs_name f" for f
    by (auto split: option.splits simp: find_Some_iff)
  have "map fs_name (map ?alter ?fs1) = map fs_name ?fs1"
    by (simp only: map_map comp_def names)
  with d1 have d2: "distinct (map fs_name (map ?alter ?fs1))" by (simp only:)
  have old: "(if ?keep (?alter f) then [?alter f] else []) =
      (case state_field nm (fs_name f) of None \<Rightarrow> [] | Some g \<Rightarrow> [g])"
    if "f \<in> set (ms_fields om)" for f
  proof -
    have "state_field om (fs_name f) = Some f"
      using that by (simp add: state_field_Some [OF assms(2)])
    with that show ?thesis
      unfolding names removed_names by (auto simp: find split: option.splits)
  qed
  have new: "(if ?keep (?alter f) then [?alter f] else []) = [f]"
    if "f \<in> set (added_fields om nm)" for f
  proof -
    from that have none: "state_field om (fs_name f) = None"
      by (simp add: added_fields_def has_field_def)
    then have "fs_name f \<notin> fs_name ` set (ms_fields om)" by (simp add: state_field_None)
    with none show ?thesis
      unfolding names removed_names by (auto simp: find split: option.splits)
  qed
  have "filter ?keep (map ?alter ?fs1) = merged_fields om nm"
  proof -
    have "filter ?keep (map ?alter (ms_fields om)) =
        concat (map (\<lambda>f. case state_field nm (fs_name f) of None \<Rightarrow> [] | Some g \<Rightarrow> [g]) (ms_fields om))"
      unfolding filter_map_concat by (rule arg_cong [where f = concat], rule map_cong [OF refl old])
    moreover have "filter ?keep (map ?alter (added_fields om nm)) =
        concat (map (\<lambda>f. [f]) (added_fields om nm))"
      unfolding filter_map_concat by (rule arg_cong [where f = concat], rule map_cong [OF refl new])
    ultimately show ?thesis
      unfolding merged_fields_def map_append filter_append by simp
  qed
  then have "fold (\<lambda>g. remove_named (fs_name g)) (removed_fields om nm)
      (fold replace_named (altered_fields om nm) ?fs1) = merged_fields om nm"
    by (simp only: fold_replace_named [OF d1 da] fold_remove_named [OF d2])
  then have "apply_ops (field_changes n om nm) (having_fields ps n (ms_fields om)) =
      Some (having_fields ps n (merged_fields om nm))"
    unfolding field_changes_def
    by (simp add: apply_ops_append apply_adds [OF assms(1)] apply_alters [OF assms(1)]
        apply_removes [OF assms(1)])
  then show ?thesis by (simp add: having_fields_same [OF assms(1)])
qed

subsection \<open>The three phases\<close>

text \<open>What remains of the changed model, and of every model, after the operations of \<open>Diff\<close>.\<close>

definition merged_model :: "project_state \<Rightarrow> project_state \<Rightarrow> string \<Rightarrow> model_state option" where
  "merged_model old new n =
     (case ps_models new n of
        None \<Rightarrow> None
      | Some nm \<Rightarrow>
          (case ps_models old n of
             None \<Rightarrow> Some nm
           | Some om \<Rightarrow> Some (om\<lparr>ms_fields := merged_fields om nm\<rparr>)))"

definition after_diff :: "project_state \<Rightarrow> project_state \<Rightarrow> project_state" where
  "after_diff old new =
     \<lparr>ps_models = merged_model old new,
      ps_order = filter (\<lambda>n. ps_models new n \<noteq> None) (ps_order old) @
                 filter (\<lambda>n. ps_models old n = None) (ps_order new)\<rparr>"

lemma project_state_eqI:
  "ps_models ps = ps_models qs \<Longrightarrow> ps_order ps = ps_order qs \<Longrightarrow> ps = (qs :: project_state)"
  by simp

lemma apply_creates:
  assumes "\<forall>n \<in> set ns. ps_models old n = None \<longrightarrow> ps_models new n \<noteq> None"
    and "\<And>n m. ps_models new n = Some m \<Longrightarrow> ms_name m = n"
    and "distinct ns" and "\<forall>n \<in> set ns. ps_models old n = None \<longrightarrow> n \<notin> set (ps_order ps)"
  shows "\<exists>cs. those (map (create_ops old new) ns) = Some cs \<and>
    apply_ops (concat cs) ps = Some
      \<lparr>ps_models = (\<lambda>n. if n \<in> set ns \<and> ps_models old n = None then ps_models new n else ps_models ps n),
       ps_order = ps_order ps @ filter (\<lambda>n. ps_models old n = None) ns\<rparr>"
  using assms(1,3,4)
proof (induction ns arbitrary: ps)
  case (Cons n ns)
  show ?case
  proof (cases "ps_models old n")
    case None
    with Cons.prems(1) obtain nm where nm: "ps_models new n = Some nm" by auto
    with assms(2) have eta: "\<lparr>ms_name = n, ms_table = ms_table nm, ms_fields = ms_fields nm\<rparr> = nm" by auto
    from None Cons.prems(3) have n: "n \<notin> set (ps_order ps)" by simp
    let ?ps = "ps\<lparr>ps_models := (ps_models ps)(n \<mapsto> nm), ps_order := ps_order ps @ [n]\<rparr>"
    from Cons.IH [of ?ps] Cons.prems obtain cs where
      cs: "those (map (create_ops old new) ns) = Some cs" and
      app: "apply_ops (concat cs) ?ps = Some
        \<lparr>ps_models = (\<lambda>k. if k \<in> set ns \<and> ps_models old k = None then ps_models new k else ps_models ?ps k),
         ps_order = ps_order ?ps @ filter (\<lambda>n. ps_models old n = None) ns\<rparr>"
      by auto
    let ?op = "CreateModel n (ms_table nm) (ms_fields nm)"
    have t: "those (map (create_ops old new) (n # ns)) = Some ([?op] # cs)"
      using None nm cs by (simp add: create_ops_def [of _ _ n])
    have "apply_ops (concat ([?op] # cs)) ps = apply_ops (concat cs) ?ps"
      using n eta by simp
    also note app
    finally have a: "apply_ops (concat ([?op] # cs)) ps = Some
        \<lparr>ps_models = (\<lambda>k. if k \<in> set (n # ns) \<and> ps_models old k = None then ps_models new k
                        else ps_models ps k),
         ps_order = ps_order ps @ filter (\<lambda>n. ps_models old n = None) (n # ns)\<rparr>"
      using None nm by (auto simp: fun_eq_iff)
    from t a show ?thesis by blast
  next
    case (Some om)
    from Cons.IH [of ps] Cons.prems obtain cs where
      cs: "those (map (create_ops old new) ns) = Some cs" and
      app: "apply_ops (concat cs) ps = Some
        \<lparr>ps_models = (\<lambda>k. if k \<in> set ns \<and> ps_models old k = None then ps_models new k else ps_models ps k),
         ps_order = ps_order ps @ filter (\<lambda>n. ps_models old n = None) ns\<rparr>"
      by auto
    have t: "those (map (create_ops old new) (n # ns)) = Some ([] # cs)"
      using Some cs by (simp add: create_ops_def [of _ _ n])
    from app Some have a: "apply_ops (concat ([] # cs)) ps = Some
        \<lparr>ps_models = (\<lambda>k. if k \<in> set (n # ns) \<and> ps_models old k = None then ps_models new k
                        else ps_models ps k),
         ps_order = ps_order ps @ filter (\<lambda>n. ps_models old n = None) (n # ns)\<rparr>"
      by (auto simp: fun_eq_iff)
    from t a show ?thesis by blast
  qed
qed auto

lemma apply_changes:
  assumes "\<forall>n \<in> set ns. ps_models new n \<noteq> None"
    and "distinct ns" and "\<forall>n \<in> set ns. ps_models old n \<noteq> None \<longrightarrow> ps_models ps n = ps_models old n"
    and "\<And>n m. ps_models old n = Some m \<Longrightarrow> distinct (map fs_name (ms_fields m))"
    and "\<And>n m. ps_models new n = Some m \<Longrightarrow> distinct (map fs_name (ms_fields m))"
  shows "\<exists>cs. those (map (change_ops old new) ns) = Some cs \<and>
    apply_ops (concat cs) ps = Some (ps\<lparr>ps_models :=
      (\<lambda>n. if n \<in> set ns \<and> ps_models old n \<noteq> None then merged_model old new n else ps_models ps n)\<rparr>)"
  using assms(1-3)
proof (induction ns arbitrary: ps)
  case (Cons n ns)
  obtain nm where nm: "ps_models new n = Some nm" using Cons.prems(1) by auto
  show ?case
  proof (cases "ps_models old n")
    case None
    from Cons.IH [of ps] Cons.prems obtain cs where
      cs: "those (map (change_ops old new) ns) = Some cs" and
      app: "apply_ops (concat cs) ps = Some (ps\<lparr>ps_models :=
        (\<lambda>k. if k \<in> set ns \<and> ps_models old k \<noteq> None then merged_model old new k else ps_models ps k)\<rparr>)"
      by auto
    have t: "those (map (change_ops old new) (n # ns)) = Some ([] # cs)"
      using None cs by (simp add: change_ops_def [of _ _ n])
    have "(\<lambda>k. if k \<in> set ns \<and> ps_models old k \<noteq> None then merged_model old new k else ps_models ps k) =
      (\<lambda>k. if k \<in> set (n # ns) \<and> ps_models old k \<noteq> None then merged_model old new k else ps_models ps k)"
      using None by (auto simp: fun_eq_iff)
    with t app show ?thesis by (intro exI [of _ "[] # cs"]) simp
  next
    case (Some om)
    with Cons.prems(3) have om: "ps_models ps n = Some om" by simp
    let ?ps = "having_fields ps n (merged_fields om nm)"
    have step: "apply_ops (field_changes n om nm) ps = Some ?ps"
      by (rule field_changes_apply [OF om assms(4) [OF Some] assms(5) [OF nm]])
    have same: "ps_models ?ps k = ps_models ps k" if "k \<noteq> n" for k
      using that by (simp add: having_fields_def)
    have merged: "merged_model old new n = ps_models ?ps n"
      by (simp add: merged_model_def nm Some having_fields_def om)
    have "ps_models ?ps k = ps_models ps k" if "k \<in> set ns" for k
    proof (rule same)
      show "k \<noteq> n" using that Cons.prems(2) by auto
    qed
    with Cons.IH [of ?ps] Cons.prems obtain cs where
      cs: "those (map (change_ops old new) ns) = Some cs" and
      app: "apply_ops (concat cs) ?ps = Some (?ps\<lparr>ps_models :=
        (\<lambda>k. if k \<in> set ns \<and> ps_models old k \<noteq> None then merged_model old new k else ps_models ?ps k)\<rparr>)"
      by auto
    have t: "those (map (change_ops old new) (n # ns)) = Some (field_changes n om nm # cs)"
      using Some nm cs by (simp add: change_ops_def [of _ _ n])
    have "(\<lambda>k. if k \<in> set ns \<and> ps_models old k \<noteq> None then merged_model old new k else ps_models ?ps k) =
      (\<lambda>k. if k \<in> set (n # ns) \<and> ps_models old k \<noteq> None then merged_model old new k else ps_models ps k)"
    proof
      fix k
      show "(if k \<in> set ns \<and> ps_models old k \<noteq> None then merged_model old new k else ps_models ?ps k) =
        (if k \<in> set (n # ns) \<and> ps_models old k \<noteq> None then merged_model old new k else ps_models ps k)"
        by (cases "k = n") (auto simp: Some merged same)
    qed
    with app have "apply_ops (concat cs) ?ps = Some (ps\<lparr>ps_models := (\<lambda>k. if k \<in> set (n # ns) \<and>
        ps_models old k \<noteq> None then merged_model old new k else ps_models ps k)\<rparr>)"
      by (simp add: having_fields_def)
    with step have "apply_ops (concat (field_changes n om nm # cs)) ps = Some (ps\<lparr>ps_models :=
        (\<lambda>k. if k \<in> set (n # ns) \<and> ps_models old k \<noteq> None then merged_model old new k
            else ps_models ps k)\<rparr>)"
      by (simp add: apply_ops_append)
    with t show ?thesis by blast
  qed
qed simp

lemma apply_deletes:
  assumes "distinct (ps_order ps)"
  shows "apply_ops (concat (map (delete_ops new) ns)) ps = Some
    \<lparr>ps_models = (\<lambda>n. if n \<in> set ns \<and> ps_models new n = None then None else ps_models ps n),
     ps_order = filter (\<lambda>n. \<not> (n \<in> set ns \<and> ps_models new n = None)) (ps_order ps)\<rparr>"
  using assms
proof (induction ns arbitrary: ps)
  case (Cons n ns)
  show ?case
  proof (cases "ps_models new n")
    case None
    let ?ps = "ps\<lparr>ps_models := (ps_models ps)(n := None), ps_order := remove1 n (ps_order ps)\<rparr>"
    have order: "remove1 n (ps_order ps) = filter (\<lambda>k. k \<noteq> n) (ps_order ps)"
      using Cons.prems by (simp add: distinct_remove1_removeAll removeAll_filter_not_eq eq_commute)
    have "apply_ops (concat (map (delete_ops new) (n # ns))) ps =
        apply_ops (concat (map (delete_ops new) ns)) ?ps"
      using None by (simp add: delete_ops_def [of _ n])
    also have "\<dots> = Some
      \<lparr>ps_models = (\<lambda>k. if k \<in> set ns \<and> ps_models new k = None then None else ps_models ?ps k),
       ps_order = filter (\<lambda>k. \<not> (k \<in> set ns \<and> ps_models new k = None)) (ps_order ?ps)\<rparr>"
      by (rule Cons.IH) (use Cons.prems in simp)
    also have "\<dots> = Some
      \<lparr>ps_models = (\<lambda>k. if k \<in> set (n # ns) \<and> ps_models new k = None then None else ps_models ps k),
       ps_order = filter (\<lambda>k. \<not> (k \<in> set (n # ns) \<and> ps_models new k = None)) (ps_order ps)\<rparr>"
      using None by (auto simp: fun_eq_iff order intro!: filter_cong)
    finally show ?thesis .
  next
    case (Some m)
    then have "apply_ops (concat (map (delete_ops new) (n # ns))) ps =
        apply_ops (concat (map (delete_ops new) ns)) ps"
      by (simp add: delete_ops_def [of _ n])
    also note Cons.IH [OF Cons.prems]
    also have "(\<lambda>k. if k \<in> set ns \<and> ps_models new k = None then None else ps_models ps k) =
        (\<lambda>k. if k \<in> set (n # ns) \<and> ps_models new k = None then None else ps_models ps k)"
      using Some by (auto simp: fun_eq_iff)
    also have "filter (\<lambda>k. \<not> (k \<in> set ns \<and> ps_models new k = None)) (ps_order ps) =
        filter (\<lambda>k. \<not> (k \<in> set (n # ns) \<and> ps_models new k = None)) (ps_order ps)"
      using Some by (auto intro!: filter_cong)
    finally show ?thesis .
  qed
qed (simp add: project_state_eqI)

text \<open>Replaying the operations of \<open>Diff\<close>: it always succeeds, and this is the state it ends in.\<close>

lemma diff_applies:
  assumes "ps_wf old" and "ps_wf new"
  shows "\<exists>ops. diff old new = Some ops \<and> apply_ops ops old = Some (after_diff old new)"
proof -
  have dom: "n \<in> set (ps_order new) \<longleftrightarrow> ps_models new n \<noteq> None"
    "n \<in> set (ps_order old) \<longleftrightarrow> ps_models old n \<noteq> None" for n
    using ps_wf_order [OF assms(2)] ps_wf_order [OF assms(1)] by blast+
  have dist: "distinct (ps_order new)" "distinct (ps_order old)"
    using assms by (simp_all add: ps_wf_def)
  have creates: "\<exists>cs. those (map (create_ops old new) (ps_order new)) = Some cs \<and>
    apply_ops (concat cs) old = Some
      \<lparr>ps_models = (\<lambda>n. if n \<in> set (ps_order new) \<and> ps_models old n = None then ps_models new n
                      else ps_models old n),
       ps_order = ps_order old @ filter (\<lambda>n. ps_models old n = None) (ps_order new)\<rparr>"
    by (rule apply_creates [OF _ _ dist(1)]) (use dom ps_wf_model [OF assms(2)] in auto)
  then obtain cs where cs: "those (map (create_ops old new) (ps_order new)) = Some cs"
    and s1: "apply_ops (concat cs) old = Some
      \<lparr>ps_models = (\<lambda>n. if n \<in> set (ps_order new) \<and> ps_models old n = None then ps_models new n
                      else ps_models old n),
       ps_order = ps_order old @ filter (\<lambda>n. ps_models old n = None) (ps_order new)\<rparr>"
      (is "_ = Some ?s1")
    by blast
  have "\<exists>fs. those (map (change_ops old new) (ps_order new)) = Some fs \<and>
    apply_ops (concat fs) ?s1 = Some (?s1\<lparr>ps_models :=
      (\<lambda>n. if n \<in> set (ps_order new) \<and> ps_models old n \<noteq> None then merged_model old new n
          else ps_models ?s1 n)\<rparr>)"
    by (rule apply_changes [OF _ dist(1)])
      (use dom ps_wf_names [OF assms(1)] ps_wf_names [OF assms(2)] in auto)
  then obtain fs where fs: "those (map (change_ops old new) (ps_order new)) = Some fs"
    and s2: "apply_ops (concat fs) ?s1 = Some (?s1\<lparr>ps_models :=
      (\<lambda>n. if n \<in> set (ps_order new) \<and> ps_models old n \<noteq> None then merged_model old new n
          else ps_models ?s1 n)\<rparr>)"
      (is "_ = Some ?s2")
    by blast
  have "set (ps_order old) \<inter> set (filter (\<lambda>n. ps_models old n = None) (ps_order new)) = {}"
    using dom by auto
  with dist have d2: "distinct (ps_order ?s2)" by simp
  have end_models: "(\<lambda>n. if n \<in> set (ps_order old) \<and> ps_models new n = None then None
      else ps_models ?s2 n) = merged_model old new"
    by (auto simp: fun_eq_iff dom merged_model_def split: option.splits)
  have "filter (\<lambda>n. \<not> (n \<in> set (ps_order old) \<and> ps_models new n = None)) (ps_order ?s2) =
      ps_order (after_diff old new)"
  proof -
    have "filter (\<lambda>n. \<not> (n \<in> set (ps_order old) \<and> ps_models new n = None)) (ps_order old) =
        filter (\<lambda>n. ps_models new n \<noteq> None) (ps_order old)"
      by (rule filter_cong) auto
    moreover have "filter (\<lambda>n. \<not> (n \<in> set (ps_order old) \<and> ps_models new n = None))
        (filter (\<lambda>n. ps_models old n = None) (ps_order new)) = filter (\<lambda>n. ps_models old n = None) (ps_order new)"
      using dom by (auto simp: filter_filter intro!: filter_cong)
    ultimately show ?thesis by (simp add: after_diff_def del: filter_filter)
  qed
  with apply_deletes [OF d2, of new "ps_order old"] end_models
  have "apply_ops (concat (map (delete_ops new) (ps_order old))) ?s2 = Some (after_diff old new)"
    by (simp add: after_diff_def)
  with s1 s2 have "apply_ops (concat cs @ concat fs @ concat (map (delete_ops new) (ps_order old))) old =
      Some (after_diff old new)"
    by (simp add: apply_ops_append)
  moreover have "diff old new =
      Some (concat cs @ concat fs @ concat (map (delete_ops new) (ps_order old)))"
    by (simp add: diff_def cs fs)
  ultimately show ?thesis by blast
qed

subsection \<open>Convergence\<close>

lemma set_merged_fields:
  assumes "distinct (map fs_name (ms_fields om))" and "distinct (map fs_name (ms_fields nm))"
  shows "set (merged_fields om nm) = set (ms_fields nm)"
proof
  show "set (merged_fields om nm) \<subseteq> set (ms_fields nm)"
    by (auto simp: merged_fields_def added_fields_def dest: state_field_in [OF sym]
        split: option.splits)
  show "set (ms_fields nm) \<subseteq> set (merged_fields om nm)"
  proof
    fix g assume g: "g \<in> set (ms_fields nm)"
    then have sg: "state_field nm (fs_name g) = Some g" by (simp add: state_field_Some [OF assms(2)])
    show "g \<in> set (merged_fields om nm)"
    proof (cases "state_field om (fs_name g)")
      case None
      with g show ?thesis by (simp add: merged_fields_def added_fields_def has_field_def)
    next
      case (Some f)
      then have "f \<in> set (ms_fields om)" "fs_name f = fs_name g"
        by (simp_all add: state_field_Some [OF assms(1)])
      with sg show ?thesis by (force simp: merged_fields_def)
    qed
  qed
qed

lemma names_kept:
  "map fs_name (concat (map (\<lambda>f. case state_field nm (fs_name f) of None \<Rightarrow> [] | Some g \<Rightarrow> [g]) fs)) =
     filter (\<lambda>k. state_field nm k \<noteq> None) (map fs_name fs)"
proof (induction fs)
  case (Cons f fs)
  have "fs_name g = fs_name f" if "state_field nm (fs_name f) = Some g" for g
    using that by (auto simp: state_field_def find_Some_iff)
  with Cons show ?case by (auto split: option.splits)
qed simp

lemma distinct_merged_fields:
  assumes "distinct (map fs_name (ms_fields om))" and "distinct (map fs_name (ms_fields nm))"
  shows "distinct (map fs_name (merged_fields om nm))"
  using distinct_added [OF assms] unfolding merged_fields_def map_append names_kept by auto

lemma after_diff_wf:
  assumes "ps_wf old" and "ps_wf new"
  shows "ps_wf (after_diff old new)"
proof -
  have dom: "n \<in> set (ps_order new) \<longleftrightarrow> ps_models new n \<noteq> None"
    "n \<in> set (ps_order old) \<longleftrightarrow> ps_models old n \<noteq> None" for n
    using ps_wf_order [OF assms(2)] ps_wf_order [OF assms(1)] by blast+
  have "distinct (ps_order (after_diff old new))"
    using assms dom by (auto simp: after_diff_def ps_wf_def)
  moreover have "set (ps_order (after_diff old new)) = dom (ps_models (after_diff old new))"
    using dom by (auto simp: after_diff_def merged_model_def dom_def split: option.splits)
  moreover have "ms_name m = n \<and> distinct (map fs_name (ms_fields m))"
    if "ps_models (after_diff old new) n = Some m" for n m
    using that ps_wf_model [OF assms(1)] ps_wf_model [OF assms(2)] ps_wf_names [OF assms(1)]
      ps_wf_names [OF assms(2)] distinct_merged_fields
    by (auto simp: after_diff_def merged_model_def split: option.splits)
  ultimately show ?thesis by (simp add: ps_wf_def)
qed

lemma field_changes_Nil:
  assumes "distinct (map fs_name (ms_fields om))" and "distinct (map fs_name (ms_fields nm))"
    and "set (ms_fields om) = set (ms_fields nm)"
  shows "field_changes n om nm = []"
proof -
  have same: "state_field om k = state_field nm k" for k
  proof (cases "state_field om k")
    case None
    then have "state_field nm k = None" by (simp add: state_field_None assms(3))
    with None show ?thesis by simp
  next
    case (Some f)
    then have "state_field nm k = Some f" by (simp add: state_field_Some assms)
    with Some show ?thesis by simp
  qed
  have "state_field om (fs_name f) = Some f" if "f \<in> set (ms_fields nm)" for f
    using that by (simp add: same state_field_Some assms)
  then show ?thesis
    by (auto simp: field_changes_def added_fields_def altered_fields_def removed_fields_def
        has_field_def assms(3) same [symmetric] filter_empty_conv split: option.splits)
qed

lemma diff_same_fields:
  assumes "ps_wf s" and "ps_wf new" and "\<And>n. ps_models s n = None \<longleftrightarrow> ps_models new n = None"
    and "\<And>n m nm. ps_models s n = Some m \<Longrightarrow> ps_models new n = Some nm \<Longrightarrow>
      set (ms_fields m) = set (ms_fields nm)"
  shows "diff s new = Some []"
proof -
  have dom: "n \<in> set (ps_order new) \<longleftrightarrow> ps_models new n \<noteq> None"
    "n \<in> set (ps_order s) \<longleftrightarrow> ps_models s n \<noteq> None" for n
    using ps_wf_order [OF assms(2)] ps_wf_order [OF assms(1)] by blast+
  have c: "create_ops s new n = Some []" if "n \<in> set (ps_order new)" for n
    using that dom assms(3) [of n] by (auto simp: create_ops_def split: option.splits)
  have h: "change_ops s new n = Some []" if "n \<in> set (ps_order new)" for n
    using that dom assms(3) [of n] ps_wf_names [OF assms(1)] ps_wf_names [OF assms(2)] assms(4)
    by (auto simp: change_ops_def field_changes_Nil split: option.splits)
  have d: "delete_ops new n = []" if "n \<in> set (ps_order s)" for n
    using that dom assms(3) [of n] by (auto simp: delete_ops_def)
  have all: "those (map f xs) = Some (map (\<lambda>_. []) xs)"
    if "\<And>x. x \<in> set xs \<Longrightarrow> f x = Some []" for f :: "string \<Rightarrow> operation list option" and xs
    using that by (induction xs) auto
  have "concat (map (\<lambda>_. []) xs) = []" for xs :: "string list" by simp
  moreover have "concat (map (delete_ops new) (ps_order s)) = []" using d by simp
  ultimately show ?thesis
    using all [OF c] all [OF h] by (simp add: diff_def)
qed

lemma diff_after_diff:
  assumes "ps_wf old" and "ps_wf new"
  shows "diff (after_diff old new) new = Some []"
  by (rule diff_same_fields [OF after_diff_wf [OF assms] assms(2)])
    (auto simp: after_diff_def merged_model_def set_merged_fields ps_wf_names [OF assms(1)]
      ps_wf_names [OF assms(2)] split: option.splits)

subsection \<open>Migrations made one after the other\<close>

text \<open>
  Histories that \<open>MakeMigrations\<close> builds: it is run again and again, each time on the snapshot of some
  well-formed registry, and its migrations are appended.
\<close>

abbreviation unwritten :: "(migration \<Rightarrow> string + string) option" where
  "unwritten \<equiv> None"

inductive generated :: "migration list \<Rightarrow> bool" where
  generated_Nil: "generated []"
| generated_snoc: "generated prior \<Longrightarrow> ps_wf current \<Longrightarrow>
    make_migrations app current prior unwritten = Inr (m, []) \<Longrightarrow>
    generated (prior @ [m])"

lemma make_migrations_unwritten:
  "make_migrations app current prior w = Inr (m, path) \<Longrightarrow> make_migrations app current prior unwritten = Inr (m, [])"
  by (auto simp: make_migrations_def Let_def split: option.splits if_splits sum.splits)

lemma make_migrations_Inr:
  assumes "make_migrations app current prior w = Inr (m, path)"
  shows "\<exists>ps ops. state_from_migrations prior = Some ps \<and> diff ps current = Some ops \<and> ops \<noteq> [] \<and>
    m = \<lparr>mig_app = app, mig_name = migration_name (length prior + 1),
         mig_dependencies = (if prior = [] then [] else [mig_name (last prior)]), mig_operations = ops\<rparr>"
proof (cases "Option.bind (state_from_migrations prior) (\<lambda>ps. diff ps current)")
  case None
  with assms show ?thesis by (simp add: make_migrations_def)
next
  case (Some ops)
  with assms have "ops \<noteq> []" and "m = \<lparr>mig_app = app, mig_name = migration_name (length prior + 1),
      mig_dependencies = (if prior = [] then [] else [mig_name (last prior)]), mig_operations = ops\<rparr>"
    by (auto simp: make_migrations_def Let_def split: if_splits option.splits sum.splits)
  moreover from Some obtain ps where "state_from_migrations prior = Some ps" "diff ps current = Some ops"
    by (auto simp: Option.bind_eq_Some_conv)
  ultimately show ?thesis by blast
qed

lemma state_from_migrations_snoc:
  "state_from_migrations (migs @ [m]) =
     Option.bind (state_from_migrations migs) (apply_ops (mig_operations m))"
  by (simp add: state_from_migrations_def apply_ops_append)

lemma generated_state: "generated prior \<Longrightarrow> \<exists>ps. state_from_migrations prior = Some ps \<and> ps_wf ps"
proof (induction rule: generated.induct)
  case generated_Nil
  then show ?case by (simp add: state_from_migrations_def)
next
  case (generated_snoc prior current app m)
  then obtain ps where ps: "state_from_migrations prior = Some ps" "ps_wf ps" by blast
  from make_migrations_Inr [OF generated_snoc.hyps(3)] ps(1) obtain ops where
    ops: "diff ps current = Some ops" "mig_operations m = ops" by auto
  from diff_applies [OF ps(2) generated_snoc.hyps(2)] ops
  have "state_from_migrations (prior @ [m]) = Some (after_diff ps current)"
    by (auto simp: state_from_migrations_snoc ps(1))
  with after_diff_wf [OF ps(2) generated_snoc.hyps(2)] show ?case by blast
qed

lemma make_migrations_state:
  assumes "generated prior" and "ps_wf current"
    and "make_migrations app current prior w = Inr (m, path)"
  shows "\<exists>ps. state_from_migrations prior = Some ps \<and> ps_wf ps \<and>
    state_from_migrations (prior @ [m]) = Some (after_diff ps current)"
proof -
  from generated_state [OF assms(1)] obtain ps where
    ps: "state_from_migrations prior = Some ps" "ps_wf ps" by blast
  from make_migrations_Inr [OF assms(3)] ps(1) obtain ops where
    ops: "diff ps current = Some ops" "mig_operations m = ops" by auto
  from diff_applies [OF ps(2) assms(2)] ops ps show ?thesis
    by (auto simp: state_from_migrations_snoc)
qed

subsection \<open>Renames: facts\<close>

lemma claim_Some:
  assumes "claim f added = Some (a, rest)"
  shows "\<exists>xs ys. added = xs @ a # ys \<and> rest = xs @ ys \<and> same_type f a \<and> (\<forall>x \<in> set xs. \<not> same_type f x)"
  using assms
proof (induction added arbitrary: rest)
  case (Cons b added)
  show ?case
  proof (cases "same_type f b")
    case True
    with Cons.prems show ?thesis by (intro exI [of _ "[]"] exI [of _ added]) auto
  next
    case False
    with Cons.prems obtain rest' where "claim f added = Some (a, rest')" "rest = b # rest'" by auto
    with Cons.IH [of rest'] obtain xs ys where "added = xs @ a # ys" "rest' = xs @ ys" "same_type f a"
      "\<forall>x \<in> set xs. \<not> same_type f x" by blast
    with False \<open>rest = b # rest'\<close> show ?thesis
      by (intro exI [of _ "b # xs"] exI [of _ ys]) auto
  qed
qed simp

lemma claim_None: "claim f added = None \<longleftrightarrow> (\<forall>a \<in> set added. \<not> same_type f a)"
  by (induction added) auto

lemma pair_renames_from: "subseq (map pr_from (pair_renames n removed added)) (map fs_name removed)"
  by (induction n removed added rule: pair_renames.induct) (auto split: option.splits)

lemma pair_renames_sound:
  "r \<in> set (pair_renames n removed added) \<Longrightarrow>
   pr_model r = n \<and> (\<exists>f \<in> set removed. \<exists>a \<in> set added.
     pr_from r = fs_name f \<and> pr_to r = fs_name a \<and> same_type f a)"
proof (induction removed arbitrary: added)
  case (Cons f removed)
  show ?case
  proof (cases "claim f added")
    case None
    with Cons show ?thesis by fastforce
  next
    case (Some p)
    obtain a rest where p: "p = (a, rest)" by (cases p)
    from claim_Some [of f added a rest] Some p
    have a: "a \<in> set added" "same_type f a" "set rest \<subseteq> set added" by auto
    from Cons.prems Some p
    have "r = \<lparr>pr_model = n, pr_from = fs_name f, pr_to = fs_name a\<rparr> \<or> r \<in> set (pair_renames n removed rest)"
      by simp
    with Cons.IH [of rest] a show ?thesis by fastforce
  qed
qed simp

lemma pair_renames_to:
  "distinct (map fs_name added) \<Longrightarrow>
   distinct (map pr_to (pair_renames n removed added)) \<and>
     pr_to ` set (pair_renames n removed added) \<subseteq> fs_name ` set added"
proof (induction removed arbitrary: added)
  case (Cons f removed)
  show ?case
  proof (cases "claim f added")
    case None
    with Cons show ?thesis by simp
  next
    case (Some p)
    obtain a rest where p: "p = (a, rest)" by (cases p)
    from claim_Some [of f added a rest] Some p obtain xs ys where
      xs: "added = xs @ a # ys" "rest = xs @ ys" by auto
    with Cons.prems have d: "distinct (map fs_name rest)" and a: "fs_name a \<notin> fs_name ` set rest" by auto
    from Cons.IH [OF d] a Some p xs show ?thesis by auto
  qed
qed simp

text \<open>A removed and an added field of the same type are not both left over.\<close>

lemma pair_renames_maximal:
  "f \<in> set removed \<Longrightarrow> a \<in> set added \<Longrightarrow> same_type f a \<Longrightarrow>
   fs_name f \<in> pr_from ` set (pair_renames n removed added) \<or>
     fs_name a \<in> pr_to ` set (pair_renames n removed added)"
proof (induction removed arbitrary: added)
  case (Cons g removed)
  show ?case
  proof (cases "claim g added")
    case None
    with Cons.prems have "f \<in> set removed" by (auto simp: claim_None)
    with Cons.IH [of added] Cons.prems None show ?thesis by simp
  next
    case (Some p)
    obtain b rest where p: "p = (b, rest)" by (cases p)
    from claim_Some [of g added b rest] Some p have rest: "set added = insert b (set rest)" by auto
    show ?thesis
    proof (cases "f = g \<or> a = b")
      case True
      with Some p show ?thesis by auto
    next
      case False
      with Cons.prems rest have "f \<in> set removed" "a \<in> set rest" by auto
      with Cons.IH [of rest] Cons.prems(3) Some p show ?thesis by auto
    qed
  qed
qed simp

subsection \<open>Properties\<close>

text \<open>C1: Replaying the operations of \<open>Diff\<close> on the old state never meets a missing model and ends in a
  well-formed state with exactly the models of the new one: a created model is the new model itself,
  a model that was there has exactly the new fields; its table, which no operation changes, is the
  old one.\<close>

theorem diff_reaches_new_state:
  assumes "ps_wf old" and "ps_wf new"
  shows "\<exists>ops s. diff old new = Some ops \<and> apply_ops ops old = Some s \<and> ps_wf s \<and>
    dom (ps_models s) = dom (ps_models new) \<and>
    (\<forall>n nm. ps_models new n = Some nm \<longrightarrow>
       (case ps_models old n of
          None \<Rightarrow> ps_models s n = Some nm
        | Some om \<Rightarrow> (\<exists>m. ps_models s n = Some m \<and> set (ms_fields m) = set (ms_fields nm) \<and>
            distinct (map fs_name (ms_fields m)) \<and> ms_table m = ms_table om)))"
proof -
  from diff_applies [OF assms] obtain ops
    where ops: "diff old new = Some ops" "apply_ops ops old = Some (after_diff old new)" by blast
  have "dom (ps_models (after_diff old new)) = dom (ps_models new)"
    by (auto simp: after_diff_def merged_model_def dom_def split: option.splits)
  moreover have "case ps_models old n of
      None \<Rightarrow> ps_models (after_diff old new) n = Some nm
    | Some om \<Rightarrow> (\<exists>m. ps_models (after_diff old new) n = Some m \<and>
        set (ms_fields m) = set (ms_fields nm) \<and>
        distinct (map fs_name (ms_fields m)) \<and> ms_table m = ms_table om)"
    if nm: "ps_models new n = Some nm" for n nm
    using ps_wf_names [OF assms(1)] ps_wf_names [OF assms(2) nm]
    by (auto simp: after_diff_def merged_model_def nm set_merged_fields distinct_merged_fields
        split: option.splits)
  ultimately show ?thesis
    using ops after_diff_wf [OF assms] by blast
qed

definition author_state :: "string \<Rightarrow> field_state list \<Rightarrow> model_state" where
  "author_state table fs = \<lparr>ms_name = ''Author'', ms_table = table, ms_fields = id_state # fs\<rparr>"

definition state_v1 :: project_state where
  "state_v1 = \<lparr>ps_models = Map.empty(''Author'' \<mapsto> author_state ''author'' [name_state\<lparr>fs_null := True\<rparr>]),
     ps_order = [''Author'']\<rparr>"

definition state_v2 :: project_state where
  "state_v2 = \<lparr>ps_models = Map.empty(''Tag'' \<mapsto> \<lparr>ms_name = ''Tag'', ms_table = ''tag'', ms_fields = [id_state]\<rparr>,
       ''Author'' \<mapsto> author_state ''author''
          [name_state\<lparr>fs_name := ''FullName'', fs_column := ''full_name'', fs_null := True\<rparr>]),
     ps_order = [''Tag'', ''Author'']\<rparr>"

lemma states_wf: "ps_wf state_v1" "ps_wf state_v2"
  by (auto simp: ps_wf_def state_v1_def state_v2_def author_state_def id_state_def name_state_def
      split: if_splits)

theorem diff_reaches_new_state_witness:
  "diff state_v1 state_v2 = Some
     [CreateModel ''Tag'' ''tag'' [id_state],
      AddField ''Author'' (name_state\<lparr>fs_name := ''FullName'', fs_column := ''full_name'', fs_null := True\<rparr>),
      RemoveField ''Author'' ''Name''] \<and>
   (\<exists>s. apply_ops (the (diff state_v1 state_v2)) state_v1 = Some s \<and> ps_wf s \<and>
      dom (ps_models s) = dom (ps_models state_v2))"
proof -
  have "diff state_v1 state_v2 = Some
     [CreateModel ''Tag'' ''tag'' [id_state],
      AddField ''Author'' (name_state\<lparr>fs_name := ''FullName'', fs_column := ''full_name'', fs_null := True\<rparr>),
      RemoveField ''Author'' ''Name'']"
    by code_simp
  moreover from diff_reaches_new_state [OF states_wf]
  have "\<exists>s. apply_ops (the (diff state_v1 state_v2)) state_v1 = Some s \<and> ps_wf s \<and>
      dom (ps_models s) = dom (ps_models state_v2)" by fastforce
  ultimately show ?thesis by blast
qed

text \<open>However often \<open>MakeMigrations\<close> has run before, running it on a well-formed state either finds
  no change or makes one migration; made again on the same state with that migration in the history it
  finds no change, whatever writes the file.\<close>

theorem make_migrations_converges:
  assumes "generated prior" and "ps_wf current"
    and "make_migrations app current prior w = Inr (m, path)"
  shows "make_migrations app' current (prior @ [m]) w' = Inl NoChanges \<and> generated (prior @ [m]) \<and>
    mig_operations m \<noteq> []"
proof -
  from make_migrations_state [OF assms] obtain ps where ps: "ps_wf ps"
    "state_from_migrations (prior @ [m]) = Some (after_diff ps current)" by blast
  from diff_after_diff [OF ps(1) assms(2)] ps(2)
  have "make_migrations app' current (prior @ [m]) w' = Inl NoChanges"
    by (simp add: make_migrations_def)
  with make_migrations_Inr [OF assms(3)] generated_snoc [OF assms(1,2) make_migrations_unwritten [OF assms(3)]] show ?thesis by auto
qed

lemma make_first: "\<not> isl (make_migrations ''blog'' state_v1 [] unwritten)"
  by code_simp

theorem make_migrations_converges_witness:
  "make_migrations ''blog'' state_v1 [fst (projr (make_migrations ''blog'' state_v1 [] unwritten))] unwritten = Inl NoChanges \<and>
   mig_name (fst (projr (make_migrations ''blog'' state_v1 [] unwritten))) = ''0001_initial''"
proof -
  have "mig_name (fst (projr (make_migrations ''blog'' state_v1 [] unwritten))) = ''0001_initial''"
    by code_simp
  with make_migrations_converges [OF generated_Nil states_wf(1) Inr_projr_split [OF make_first], where w' = unwritten]
  show ?thesis by simp
qed

text \<open>The rename warnings pair a removed with an added field of the same type, each at most once, and
  leave no two of the same type unpaired: for every model of both states.\<close>

theorem renames_are_a_maximal_pairing:
  assumes "renames_of old new n = Some rs" and "ps_models old n = Some om" and "ps_models new n = Some nm"
    and "distinct (map fs_name (ms_fields om))" and "distinct (map fs_name (ms_fields nm))"
  shows "distinct (map pr_from rs) \<and> distinct (map pr_to rs) \<and>
    (\<forall>r \<in> set rs. \<exists>f \<in> set (removed_fields om nm). \<exists>a \<in> set (added_fields om nm).
       pr_from r = fs_name f \<and> pr_to r = fs_name a \<and> same_type f a) \<and>
    (\<forall>f \<in> set (removed_fields om nm). \<forall>a \<in> set (added_fields om nm). same_type f a \<longrightarrow>
       fs_name f \<in> pr_from ` set rs \<or> fs_name a \<in> pr_to ` set rs)"
proof -
  from assms(1-3) have rs: "rs = pair_renames n (removed_fields om nm) (added_fields om nm)"
    by (simp add: renames_of_def)
  have "distinct (map fs_name (removed_fields om nm))" "distinct (map fs_name (added_fields om nm))"
    unfolding removed_fields_def added_fields_def using assms(4,5) by (simp_all add: distinct_names_filter)
  with pair_renames_from [of n "removed_fields om nm" "added_fields om nm"]
    pair_renames_to [of "added_fields om nm" n "removed_fields om nm"]
  have "distinct (map pr_from rs)" "distinct (map pr_to rs)"
    by (simp_all add: rs subseq_distinct)
  moreover have "\<forall>r \<in> set rs. \<exists>f \<in> set (removed_fields om nm). \<exists>a \<in> set (added_fields om nm).
       pr_from r = fs_name f \<and> pr_to r = fs_name a \<and> same_type f a"
    using pair_renames_sound by (auto simp: rs)
  ultimately show ?thesis using pair_renames_maximal by (auto simp: rs)
qed

theorem renames_are_a_maximal_pairing_witness:
  "detect_renames state_v1 state_v2 = Some [\<lparr>pr_model = ''Author'', pr_from = ''Name'', pr_to = ''FullName''\<rparr>] \<and>
   (\<exists>rs. renames_of state_v1 state_v2 ''Author'' = Some rs \<and> length rs = 1 \<and> distinct (map pr_from rs))"
proof -
  have d: "detect_renames state_v1 state_v2 =
      Some [\<lparr>pr_model = ''Author'', pr_from = ''Name'', pr_to = ''FullName''\<rparr>]"
    and r: "renames_of state_v1 state_v2 ''Author'' =
      Some [\<lparr>pr_model = ''Author'', pr_from = ''Name'', pr_to = ''FullName''\<rparr>]"
    by code_simp+
  obtain om nm where m: "ps_models state_v1 ''Author'' = Some om" "ps_models state_v2 ''Author'' = Some nm"
    by (simp add: state_v1_def state_v2_def)
  from renames_are_a_maximal_pairing [OF r m ps_wf_names [OF states_wf(1) m(1)]
      ps_wf_names [OF states_wf(2) m(2)]]
  show ?thesis using d r by auto
qed

text \<open>A change of a model's table name alone is not detected: with the same models and fields, \<open>Diff\<close>
  finds nothing to do and \<open>MakeMigrations\<close> reports no changes, whatever the tables of the new state.\<close>

theorem table_change_is_not_detected:
  assumes "state_from_migrations prior = Some old" and "ps_wf old"
  shows "make_migrations app (old\<lparr>ps_models := (\<lambda>n. map_option (\<lambda>m. m\<lparr>ms_table := tables n\<rparr>) (ps_models old n))\<rparr>)
    prior w = Inl NoChanges"
proof -
  let ?new = "old\<lparr>ps_models := (\<lambda>n. map_option (\<lambda>m. m\<lparr>ms_table := tables n\<rparr>) (ps_models old n))\<rparr>"
  have "ps_wf ?new" using assms(2) by (auto simp: ps_wf_def dom_def)
  then have "diff old ?new = Some []"
    by (rule diff_same_fields [OF assms(2)]) auto
  then show ?thesis by (simp add: make_migrations_def assms(1))
qed

theorem table_change_is_not_detected_witness:
  "make_migrations ''blog''
     \<lparr>ps_models = (\<lambda>n. map_option (\<lambda>m. m\<lparr>ms_table := ''people''\<rparr>) (ps_models state_v1 n)), ps_order = [''Author'']\<rparr>
     [\<lparr>mig_app = ''blog'', mig_name = ''0001_initial'', mig_dependencies = [],
       mig_operations = [CreateModel ''Author'' ''author'' [id_state, name_state\<lparr>fs_null := True\<rparr>]]\<rparr>] None =
   Inl NoChanges"
proof -
  let ?m = "\<lparr>mig_app = ''blog'', mig_name = ''0001_initial'', mig_dependencies = [],
       mig_operations = [CreateModel ''Author'' ''author'' [id_state, name_state\<lparr>fs_null := True\<rparr>]]\<rparr>"
  have "state_from_migrations [?m] = Some state_v1"
    by (simp add: state_from_migrations_def new_project_state_def state_v1_def author_state_def)
  from table_change_is_not_detected [OF this states_wf(1), of "''blog''" "\<lambda>_. ''people''" None]
  show ?thesis by (simp add: state_v1_def)
qed

end
