(* ===== verification/Orm_Transaction.thy ===== *)
theory Orm_Transaction
  imports Go_Values
begin

text \<open>
  \<open>orm/transaction.go\<close>: \<open>Atomic\<close> over a database connection, with savepoints for nested blocks. The
  connection is a parameter: a record of the operations of \<open>database/sql\<close> that the source calls, over a
  state \<open>'t\<close> of the database as the program sees it. \<open>savepoint_laws\<close> is what databases document of
  transactions and savepoints. The function that \<open>Atomic\<close> runs is a parameter too; \<open>well_behaved\<close> is
  the contract it has to keep, and \<open>Atomic\<close> keeps it, so blocks nest.
\<close>

subsection \<open>Connections\<close>

text \<open>
  \<open>sql.Result\<close>, whose two methods may fail, and the rows of a query: those read, and the error that
  \<open>rows.Err\<close> reports after them. The first argument of \<open>drv_exec\<close> and \<open>drv_query\<close> says whether the
  statement runs in the transaction of the context or on the pool.
\<close>

record exec_result =
  er_last_insert_id :: "string + int"
  er_rows_affected :: "string + int"

record query_rows =
  qr_rows :: "goval list list"
  qr_err :: "string option"

record 't driver =
  drv_begin :: "'t \<Rightarrow> string option \<times> 't"
  drv_commit :: "'t \<Rightarrow> string option \<times> 't"
  drv_rollback :: "'t \<Rightarrow> 't"
  drv_exec :: "bool \<Rightarrow> string \<Rightarrow> goval list \<Rightarrow> 't \<Rightarrow> (string + exec_result) \<times> 't"
  drv_query :: "bool \<Rightarrow> string \<Rightarrow> goval list \<Rightarrow> 't \<Rightarrow> (string + query_rows) \<times> 't"

text \<open>The values a context carries: whether a transaction is bound to it, and the savepoint depth.\<close>

record go_ctx =
  ctx_tx :: bool
  ctx_depth :: nat

definition background :: go_ctx where
  "background = \<lparr>ctx_tx = False, ctx_depth = 0\<rparr>"

definition context_with_tx :: "go_ctx \<Rightarrow> go_ctx" where
  "context_with_tx c = c\<lparr>ctx_tx := True\<rparr>"

definition conn_exec ::
  "'t driver \<Rightarrow> go_ctx \<Rightarrow> string \<Rightarrow> goval list \<Rightarrow> 't \<Rightarrow> (string + exec_result) \<times> 't" where
  "conn_exec drv c = drv_exec drv (ctx_tx c)"

definition conn_query ::
  "'t driver \<Rightarrow> go_ctx \<Rightarrow> string \<Rightarrow> goval list \<Rightarrow> 't \<Rightarrow> (string + query_rows) \<times> 't" where
  "conn_query drv c = drv_query drv (ctx_tx c)"

subsection \<open>Atomic\<close>

text \<open>How a function ends: it returns nil, an error, or panics.\<close>

datatype outcome = Returned | Failed string | Panicked string

type_synonym 't block = "go_ctx \<Rightarrow> 't \<Rightarrow> outcome \<times> 't"

definition atomic_begin :: "'t driver \<Rightarrow> 't block \<Rightarrow> go_ctx \<Rightarrow> 't \<Rightarrow> outcome \<times> 't" where
  "atomic_begin drv fn c s =
     (case drv_begin drv s of
        (Some e, s1) \<Rightarrow> (Failed (''orm: begin transaction: '' @ e), s1)
      | (None, s1) \<Rightarrow>
          (case fn (context_with_tx c) s1 of
             (Panicked p, s2) \<Rightarrow> (Panicked p, drv_rollback drv s2)
           | (Failed e, s2) \<Rightarrow> (Failed e, drv_rollback drv s2)
           | (Returned, s2) \<Rightarrow>
               (case drv_commit drv s2 of
                  (Some e, s3) \<Rightarrow> (Failed (''orm: commit transaction: '' @ e), drv_rollback drv s3)
                | (None, s3) \<Rightarrow> (Returned, s3))))"

definition savepoint_name :: "nat \<Rightarrow> string" where
  "savepoint_name depth = ''sp_'' @ utoa depth"

definition atomic_savepoint :: "'t driver \<Rightarrow> 't block \<Rightarrow> go_ctx \<Rightarrow> 't \<Rightarrow> outcome \<times> 't" where
  "atomic_savepoint drv fn c s =
     (let depth = ctx_depth c + 1;
          name = savepoint_name depth;
          rollback_to = (\<lambda>s. snd (drv_exec drv True (''ROLLBACK TO SAVEPOINT '' @ name) [] s))
      in case drv_exec drv True (''SAVEPOINT '' @ name) [] s of
           (Inl e, s1) \<Rightarrow> (Failed (''orm: savepoint '' @ name @ '': '' @ e), s1)
         | (Inr r, s1) \<Rightarrow>
             (case fn (c\<lparr>ctx_depth := depth\<rparr>) s1 of
                (Panicked p, s2) \<Rightarrow> (Panicked p, rollback_to s2)
              | (Failed e, s2) \<Rightarrow> (Failed e, rollback_to s2)
              | (Returned, s2) \<Rightarrow>
                  (case drv_exec drv True (''RELEASE SAVEPOINT '' @ name) [] s2 of
                     (Inl e, s3) \<Rightarrow>
                       (Failed (''orm: release savepoint '' @ name @ '': '' @ e), rollback_to s3)
                   | (Inr r, s3) \<Rightarrow> (Returned, s3))))"

definition atomic :: "'t driver \<Rightarrow> 't block \<Rightarrow> go_ctx \<Rightarrow> 't \<Rightarrow> outcome \<times> 't" where
  "atomic drv fn c s =
     (if ctx_tx c then atomic_savepoint drv fn c s else atomic_begin drv fn c s)"

subsection \<open>What databases promise\<close>

text \<open>
  A view of the state: what is committed, what the open transaction sees, and its savepoints with the
  contents they were set at, the latest first.
\<close>

record ('t, 'c) tx_view =
  tv_committed :: "'t \<Rightarrow> 'c"
  tv_now :: "'t \<Rightarrow> 'c"
  tv_saves :: "'t \<Rightarrow> (string \<times> 'c) list"

definition transaction_laws :: "'t driver \<Rightarrow> ('t, 'c) tx_view \<Rightarrow> bool" where
  "transaction_laws drv v \<longleftrightarrow>
     (\<forall>s e s'. drv_begin drv s = (e, s') \<longrightarrow> tv_committed v s' = tv_committed v s \<and>
        (e = None \<longrightarrow> tv_now v s' = tv_committed v s \<and> tv_saves v s' = [])) \<and>
     (\<forall>s e s'. drv_commit drv s = (e, s') \<longrightarrow>
        tv_committed v s' = (if e = None then tv_now v s else tv_committed v s)) \<and>
     (\<forall>s. tv_committed v (drv_rollback drv s) = tv_committed v s)"

definition savepoint_laws :: "'t driver \<Rightarrow> ('t, 'c) tx_view \<Rightarrow> bool" where
  "savepoint_laws drv v \<longleftrightarrow>
     (\<forall>n s r s'. drv_exec drv True (''SAVEPOINT '' @ n) [] s = (r, s') \<longrightarrow>
        tv_committed v s' = tv_committed v s \<and> tv_now v s' = tv_now v s \<and>
        tv_saves v s' = (if isl r then tv_saves v s else (n, tv_now v s) # tv_saves v s)) \<and>
     (\<forall>n s r s'. drv_exec drv True (''RELEASE SAVEPOINT '' @ n) [] s = (r, s') \<longrightarrow>
        tv_committed v s' = tv_committed v s \<and> tv_now v s' = tv_now v s \<and>
        tv_saves v s' = (if isl r then tv_saves v s else tl (dropWhile (\<lambda>p. fst p \<noteq> n) (tv_saves v s)))) \<and>
     (\<forall>n c later earlier s r s'. drv_exec drv True (''ROLLBACK TO SAVEPOINT '' @ n) [] s = (r, s') \<longrightarrow>
        tv_committed v s' = tv_committed v s \<and>
        (tv_saves v s = later @ (n, c) # earlier \<and> n \<notin> fst ` set later \<longrightarrow>
           tv_now v s' = c \<and> tv_saves v s' = (n, c) # earlier))"

text \<open>
  The contract of a block at a depth: it commits nothing itself, and leaves the savepoints that were
  set before it, with at most deeper ones above them.
\<close>

definition deeper :: "nat \<Rightarrow> (string \<times> 'c) list \<Rightarrow> bool" where
  "deeper d later \<longleftrightarrow> (\<forall>p \<in> set later. \<exists>k > d. fst p = savepoint_name k)"

definition well_behaved :: "('t, 'c) tx_view \<Rightarrow> 't block \<Rightarrow> bool" where
  "well_behaved v fn \<longleftrightarrow>
     (\<forall>c s r s'. ctx_tx c \<longrightarrow> fn c s = (r, s') \<longrightarrow>
        tv_committed v s' = tv_committed v s \<and>
        (\<exists>later. tv_saves v s' = later @ tv_saves v s \<and> deeper (ctx_depth c) later))"

lemma utoa_inject [simp]: "utoa m = utoa n \<longleftrightarrow> m = n"
  by (metis digits_val_utoa)

lemma savepoint_name_inject [simp]: "savepoint_name m = savepoint_name n \<longleftrightarrow> m = n"
  by (simp add: savepoint_name_def)

lemma deeper_not_in: "deeper d later \<Longrightarrow> savepoint_name d \<notin> fst ` set later"
  by (auto simp: deeper_def)

lemma deeper_Suc: "deeper (Suc d) later \<Longrightarrow> deeper d later"
  unfolding deeper_def by (meson Suc_lessD)

lemma deeper_simps: "deeper d []" "deeper d (p # later) \<longleftrightarrow> (\<exists>k > d. fst p = savepoint_name k) \<and> deeper d later"
  by (auto simp: deeper_def)

subsection \<open>Nested blocks\<close>

text \<open>
  One savepoint block: what it commits, sees and leaves on the savepoints, by how the function ended.
\<close>

lemma atomic_savepoint_run:
  assumes laws: "savepoint_laws drv v" and fn: "well_behaved v fn"
    and c: "ctx_tx c" and run: "atomic_savepoint drv fn c s = (r, s')"
  shows "tv_committed v s' = tv_committed v s \<and>
    (\<exists>later. tv_saves v s' = later @ tv_saves v s \<and> deeper (ctx_depth c) later) \<and>
    (if r = Returned then \<exists>s1 s2. tv_now v s1 = tv_now v s \<and>
        fn (c\<lparr>ctx_depth := ctx_depth c + 1\<rparr>) s1 = (Returned, s2) \<and> tv_now v s' = tv_now v s2
     else tv_now v s' = tv_now v s)"
proof -
  define d where "d = ctx_depth c + 1"
  define name where "name = savepoint_name d"
  define undo where "undo = (\<lambda>s. snd (drv_exec drv True (''ROLLBACK TO SAVEPOINT '' @ name) [] s))"
  obtain r1 s1 where sp: "drv_exec drv True (''SAVEPOINT '' @ name) [] s = (r1, s1)" by fastforce
  obtain o2 s2 where f: "fn (c\<lparr>ctx_depth := d\<rparr>) s1 = (o2, s2)" by fastforce
  obtain r3 s3 where rel: "drv_exec drv True (''RELEASE SAVEPOINT '' @ name) [] s2 = (r3, s3)" by fastforce
  have s1: "tv_committed v s1 = tv_committed v s" "tv_now v s1 = tv_now v s"
    "tv_saves v s1 = (if isl r1 then tv_saves v s else (name, tv_now v s) # tv_saves v s)"
    using laws sp unfolding savepoint_laws_def by blast+
  have "ctx_tx (c\<lparr>ctx_depth := d\<rparr>)" "ctx_depth (c\<lparr>ctx_depth := d\<rparr>) = d" using c by simp_all
  with fn f obtain later where s2: "tv_committed v s2 = tv_committed v s1"
    "tv_saves v s2 = later @ tv_saves v s1" "deeper d later"
    unfolding well_behaved_def by metis
  have s3: "tv_committed v s3 = tv_committed v s2" "tv_now v s3 = tv_now v s2"
    "tv_saves v s3 = (if isl r3 then tv_saves v s2 else tl (dropWhile (\<lambda>p. fst p \<noteq> name) (tv_saves v s2)))"
    using laws rel unfolding savepoint_laws_def by blast+
  have later: "name \<notin> fst ` set later" using s2(3) deeper_not_in by (simp add: name_def)
  have dw: "dropWhile (\<lambda>p. fst p \<noteq> name) (later @ (name, x) # rest) = (name, x) # rest" for x rest
    using later by (subst dropWhile_append2) auto
  have above: "deeper (ctx_depth c) [(name, x)]" for x
    by (auto simp: deeper_def name_def d_def)
  have undo: "tv_committed v (undo t) = tv_committed v t \<and> tv_now v (undo t) = tv_now v s \<and>
      tv_saves v (undo t) = (name, tv_now v s) # tv_saves v s"
    if "\<not> isl r1" and "tv_saves v t = later @ tv_saves v s1" for t
  proof -
    obtain q t' where "drv_exec drv True (''ROLLBACK TO SAVEPOINT '' @ name) [] t = (q, t')" by fastforce
    moreover from this laws that later s1(3)
    have "tv_committed v t' = tv_committed v t \<and> tv_now v t' = tv_now v s \<and>
        tv_saves v t' = (name, tv_now v s) # tv_saves v s"
      unfolding savepoint_laws_def by auto
    ultimately show ?thesis by (simp add: undo_def)
  qed
  show ?thesis
  proof (cases "isl r1")
    case True
    then have "r \<noteq> Returned" "s' = s1"
      using run sp by (auto simp: atomic_savepoint_def Let_def d_def name_def split: sum.splits)
    with s1 True show ?thesis by (auto simp: deeper_simps)
  next
    case ok: False
    show ?thesis
    proof (cases "o2 = Returned \<and> \<not> isl r3")
      case True
      then have r: "r = Returned" "s' = s3"
        using run sp f rel ok by (auto simp: atomic_savepoint_def Let_def d_def name_def split: sum.splits)
      have "tv_saves v s' = tv_saves v s" using s3(3) s2(2) s1(3) True ok dw r by simp
      with r s1 s2 s3 f True show ?thesis by (auto simp: d_def deeper_simps)
    next
      case False
      have "r \<noteq> Returned \<and> (s' = undo s2 \<or> s' = undo s3 \<and> isl r3)"
        using run sp f rel ok False unfolding undo_def
        by (auto simp: atomic_savepoint_def Let_def d_def name_def split: sum.splits outcome.splits)
      then have "r \<noteq> Returned" and "tv_committed v s' = tv_committed v s \<and> tv_now v s' = tv_now v s \<and>
          tv_saves v s' = [(name, tv_now v s)] @ tv_saves v s"
        using undo [OF ok, of s2] undo [OF ok, of s3] s1 s2 s3 by auto
      with above show ?thesis by auto
    qed
  qed
qed

lemma atomic_well_behaved:
  assumes "savepoint_laws drv v" and "well_behaved v fn"
  shows "well_behaved v (atomic drv fn)"
  unfolding well_behaved_def
  using atomic_savepoint_run [OF assms] by (fastforce simp: atomic_def)

subsection \<open>Properties\<close>

text \<open>A connection that keeps the laws: the committed content, the content of the open transaction and
  its savepoints, over statements that are the three of this file or append to the content.\<close>

record list_db =
  ld_committed :: "string list"
  ld_now :: "string list"
  ld_saves :: "(string \<times> string list) list"

definition list_exec :: "bool \<Rightarrow> string \<Rightarrow> goval list \<Rightarrow> list_db \<Rightarrow> (string + exec_result) \<times> list_db" where
  "list_exec in_tx sql args s =
     (let ok = Inr \<lparr>er_last_insert_id = Inr 0, er_rows_affected = Inr 0\<rparr>
      in if HasPrefix sql ''SAVEPOINT '' then
           (ok, s\<lparr>ld_saves := (drop 10 sql, ld_now s) # ld_saves s\<rparr>)
         else if HasPrefix sql ''RELEASE SAVEPOINT '' then
           (ok, s\<lparr>ld_saves := tl (dropWhile (\<lambda>p. fst p \<noteq> drop 18 sql) (ld_saves s))\<rparr>)
         else if HasPrefix sql ''ROLLBACK TO SAVEPOINT '' then
           (case dropWhile (\<lambda>p. fst p \<noteq> drop 22 sql) (ld_saves s) of
              [] \<Rightarrow> (Inl ''no such savepoint'', s)
            | p # ps \<Rightarrow> (ok, s\<lparr>ld_now := snd p, ld_saves := p # ps\<rparr>))
         else if in_tx then (ok, s\<lparr>ld_now := ld_now s @ [sql]\<rparr>)
         else (ok, s\<lparr>ld_committed := ld_committed s @ [sql]\<rparr>))"

definition list_driver :: "list_db driver" where
  "list_driver = \<lparr>drv_begin = (\<lambda>s. (None, s\<lparr>ld_now := ld_committed s, ld_saves := []\<rparr>)),
     drv_commit = (\<lambda>s. (None, s\<lparr>ld_committed := ld_now s\<rparr>)),
     drv_rollback = (\<lambda>s. s\<lparr>ld_now := ld_committed s\<rparr>),
     drv_exec = list_exec, drv_query = (\<lambda>in_tx sql args s. (Inl ''no queries'', s))\<rparr>"

definition list_view :: "(list_db, string list) tx_view" where
  "list_view = \<lparr>tv_committed = ld_committed, tv_now = ld_now, tv_saves = ld_saves\<rparr>"

lemma list_driver_laws: "transaction_laws list_driver list_view" "savepoint_laws list_driver list_view"
proof -
  show "transaction_laws list_driver list_view"
    by (auto simp: transaction_laws_def list_driver_def list_view_def)
  have dw: "dropWhile (\<lambda>p. fst p \<noteq> n) (later @ (n, c) # earlier) = (n, c) # earlier"
    if "n \<notin> fst ` set later" for n later and c :: "string list" and earlier
    using that by (subst dropWhile_append2) auto
  have drops: "drop 10 (''SAVEPOINT '' @ n) = n" "drop 18 (''RELEASE SAVEPOINT '' @ n) = n"
    "drop 22 (''ROLLBACK TO SAVEPOINT '' @ n) = n" for n
    by (simp_all add: eval_nat_numeral)
  have prefixes: "HasPrefix (''SAVEPOINT '' @ n) ''SAVEPOINT ''"
    "\<not> HasPrefix (''RELEASE SAVEPOINT '' @ n) ''SAVEPOINT ''"
    "HasPrefix (''RELEASE SAVEPOINT '' @ n) ''RELEASE SAVEPOINT ''"
    "\<not> HasPrefix (''ROLLBACK TO SAVEPOINT '' @ n) ''SAVEPOINT ''"
    "\<not> HasPrefix (''ROLLBACK TO SAVEPOINT '' @ n) ''RELEASE SAVEPOINT ''"
    "HasPrefix (''ROLLBACK TO SAVEPOINT '' @ n) ''ROLLBACK TO SAVEPOINT ''" for n
    by (simp_all add: HasPrefix_def)
  have "list_exec True (''SAVEPOINT '' @ n) [] s =
      (Inr \<lparr>er_last_insert_id = Inr 0, er_rows_affected = Inr 0\<rparr>, s\<lparr>ld_saves := (n, ld_now s) # ld_saves s\<rparr>)"
    "list_exec True (''RELEASE SAVEPOINT '' @ n) [] s =
      (Inr \<lparr>er_last_insert_id = Inr 0, er_rows_affected = Inr 0\<rparr>,
       s\<lparr>ld_saves := tl (dropWhile (\<lambda>p. fst p \<noteq> n) (ld_saves s))\<rparr>)"
    "list_exec True (''ROLLBACK TO SAVEPOINT '' @ n) [] s =
      (case dropWhile (\<lambda>p. fst p \<noteq> n) (ld_saves s) of
         [] \<Rightarrow> (Inl ''no such savepoint'', s)
       | p # ps \<Rightarrow> (Inr \<lparr>er_last_insert_id = Inr 0, er_rows_affected = Inr 0\<rparr>,
                    s\<lparr>ld_now := snd p, ld_saves := p # ps\<rparr>))" for n s
    unfolding list_exec_def Let_def by (simp_all only: prefixes drops simp_thms if_True if_False)
  then show "savepoint_laws list_driver list_view"
    unfolding savepoint_laws_def list_driver_def list_view_def
    by (auto simp: dw split: list.splits)
qed

text \<open>C12: The outermost \<open>Atomic\<close> around a function that commits nothing itself: when it returns nil,
  what the function wrote, and nothing else, is committed; when it returns an error or panics, because
  the function did or because BEGIN or COMMIT failed, what was committed before is unchanged.\<close>

theorem atomic_all_or_nothing:
  assumes "transaction_laws drv v" and "well_behaved v fn" and "\<not> ctx_tx c"
    and "atomic drv fn c s = (r, s')"
  shows "(r = Returned \<and> (\<exists>s1 s2. tv_now v s1 = tv_committed v s \<and>
        fn (context_with_tx c) s1 = (Returned, s2) \<and> tv_committed v s' = tv_now v s2)) \<or>
    (r \<noteq> Returned \<and> tv_committed v s' = tv_committed v s)"
proof -
  obtain e1 s1 where b: "drv_begin drv s = (e1, s1)" by fastforce
  obtain o2 s2 where f: "fn (context_with_tx c) s1 = (o2, s2)" by fastforce
  obtain e3 s3 where co: "drv_commit drv s2 = (e3, s3)" by fastforce
  have laws: "tv_committed v s1 = tv_committed v s" "e1 = None \<Longrightarrow> tv_now v s1 = tv_committed v s"
    "tv_committed v s3 = (if e3 = None then tv_now v s2 else tv_committed v s2)"
    "\<And>t. tv_committed v (drv_rollback drv t) = tv_committed v t"
    using assms(1) b co unfolding transaction_laws_def by blast+
  have "ctx_tx (context_with_tx c)" by (simp add: context_with_tx_def)
  with assms(2) f have "tv_committed v s2 = tv_committed v s1"
    unfolding well_behaved_def by blast
  then show ?thesis
    using assms(3,4) b f co laws
    by (auto simp: atomic_def atomic_begin_def split: option.splits outcome.splits)
qed


text \<open>A block of the witnesses: it writes a row, and then fails in a nested block that writes another.\<close>

definition write_row :: "string \<Rightarrow> outcome \<Rightarrow> list_db block" where
  "write_row row r c s = (r, snd (drv_exec list_driver (ctx_tx c) (CHR ''+'' # row) [] s))"

definition write_nested :: "list_db block" where
  "write_nested c s =
     (let (r1, s1) = write_row ''kept'' Returned c s;
          (r2, s2) = atomic list_driver (write_row ''lost'' (Failed ''no'')) c s1
      in (Returned, s2))"

lemma write_row_exec:
  "ctx_tx c \<Longrightarrow> write_row row r c s = (r, s\<lparr>ld_now := ld_now s @ [CHR ''+'' # row]\<rparr>)"
  by (simp add: write_row_def list_driver_def list_exec_def HasPrefix_def)

lemma write_row_well_behaved: "well_behaved list_view (write_row row r)"
  by (simp add: well_behaved_def write_row_exec list_view_def deeper_simps)

lemma write_nested_well_behaved: "well_behaved list_view write_nested"
  unfolding well_behaved_def
proof (intro allI impI)
  fix c s r s'
  assume c: "ctx_tx c" and run: "write_nested c s = (r, s')"
  obtain r2 s2 where n: "atomic list_driver (write_row ''lost'' (Failed ''no'')) c
      (s\<lparr>ld_now := ld_now s @ [''+kept'']\<rparr>) = (r2, s2)" by fastforce
  from run n c have "s' = s2" by (simp add: write_nested_def write_row_exec)
  with atomic_well_behaved [OF list_driver_laws(2) write_row_well_behaved] n c
  show "tv_committed list_view s' = tv_committed list_view s \<and>
    (\<exists>later. tv_saves list_view s' = later @ tv_saves list_view s \<and> deeper (ctx_depth c) later)"
    unfolding well_behaved_def by (fastforce simp: list_view_def)
qed

definition empty_db :: list_db where
  "empty_db = \<lparr>ld_committed = [''old''], ld_now = [], ld_saves = []\<rparr>"

theorem atomic_all_or_nothing_witness:
  "ld_committed (snd (atomic list_driver write_nested background empty_db)) = [''old'', ''+kept''] \<and>
   ld_committed (snd (atomic list_driver (write_row ''x'' (Panicked ''p'')) background empty_db)) = [''old'']"
proof -
  have bg: "\<not> ctx_tx background" by (simp add: background_def)
  have "ld_committed (snd (atomic list_driver write_nested background empty_db)) = [''old'', ''+kept'']"
    by code_simp
  moreover obtain s' where run: "atomic list_driver (write_row ''x'' (Panicked ''p'')) background empty_db =
      (Panicked ''p'', s')"
    by (simp add: atomic_def background_def atomic_begin_def list_driver_def write_row_def split: prod.splits)
  moreover from atomic_all_or_nothing [OF list_driver_laws(1) write_row_well_behaved bg run]
  have "ld_committed s' = [''old'']" by (simp add: list_view_def empty_db_def)
  ultimately show ?thesis by simp
qed


end
