(* ===== verification/Mig_Runner.thy ===== *)
theory Mig_Runner
  imports Mig_Autodetect Orm_Transaction
begin

text \<open>
  \<open>migrations/runner.go\<close> and \<open>migrations/recorder.go\<close>: running the pending migrations, each in its own
  transaction, and recording them in the tracking table. The connection is the parameter of
  \<open>Orm_Transaction\<close>; what databases do with the tracking table is \<open>tracking_laws\<close>.
\<close>

subsection \<open>The tracking table\<close>

definition tracking_table :: string where
  "tracking_table = ''djangogo_migrations''"

definition bare_field :: "kind \<Rightarrow> bool \<Rightarrow> int \<Rightarrow> field" where
  "bare_field k pk n =
     \<lparr>f_name = [], f_column = [], f_kind = k, f_primary_key = pk, f_null = False, f_unique = False,
      f_max_length = n, f_index = 0, f_rel = None, f_has_default = False, f_default = VNil,
      f_auto_now_add = False, f_auto_now = False, f_choices = []\<rparr>"

definition tracking_table_sql :: "dialect \<Rightarrow> string" where
  "tracking_table_sql d =
     ''CREATE TABLE IF NOT EXISTS '' @ d_quote d tracking_table @ '' ('' @
     Join [d_quote d ''id'' @ '' '' @ d_column_type d (bare_field KindAuto True 0),
           d_quote d ''app'' @ '' '' @ d_column_type d (bare_field KindChar False 255),
           d_quote d ''name'' @ '' '' @ d_column_type d (bare_field KindChar False 255),
           d_quote d ''applied_at'' @ '' '' @ d_column_type d (bare_field KindDateTime False 0)]
       '', '' @ '')''"

datatype run_error =
    DriverError string
  | ScanError
  | BadOperation string string operation sql_error
  | ExecError string string string string
  | NilState

definition ensure_table :: "'t driver \<Rightarrow> dialect \<Rightarrow> 't \<Rightarrow> (run_error + unit) \<times> 't" where
  "ensure_table drv d s =
     (case drv_exec drv False (tracking_table_sql d) [] s of
        (Inl e, s1) \<Rightarrow> (Inl (DriverError e), s1)
      | (Inr r, s1) \<Rightarrow> (Inr (), s1))"

definition applied_sql :: "dialect \<Rightarrow> string" where
  "applied_sql d = ''SELECT '' @ d_quote d ''app'' @ '', '' @ d_quote d ''name'' @ '' FROM '' @
     d_quote d tracking_table"

definition mig_key :: "string \<Rightarrow> string \<Rightarrow> string" where
  "mig_key app name = app @ ''/'' @ name"

text \<open>Scanning a row into two strings; what \<open>Scan\<close> makes of other driver values is left out.\<close>

definition scan_key :: "goval list \<Rightarrow> run_error + string" where
  "scan_key row =
     (case row of
        [VString app, VString name] \<Rightarrow> Inr (mig_key app name)
      | _ \<Rightarrow> Inl ScanError)"

definition applied_set :: "'t driver \<Rightarrow> dialect \<Rightarrow> 't \<Rightarrow> (run_error + string set) \<times> 't" where
  "applied_set drv d s =
     (case drv_query drv False (applied_sql d) [] s of
        (Inl e, s1) \<Rightarrow> (Inl (DriverError e), s1)
      | (Inr q, s1) \<Rightarrow>
          (case collect_err scan_key (qr_rows q) of
             Inl e \<Rightarrow> (Inl e, s1)
           | Inr keys \<Rightarrow>
               (case qr_err q of
                  Some e \<Rightarrow> (Inl (DriverError e), s1)
                | None \<Rightarrow> (Inr (set keys), s1))))"

definition record_sql :: "dialect \<Rightarrow> string" where
  "record_sql d =
     ''INSERT INTO '' @ d_quote d tracking_table @ '' ('' @ d_quote d ''app'' @ '', '' @
     d_quote d ''name'' @ '', '' @ d_quote d ''applied_at'' @ '') VALUES ('' @ d_placeholder d 1 @
     '', '' @ d_placeholder d 2 @ '', '' @ d_placeholder d 3 @ '')''"

definition record_applied ::
  "'t driver \<Rightarrow> dialect \<Rightarrow> gotime \<Rightarrow> string \<Rightarrow> string \<Rightarrow> 't \<Rightarrow> (run_error + unit) \<times> 't"
where
  "record_applied drv d now app name s =
     (case drv_exec drv True (record_sql d) [VString app, VString name, VTime now] s of
        (Inl e, s1) \<Rightarrow> (Inl (DriverError e), s1)
      | (Inr r, s1) \<Rightarrow> (Inr (), s1))"

subsection \<open>Running\<close>

fun exec_all ::
  "'t driver \<Rightarrow> migration \<Rightarrow> string list \<Rightarrow> 't \<Rightarrow> (run_error + unit) \<times> 't"
where
  "exec_all drv mig [] s = (Inr (), s)"
| "exec_all drv mig (stmt # stmts) s =
     (case drv_exec drv True stmt [] s of
        (Inl e, s1) \<Rightarrow> (Inl (ExecError (mig_app mig) (mig_name mig) stmt e), s1)
      | (Inr r, s1) \<Rightarrow> exec_all drv mig stmts s1)"

fun run_ops ::
  "'t driver \<Rightarrow> dialect \<Rightarrow> migration \<Rightarrow> operation list \<Rightarrow> project_state \<Rightarrow> 't \<Rightarrow>
     (run_error + project_state) \<times> 't"
where
  "run_ops drv d mig [] ps s = (Inr ps, s)"
| "run_ops drv d mig (op # ops) ps s =
     (case op_sql d ps op of
        Inl e \<Rightarrow> (Inl (BadOperation (mig_app mig) (mig_name mig) op e), s)
      | Inr stmts \<Rightarrow>
          (case exec_all drv mig stmts s of
             (Inl e, s1) \<Rightarrow> (Inl e, s1)
           | (Inr u, s1) \<Rightarrow>
               (case op_apply op ps of
                  None \<Rightarrow> (Inl NilState, s1)
                | Some ps1 \<Rightarrow> run_ops drv d mig ops ps1 s1)))"

definition run_migration ::
  "'t driver \<Rightarrow> dialect \<Rightarrow> gotime \<Rightarrow> migration \<Rightarrow> project_state \<Rightarrow> 't \<Rightarrow>
     (run_error + project_state) \<times> 't"
where
  "run_migration drv d now mig ps s =
     (case drv_begin drv s of
        (Some e, s1) \<Rightarrow> (Inl (DriverError e), s1)
      | (None, s1) \<Rightarrow>
          (case run_ops drv d mig (mig_operations mig) ps s1 of
             (Inl e, s2) \<Rightarrow> (Inl e, drv_rollback drv s2)
           | (Inr ps2, s2) \<Rightarrow>
               (case record_applied drv d now (mig_app mig) (mig_name mig) s2 of
                  (Inl e, s3) \<Rightarrow> (Inl e, drv_rollback drv s3)
                | (Inr u, s3) \<Rightarrow>
                    (case drv_commit drv s3 of
                       (Some e, s4) \<Rightarrow> (Inl (DriverError e), s4)
                     | (None, s4) \<Rightarrow> (Inr ps2, s4)))))"

text \<open>The loop of \<open>Apply\<close>; it returns the keys it has applied also when it stops with an error.\<close>

fun run_all ::
  "'t driver \<Rightarrow> dialect \<Rightarrow> gotime \<Rightarrow> string set \<Rightarrow> migration list \<Rightarrow> project_state \<Rightarrow> string list \<Rightarrow>
     't \<Rightarrow> (run_error option \<times> string list) \<times> 't"
where
  "run_all drv d now applied [] ps done_keys s = ((None, done_keys), s)"
| "run_all drv d now applied (mig # migs) ps done_keys s =
     (if mig_key (mig_app mig) (mig_name mig) \<in> applied then
        (case apply_ops (mig_operations mig) ps of
           None \<Rightarrow> ((Some NilState, done_keys), s)
         | Some ps1 \<Rightarrow> run_all drv d now applied migs ps1 done_keys s)
      else
        (case run_migration drv d now mig ps s of
           (Inl e, s1) \<Rightarrow> ((Some e, done_keys), s1)
         | (Inr ps1, s1) \<Rightarrow>
             run_all drv d now applied migs ps1
               (done_keys @ [mig_key (mig_app mig) (mig_name mig)]) s1))"

definition apply_migrations ::
  "'t driver \<Rightarrow> dialect \<Rightarrow> gotime \<Rightarrow> migration list \<Rightarrow> 't \<Rightarrow> (run_error option \<times> string list) \<times> 't"
where
  "apply_migrations drv d now migs s =
     (case ensure_table drv d s of
        (Inl e, s1) \<Rightarrow> ((Some e, []), s1)
      | (Inr u, s1) \<Rightarrow>
          (case applied_set drv d s1 of
             (Inl e, s2) \<Rightarrow> ((Some e, []), s2)
           | (Inr applied, s2) \<Rightarrow> run_all drv d now applied migs new_project_state [] s2))"

subsection \<open>What databases promise of the tracking table\<close>

text \<open>Statements of a transaction are not seen outside before COMMIT.\<close>

definition isolation_law :: "'t driver \<Rightarrow> ('t, 'c) tx_view \<Rightarrow> bool" where
  "isolation_law drv v \<longleftrightarrow>
     (\<forall>sql args s r s'. drv_exec drv True sql args s = (r, s') \<longrightarrow> tv_committed v s' = tv_committed v s)"

text \<open>
  \<open>keys\<close> reads the recorded migrations off a content, \<open>ddl\<close> are statements that leave the tracking
  table alone. Creating the table if it is missing keeps the records, the SELECT returns them, the
  INSERT adds one.
\<close>

definition tracking_laws ::
  "'t driver \<Rightarrow> ('t, 'c) tx_view \<Rightarrow> dialect \<Rightarrow> ('c \<Rightarrow> string set) \<Rightarrow> (string \<Rightarrow> bool) \<Rightarrow> bool"
where
  "tracking_laws drv v d keys ddl \<longleftrightarrow>
     (\<forall>s r s'. drv_exec drv False (tracking_table_sql d) [] s = (r, s') \<longrightarrow>
        keys (tv_committed v s') = keys (tv_committed v s)) \<and>
     (\<forall>s r s'. drv_query drv False (applied_sql d) [] s = (r, s') \<longrightarrow>
        tv_committed v s' = tv_committed v s \<and>
        (\<forall>q ks. r = Inr q \<and> qr_err q = None \<and> collect_err scan_key (qr_rows q) = Inr ks \<longrightarrow>
           set ks = keys (tv_committed v s))) \<and>
     (\<forall>app name t s r s'. drv_exec drv True (record_sql d) [VString app, VString name, VTime t] s = (Inr r, s') \<longrightarrow>
        keys (tv_now v s') = insert (mig_key app name) (keys (tv_now v s))) \<and>
     (\<forall>sql s r s'. ddl sql \<and> drv_exec drv True sql [] s = (Inr r, s') \<longrightarrow>
        keys (tv_now v s') = keys (tv_now v s))"

definition ddl_migration :: "dialect \<Rightarrow> (string \<Rightarrow> bool) \<Rightarrow> migration \<Rightarrow> bool" where
  "ddl_migration d ddl mig \<longleftrightarrow>
     (\<forall>op \<in> set (mig_operations mig). \<forall>ps stmts. op_sql d ps op = Inr stmts \<longrightarrow> list_all ddl stmts)"

subsection \<open>One migration\<close>

lemma exec_all_committed:
  assumes "isolation_law drv v"
  shows "exec_all drv mig stmts s = (r, s') \<Longrightarrow> tv_committed v s' = tv_committed v s"
proof (induction stmts arbitrary: s)
  case (Cons stmt stmts)
  obtain r1 s1 where x: "drv_exec drv True stmt [] s = (r1, s1)" by fastforce
  with assms have "tv_committed v s1 = tv_committed v s" unfolding isolation_law_def by blast
  with Cons x show ?case by (auto split: sum.splits)
qed simp

lemma run_ops_committed:
  assumes "isolation_law drv v"
  shows "run_ops drv d mig ops ps s = (r, s') \<Longrightarrow> tv_committed v s' = tv_committed v s"
proof (induction ops arbitrary: ps s)
  case (Cons op ops)
  show ?case
  proof (cases "op_sql d ps op")
    case (Inl e)
    with Cons.prems show ?thesis by simp
  next
    case (Inr stmts)
    obtain r1 s1 where x: "exec_all drv mig stmts s = (r1, s1)" by fastforce
    note c = exec_all_committed [OF assms x]
    show ?thesis
    proof (cases "isl r1 \<or> op_apply op ps = None")
      case True
      with Cons.prems Inr x c show ?thesis by (auto split: sum.splits)
    next
      case False
      then obtain ps1 where "op_apply op ps = Some ps1" by auto
      with Cons.prems Inr x False have "run_ops drv d mig ops ps1 s1 = (r, s')"
        by (auto split: sum.splits)
      with Cons.IH c show ?thesis by metis
    qed
  qed
qed simp

lemma run_ops_state: "run_ops drv d mig ops ps s = (Inr ps', s') \<Longrightarrow> apply_ops ops ps = Some ps'"
proof (induction ops arbitrary: ps s)
  case (Cons op ops)
  then show ?case by (auto split: sum.splits prod.splits option.splits)
qed simp

lemma exec_all_keys:
  assumes "tracking_laws drv v d keys ddl"
  shows "exec_all drv mig stmts s = (Inr u, s') \<Longrightarrow> list_all ddl stmts \<Longrightarrow>
    keys (tv_now v s') = keys (tv_now v s)"
proof (induction stmts arbitrary: s)
  case (Cons stmt stmts)
  then obtain r1 s1 where x: "drv_exec drv True stmt [] s = (Inr r1, s1)" "exec_all drv mig stmts s1 = (Inr u, s')"
    by (auto split: sum.splits prod.splits)
  from Cons.prems(2) have "ddl stmt" by simp
  with assms x(1) have "keys (tv_now v s1) = keys (tv_now v s)"
    unfolding tracking_laws_def by blast
  with Cons x show ?case by simp
qed simp

lemma run_ops_keys:
  assumes "tracking_laws drv v d keys ddl"
  shows "run_ops drv d mig ops ps s = (Inr ps', s') \<Longrightarrow>
    (\<forall>op \<in> set ops. \<forall>ps stmts. op_sql d ps op = Inr stmts \<longrightarrow> list_all ddl stmts) \<Longrightarrow>
    keys (tv_now v s') = keys (tv_now v s)"
proof (induction ops arbitrary: ps s)
  case (Cons op ops)
  from Cons.prems(1) obtain stmts u s1 ps1 where
    x: "op_sql d ps op = Inr stmts" "exec_all drv mig stmts s = (Inr u, s1)"
    "run_ops drv d mig ops ps1 s1 = (Inr ps', s')"
    by (auto split: sum.splits prod.splits option.splits)
  with exec_all_keys [OF assms x(2)] Cons.prems(2) Cons.IH [OF x(3)] show ?case by simp
qed simp

text \<open>A migration is run as a whole or not at all.\<close>

lemma run_migration_run:
  assumes laws: "transaction_laws drv v" "isolation_law drv v"
    and run: "run_migration drv d now mig ps s = (r, s')"
  shows "case r of
      Inl e \<Rightarrow> tv_committed v s' = tv_committed v s
    | Inr ps' \<Rightarrow> apply_ops (mig_operations mig) ps = Some ps' \<and>
        (\<exists>s1 s2 s3 x. tv_now v s1 = tv_committed v s \<and>
          run_ops drv d mig (mig_operations mig) ps s1 = (Inr ps', s2) \<and>
          drv_exec drv True (record_sql d) [VString (mig_app mig), VString (mig_name mig), VTime now] s2 =
            (Inr x, s3) \<and> tv_committed v s' = tv_now v s3)"
proof -
  obtain e1 s1 where b: "drv_begin drv s = (e1, s1)" by fastforce
  obtain r2 s2 where o2: "run_ops drv d mig (mig_operations mig) ps s1 = (r2, s2)" by fastforce
  obtain r3 s3 where x3: "drv_exec drv True (record_sql d)
      [VString (mig_app mig), VString (mig_name mig), VTime now] s2 = (r3, s3)" by fastforce
  obtain e4 s4 where c4: "drv_commit drv s3 = (e4, s4)" by fastforce
  have t: "tv_committed v s1 = tv_committed v s" "e1 = None \<Longrightarrow> tv_now v s1 = tv_committed v s"
    "tv_committed v s4 = (if e4 = None then tv_now v s3 else tv_committed v s3)"
    "\<And>t. tv_committed v (drv_rollback drv t) = tv_committed v t"
    using laws(1) b c4 unfolding transaction_laws_def by blast+
  have c: "tv_committed v s2 = tv_committed v s1" by (rule run_ops_committed [OF laws(2) o2])
  have c3: "tv_committed v s3 = tv_committed v s2" using laws(2) x3 unfolding isolation_law_def by blast
  show ?thesis
  proof (cases "e1 = None \<and> \<not> isl r2 \<and> \<not> isl r3 \<and> e4 = None")
    case True
    then obtain ps2 x where "r2 = Inr ps2" "r3 = Inr x" by (metis sum.collapse(2))
    with True run b o2 x3 c4 have "r = Inr ps2" "s' = s4"
      by (simp_all add: run_migration_def record_applied_def)
    with True \<open>r2 = Inr ps2\<close> \<open>r3 = Inr x\<close> t o2 x3 run_ops_state show ?thesis by fastforce
  next
    case False
    with run b o2 x3 c4 t c c3 show ?thesis
      by (auto simp: run_migration_def record_applied_def split: option.splits sum.splits)
  qed
qed

subsection \<open>All migrations\<close>

definition key_of :: "migration \<Rightarrow> string" where
  "key_of mig = mig_key (mig_app mig) (mig_name mig)"

definition pending :: "string set \<Rightarrow> migration list \<Rightarrow> string list" where
  "pending applied migs = filter (\<lambda>k. k \<notin> applied) (map key_of migs)"

lemma pending_simps [simp]:
  "pending applied [] = []"
  "pending applied (m # migs) =
     (if key_of m \<in> applied then pending applied migs else key_of m # pending applied migs)"
  by (simp_all add: pending_def)

lemma run_migration_keys:
  assumes laws: "transaction_laws drv v" "isolation_law drv v" "tracking_laws drv v d keys ddl"
    and ddl: "ddl_migration d ddl mig"
    and run: "run_migration drv d now mig ps s = (r, s')"
  shows "keys (tv_committed v s') =
    (if isl r then keys (tv_committed v s) else insert (key_of mig) (keys (tv_committed v s)))"
proof (cases r)
  case (Inl e)
  with run_migration_run [OF laws(1,2) run] show ?thesis by simp
next
  case (Inr ps')
  with run_migration_run [OF laws(1,2) run] obtain s1 s2 s3 x where
    s1: "tv_now v s1 = tv_committed v s"
    and s2: "run_ops drv d mig (mig_operations mig) ps s1 = (Inr ps', s2)"
    and s3: "drv_exec drv True (record_sql d) [VString (mig_app mig), VString (mig_name mig), VTime now] s2 =
        (Inr x, s3)" "tv_committed v s' = tv_now v s3" by auto
  have "keys (tv_now v s2) = keys (tv_now v s1)"
    by (rule run_ops_keys [OF laws(3) s2]) (use ddl in \<open>simp add: ddl_migration_def\<close>)
  moreover have "keys (tv_now v s3) = insert (key_of mig) (keys (tv_now v s2))"
    using laws(3) s3(1) unfolding tracking_laws_def key_of_def by blast
  ultimately show ?thesis by (simp add: Inr s1 s3(2))
qed

lemma run_all_run:
  assumes laws: "transaction_laws drv v" "isolation_law drv v" "tracking_laws drv v d keys ddl"
  shows "run_all drv d now applied migs ps done_keys s = ((e, ks), s') \<Longrightarrow>
    \<forall>mig \<in> set migs. ddl_migration d ddl mig \<Longrightarrow>
    \<exists>new. ks = done_keys @ new \<and> prefix new (pending applied migs) \<and>
      keys (tv_committed v s') = keys (tv_committed v s) \<union> set new \<and>
      (e = None \<longrightarrow> new = pending applied migs)"
proof (induction migs arbitrary: ps done_keys s)
  case (Cons mig migs)
  show ?case
  proof (cases "key_of mig \<in> applied")
    case True
    with Cons.prems show ?thesis
      by (cases "apply_ops (mig_operations mig) ps")
        (auto simp: key_of_def [symmetric] dest!: Cons.IH)
  next
    case False
    obtain r1 s1 where m: "run_migration drv d now mig ps s = (r1, s1)" by fastforce
    have keys: "keys (tv_committed v s1) =
        (if isl r1 then keys (tv_committed v s) else insert (key_of mig) (keys (tv_committed v s)))"
      by (rule run_migration_keys [OF laws _ m]) (use Cons.prems(2) in simp)
    show ?thesis
    proof (cases r1)
      case (Inl err)
      with Cons.prems False m keys show ?thesis by (auto simp: key_of_def [symmetric])
    next
      case (Inr ps1)
      with Cons.prems False m
      have "run_all drv d now applied migs ps1 (done_keys @ [key_of mig]) s1 = ((e, ks), s')"
        by (simp add: key_of_def)
      from Cons.IH [OF this] Cons.prems(2) obtain new where
        "ks = (done_keys @ [key_of mig]) @ new" "prefix new (pending applied migs)"
        "keys (tv_committed v s') = keys (tv_committed v s1) \<union> set new"
        "e = None \<longrightarrow> new = pending applied migs" by auto
      with Inr False keys show ?thesis by (intro exI [of _ "key_of mig # new"]) auto
    qed
  qed
qed simp

lemma applied_set_run:
  assumes "tracking_laws drv v d keys ddl" and "applied_set drv d s = (r, s')"
  shows "tv_committed v s' = tv_committed v s \<and> (\<forall>ks. r = Inr ks \<longrightarrow> ks = keys (tv_committed v s))"
proof -
  obtain q s1 where q: "drv_query drv False (applied_sql d) [] s = (q, s1)" by fastforce
  with assms(1) have l: "tv_committed v s1 = tv_committed v s"
    "\<And>q' ks. q = Inr q' \<Longrightarrow> qr_err q' = None \<Longrightarrow> collect_err scan_key (qr_rows q') = Inr ks \<Longrightarrow>
      set ks = keys (tv_committed v s)"
    unfolding tracking_laws_def by blast+
  show ?thesis
    using assms(2) q l by (auto simp: applied_set_def split: sum.splits option.splits)
qed

lemma apply_migrations_run:
  assumes laws: "transaction_laws drv v" "isolation_law drv v" "tracking_laws drv v d keys ddl"
    and ddl: "\<forall>mig \<in> set migs. ddl_migration d ddl mig"
    and run: "apply_migrations drv d now migs s = ((e, ks), s')"
  shows "prefix ks (pending (keys (tv_committed v s)) migs) \<and>
    keys (tv_committed v s') = keys (tv_committed v s) \<union> set ks \<and>
    (e = None \<longrightarrow> ks = pending (keys (tv_committed v s)) migs)"
proof -
  obtain r1 s1 where x: "drv_exec drv False (tracking_table_sql d) [] s = (r1, s1)" by fastforce
  from laws(3) have "\<forall>s r s'. drv_exec drv False (tracking_table_sql d) [] s = (r, s') \<longrightarrow>
      keys (tv_committed v s') = keys (tv_committed v s)"
    unfolding tracking_laws_def by (rule conjunct1)
  with x have k1: "keys (tv_committed v s1) = keys (tv_committed v s)" by simp
  obtain r2 s2 where a: "applied_set drv d s1 = (r2, s2)" by fastforce
  from applied_set_run [OF laws(3) a]
  have k2: "keys (tv_committed v s2) = keys (tv_committed v s1)"
    "\<And>ks. r2 = Inr ks \<Longrightarrow> ks = keys (tv_committed v s1)" by auto
  show ?thesis
  proof (cases "isl r1 \<or> isl r2")
    case True
    with run x a k1 k2 show ?thesis
      by (auto simp: apply_migrations_def ensure_table_def split: sum.splits)
  next
    case False
    then obtain applied where r2: "r2 = Inr applied" by (metis sum.collapse(2))
    with False run x a have "run_all drv d now applied migs new_project_state [] s2 = ((e, ks), s')"
      by (auto simp: apply_migrations_def ensure_table_def split: sum.splits)
    from run_all_run [OF laws this ddl] k1 k2 r2 show ?thesis by auto
  qed
qed

subsection \<open>Properties\<close>

text \<open>
  A database for the witnesses: its content is the statements it has run and the rows of the tracking
  table. Creating the tracking table changes nothing here.
\<close>

record mig_content =
  mc_statements :: "string list"
  mc_rows :: "(string \<times> string) list"

record mig_db =
  md_committed :: mig_content
  md_now :: mig_content

definition mig_exec :: "dialect \<Rightarrow> bool \<Rightarrow> string \<Rightarrow> goval list \<Rightarrow> mig_db \<Rightarrow> (string + exec_result) \<times> mig_db" where
  "mig_exec d in_tx sql args s =
     (let ok = Inr \<lparr>er_last_insert_id = Inr 0, er_rows_affected = Inr 0\<rparr>;
          n = md_now s
      in if \<not> in_tx then (ok, s)
         else case args of
           [VString app, VString name, VTime t] \<Rightarrow>
             if sql = record_sql d then (ok, s\<lparr>md_now := n\<lparr>mc_rows := mc_rows n @ [(app, name)]\<rparr>\<rparr>)
             else (Inl ''bad statement'', s)
         | [] \<Rightarrow> (ok, s\<lparr>md_now := n\<lparr>mc_statements := mc_statements n @ [sql]\<rparr>\<rparr>)
         | _ \<Rightarrow> (Inl ''bad arguments'', s))"

definition mig_query :: "bool \<Rightarrow> string \<Rightarrow> goval list \<Rightarrow> mig_db \<Rightarrow> (string + query_rows) \<times> mig_db" where
  "mig_query in_tx sql args s =
     (Inr \<lparr>qr_rows = map (\<lambda>(a, n). [VString a, VString n]) (mc_rows (md_committed s)), qr_err = None\<rparr>, s)"

definition mig_driver :: "dialect \<Rightarrow> mig_db driver" where
  "mig_driver d = \<lparr>drv_begin = (\<lambda>s. (None, s\<lparr>md_now := md_committed s\<rparr>)),
     drv_commit = (\<lambda>s. (None, s\<lparr>md_committed := md_now s\<rparr>)),
     drv_rollback = (\<lambda>s. s\<lparr>md_now := md_committed s\<rparr>),
     drv_exec = mig_exec d, drv_query = mig_query\<rparr>"

definition mig_view :: "(mig_db, mig_content) tx_view" where
  "mig_view = \<lparr>tv_committed = md_committed, tv_now = md_now, tv_saves = (\<lambda>s. [])\<rparr>"

definition mig_keys :: "mig_content \<Rightarrow> string set" where
  "mig_keys c = set (map (\<lambda>(a, n). mig_key a n) (mc_rows c))"

lemma scan_mig_rows:
  "collect_err scan_key (map (\<lambda>(a, n). [VString a, VString n]) rows) = Inr (map (\<lambda>(a, n). mig_key a n) rows)"
  by (induction rows) (auto simp: scan_key_def)

lemma mig_driver_laws:
  "transaction_laws (mig_driver d) mig_view" "isolation_law (mig_driver d) mig_view"
  "tracking_laws (mig_driver d) mig_view d mig_keys (\<lambda>sql. True)"
proof -
  show "transaction_laws (mig_driver d) mig_view"
    by (auto simp: transaction_laws_def mig_driver_def mig_view_def)
  show "isolation_law (mig_driver d) mig_view"
    by (auto simp: isolation_law_def mig_driver_def mig_view_def mig_exec_def Let_def
        split: list.splits goval.splits if_splits)
  show "tracking_laws (mig_driver d) mig_view d mig_keys (\<lambda>sql. True)"
    unfolding tracking_laws_def
    by (auto simp: mig_driver_def mig_view_def mig_exec_def mig_query_def Let_def mig_keys_def
        scan_mig_rows)
qed

lemma any_ddl: "ddl_migration d (\<lambda>sql. True) mig"
  by (simp add: ddl_migration_def list_all_iff)

definition mig_one :: migration where
  "mig_one = \<lparr>mig_app = ''blog'', mig_name = ''0001_initial'', mig_dependencies = [],
     mig_operations = [CreateModel ''Author'' ''author'' [id_state]]\<rparr>"

definition mig_two :: migration where
  "mig_two = \<lparr>mig_app = ''blog'', mig_name = ''0002_auto'', mig_dependencies = [''0001_initial''],
     mig_operations = [AddField ''Author'' name_state]\<rparr>"

definition empty_mig_db :: mig_db where
  "empty_mig_db = \<lparr>md_committed = \<lparr>mc_statements = [], mc_rows = []\<rparr>,
     md_now = \<lparr>mc_statements = [], mc_rows = []\<rparr>\<rparr>"

text \<open>C5: A migration is applied as a whole or not at all: when it fails at any point, in rendering an
  operation, in a statement, in recording it or at COMMIT, the committed database is what it was; when
  it succeeds, its statements and its tracking row are committed together, and the project state is
  advanced by all its operations.\<close>

theorem migration_is_atomic:
  assumes "transaction_laws drv v" and "isolation_law drv v"
    and "run_migration drv d now mig ps s = (r, s')"
  shows "case r of
      Inl e \<Rightarrow> tv_committed v s' = tv_committed v s
    | Inr ps' \<Rightarrow> apply_ops (mig_operations mig) ps = Some ps' \<and>
        (\<exists>s1 s2 s3 x. tv_now v s1 = tv_committed v s \<and>
          run_ops drv d mig (mig_operations mig) ps s1 = (Inr ps', s2) \<and>
          drv_exec drv True (record_sql d) [VString (mig_app mig), VString (mig_name mig), VTime now] s2 =
            (Inr x, s3) \<and> tv_committed v s' = tv_now v s3)"
  by (rule run_migration_run [OF assms])

theorem migration_is_atomic_witness:
  "isl (fst (run_migration (mig_driver sqlite) sqlite zero_time mig_two (projr (fst (run_migration
       (mig_driver sqlite) sqlite zero_time mig_one new_project_state empty_mig_db))) empty_mig_db)) \<and>
   md_committed (snd (run_migration (mig_driver sqlite) sqlite zero_time mig_two (projr (fst (run_migration
       (mig_driver sqlite) sqlite zero_time mig_one new_project_state empty_mig_db))) empty_mig_db)) =
     md_committed empty_mig_db"
proof -
  define ps where "ps = projr (fst (run_migration (mig_driver sqlite) sqlite zero_time mig_one
    new_project_state empty_mig_db))"
  have bad: "isl (fst (run_migration (mig_driver sqlite) sqlite zero_time mig_two ps empty_mig_db))"
    unfolding ps_def by code_simp
  obtain r s' where run: "run_migration (mig_driver sqlite) sqlite zero_time mig_two ps empty_mig_db = (r, s')"
    by fastforce
  from migration_is_atomic [OF mig_driver_laws(1,2) run] bad run
  have "md_committed s' = md_committed empty_mig_db" by (auto simp: mig_view_def split: sum.splits)
  with bad run show ?thesis unfolding ps_def [symmetric] by simp
qed


lemma apply_one:
  "fst (apply_migrations (mig_driver sqlite) sqlite zero_time [mig_one, mig_two] empty_mig_db) =
     (Some (BadOperation ''blog'' ''0002_auto'' (AddField ''Author'' name_state)
        (MustBeNullable ''Author'' ''Name'')), [''blog/0001_initial''])"
  by code_simp


text \<open>After an \<open>Apply\<close> without error, applying the same migrations again applies none, whatever
  the statements of that run return, and the records stay as they are.\<close>

theorem apply_again_applies_nothing:
  assumes "transaction_laws drv v" and "isolation_law drv v" and "tracking_laws drv v d keys ddl"
    and "\<forall>mig \<in> set migs. ddl_migration d ddl mig"
    and "apply_migrations drv d now migs s = ((None, ks), s')"
    and "apply_migrations drv d now' migs s' = ((e, ks'), s'')"
  shows "ks' = [] \<and> keys (tv_committed v s'') = keys (tv_committed v s')"
proof -
  from apply_migrations_run [OF assms(1-5)]
  have "keys (tv_committed v s') = keys (tv_committed v s) \<union> set (pending (keys (tv_committed v s)) migs)"
    by simp
  then have "pending (keys (tv_committed v s')) migs = []"
    by (auto simp: pending_def filter_empty_conv)
  with apply_migrations_run [OF assms(1-4,6)] show ?thesis by simp
qed

theorem apply_again_applies_nothing_witness:
  "snd (fst (apply_migrations (mig_driver postgres) postgres zero_time [mig_one] (snd
     (apply_migrations (mig_driver postgres) postgres zero_time [mig_one] empty_mig_db)))) = []"
proof -
  have one: "fst (apply_migrations (mig_driver postgres) postgres zero_time [mig_one] empty_mig_db) =
      (None, [''blog/0001_initial''])" by code_simp
  obtain s' where run: "apply_migrations (mig_driver postgres) postgres zero_time [mig_one] empty_mig_db =
      ((None, [''blog/0001_initial'']), s')" using one by (metis prod.collapse)
  obtain e ks s'' where again: "apply_migrations (mig_driver postgres) postgres zero_time [mig_one] s' =
      ((e, ks), s'')" by (metis surj_pair)
  from apply_again_applies_nothing [OF mig_driver_laws _ run again] any_ddl
  show ?thesis by (simp add: run again)
qed

end
