(* ===== verification/Mig_Writer.thy ===== *)
theory Mig_Writer
  imports Go_Source Mig_Runner
begin

text \<open>
  \<open>migrations/writer.go\<close>: the Go source of a migration and the file it is written to. The formatter
  (\<open>go/format\<close>) is a parameter, as is the table of printable characters that the verb \<open>%q\<close> consults.
  What the written text means is read with the scanner and parser of \<open>Go_Source\<close>.
\<close>

subsection \<open>Rendering\<close>

abbreviation tab :: char where "tab \<equiv> CHR 0x09"

abbreviation newline :: char where "newline \<equiv> CHR 0x0A"

definition line :: "nat \<Rightarrow> string \<Rightarrow> string" where
  "line n s = replicate n tab @ s @ [newline]"

definition migration_uses_fields :: "migration \<Rightarrow> bool" where
  "migration_uses_fields m \<longleftrightarrow>
     list_ex (\<lambda>op. case op of CreateModel n t fs \<Rightarrow> True | AddField n f \<Rightarrow> True | AlterField n f \<Rightarrow> True
                           | _ \<Rightarrow> False) (mig_operations m)"

fun on_delete_source :: "on_delete \<Rightarrow> string" where
  "on_delete_source OnDeleteCascade = ''orm.OnDeleteCascade''"
| "on_delete_source OnDeleteSetNull = ''orm.OnDeleteSetNull''"
| "on_delete_source OnDeleteRestrict = ''orm.OnDeleteRestrict''"
| "on_delete_source OnDeleteDoNothing = ''orm.OnDeleteDoNothing''"

fun rel_kind_source :: "rel_kind \<Rightarrow> string" where
  "rel_kind_source RelFK = ''orm.RelFK''"
| "rel_kind_source RelNone = ''orm.RelNone''"

definition field_state_parts :: "(string \<Rightarrow> bool) \<Rightarrow> field_state \<Rightarrow> string list" where
  "field_state_parts pr f =
     [''Name: '' @ go_quote pr (fs_name f), ''Column: '' @ go_quote pr (fs_column f),
      ''Kind: orm.Kind'' @ kind_string (fs_kind f)] @
     (if fs_primary_key f then [''PrimaryKey: true''] else []) @
     (if fs_null f then [''Null: true''] else []) @
     (if fs_unique f then [''Unique: true''] else []) @
     (if fs_max_length f \<noteq> 0 then [''MaxLength: '' @ itoa (fs_max_length f)] else []) @
     (if fs_rel_kind f \<noteq> RelNone then [''RelKind: '' @ rel_kind_source (fs_rel_kind f)] else []) @
     (if fs_rel_target_table f \<noteq> [] then [''RelTargetTable: '' @ go_quote pr (fs_rel_target_table f)] else []) @
     (if fs_rel_target_column f \<noteq> [] then [''RelTargetColumn: '' @ go_quote pr (fs_rel_target_column f)] else []) @
     (if fs_rel_on_delete f \<noteq> OnDeleteDoNothing
      then [''RelOnDelete: '' @ on_delete_source (fs_rel_on_delete f)] else [])"

definition field_state_text :: "(string \<Rightarrow> bool) \<Rightarrow> field_state \<Rightarrow> string" where
  "field_state_text pr f = Join (field_state_parts pr f) '', ''"

definition render_field_inline :: "(string \<Rightarrow> bool) \<Rightarrow> field_state \<Rightarrow> string" where
  "render_field_inline pr f = ''migrations.FieldState{'' @ field_state_text pr f @ ''},'' @ [newline]"

definition render_field_elem :: "(string \<Rightarrow> bool) \<Rightarrow> field_state \<Rightarrow> string" where
  "render_field_elem pr f = line 4 (''{'' @ field_state_text pr f @ ''},'')"

fun render_operation :: "(string \<Rightarrow> bool) \<Rightarrow> operation \<Rightarrow> string" where
  "render_operation pr (CreateModel n t fs) =
     line 2 ''migrations.CreateModel{'' @
     line 3 (''Name:  '' @ go_quote pr n @ '','') @
     line 3 (''Table: '' @ go_quote pr t @ '','') @
     (if fs \<noteq> [] then
        line 3 ''Fields: []migrations.FieldState{'' @ concat (map (render_field_elem pr) fs) @ line 3 ''},''
      else []) @
     line 2 ''},''"
| "render_operation pr (DeleteModel n) =
     line 2 ''migrations.DeleteModel{'' @ line 3 (''Name: '' @ go_quote pr n @ '','') @ line 2 ''},''"
| "render_operation pr (AddField n f) =
     line 2 ''migrations.AddField{'' @ line 3 (''Model: '' @ go_quote pr n @ '','') @
     replicate 3 tab @ ''Field: '' @ render_field_inline pr f @ line 2 ''},''"
| "render_operation pr (RemoveField n name) =
     line 2 ''migrations.RemoveField{'' @ line 3 (''Model: '' @ go_quote pr n @ '','') @
     line 3 (''Field: '' @ go_quote pr name @ '','') @ line 2 ''},''"
| "render_operation pr (AlterField n f) =
     line 2 ''migrations.AlterField{'' @ line 3 (''Model: '' @ go_quote pr n @ '','') @
     replicate 3 tab @ ''Field: '' @ render_field_inline pr f @ line 2 ''},''"

definition render_source :: "(string \<Rightarrow> bool) \<Rightarrow> string \<Rightarrow> migration \<Rightarrow> string" where
  "render_source pr pkg m =
     line 0 (''package '' @ pkg) @ line 0 [] @
     line 0 ''import ('' @
     line 1 (dquote # ''github.com/oliverhaas/djangogo/migrations'' @ [dquote]) @
     (if migration_uses_fields m
      then line 1 (dquote # ''github.com/oliverhaas/djangogo/orm'' @ [dquote]) else []) @
     line 0 '')'' @ line 0 [] @
     line 0 ''var migration = migrations.Migration{'' @
     line 1 (''App:  '' @ go_quote pr (mig_app m) @ '','') @
     line 1 (''Name: '' @ go_quote pr (mig_name m) @ '','') @
     (if mig_dependencies m \<noteq> [] then
        line 1 ''Dependencies: []string{'' @
        concat (map (\<lambda>d. line 2 (go_quote pr d @ '','')) (mig_dependencies m)) @ line 1 ''},''
      else []) @
     (if mig_operations m \<noteq> [] then
        line 1 ''Operations: []migrations.Operation{'' @
        concat (map (render_operation pr) (mig_operations m)) @ line 1 ''},''
      else []) @
     line 0 ''}'' @ line 0 [] @
     line 0 ''func init() { migrations.Register(migration) }''"

record go_tools =
  is_print :: "string \<Rightarrow> bool"
  format_source :: "string \<Rightarrow> string option"

definition render_migration :: "go_tools \<Rightarrow> string \<Rightarrow> migration \<Rightarrow> string + string" where
  "render_migration g pkg m =
     (let src = render_source (is_print g) pkg m
      in case format_source g src of None \<Rightarrow> Inl src | Some out \<Rightarrow> Inr out)"

subsection \<open>The written file\<close>

text \<open>\<open>path.Clean\<close> on the elements of a path, and \<open>filepath.Join\<close> of a directory and a file.\<close>

fun clean_elems :: "bool \<Rightarrow> string list \<Rightarrow> string list \<Rightarrow> string list" where
  "clean_elems rooted st [] = rev st"
| "clean_elems rooted st (e # es) =
     (if e = [] \<or> e = ''.'' then clean_elems rooted st es
      else if e = ''..'' then
        (case st of
           [] \<Rightarrow> clean_elems rooted (if rooted then [] else [e]) es
         | t # ts \<Rightarrow> clean_elems rooted (if t = ''..'' then e # st else ts) es)
      else clean_elems rooted (e # st) es)"

definition clean_path :: "string \<Rightarrow> string" where
  "clean_path p =
     (let rooted = HasPrefix p ''/''; body = Join (clean_elems rooted [] (Split p CHR ''/'')) ''/''
      in if rooted then CHR ''/'' # body else if body = [] then ''.'' else body)"

definition path_join :: "string list \<Rightarrow> string" where
  "path_join es =
     (let es = filter (\<lambda>e. e \<noteq> []) es in if es = [] then [] else clean_path (Join es ''/''))"

text \<open>The files of a project, with the errors the operating system may report.\<close>

record disk =
  d_files :: "string \<rightharpoonup> string"
  d_mkdir_error :: "string \<Rightarrow> string option"
  d_write_error :: "string \<Rightarrow> string option"

datatype write_error = MkdirFailed string string | FormatFailed string | WriteFileFailed string string

definition write_migration ::
  "go_tools \<Rightarrow> string \<Rightarrow> string \<Rightarrow> migration \<Rightarrow> disk \<Rightarrow> (write_error + string) \<times> disk"
where
  "write_migration g dir pkg m d =
     (case d_mkdir_error d dir of
        Some e \<Rightarrow> (Inl (MkdirFailed dir e), d)
      | None \<Rightarrow>
          (case render_migration g pkg m of
             Inl src \<Rightarrow> (Inl (FormatFailed src), d)
           | Inr src \<Rightarrow>
               (let path = path_join [dir, mig_name m @ ''.go'']
                in case d_write_error d path of
                     Some e \<Rightarrow> (Inl (WriteFileFailed path e), d)
                   | None \<Rightarrow> (Inr path, d\<lparr>d_files := (d_files d)(path \<mapsto> src)\<rparr>))))"

subsection \<open>What a literal means\<close>

definition str_attr :: "string \<Rightarrow> (string \<times> go_expr) list \<Rightarrow> string option" where
  "str_attr k es = (case map_of es k of None \<Rightarrow> Some [] | Some (EStr s) \<Rightarrow> Some s | _ \<Rightarrow> None)"

definition int_attr :: "string \<Rightarrow> (string \<times> go_expr) list \<Rightarrow> int option" where
  "int_attr k es = (case map_of es k of None \<Rightarrow> Some 0 | Some (EInt i) \<Rightarrow> Some i | _ \<Rightarrow> None)"

definition bool_attr :: "string \<Rightarrow> (string \<times> go_expr) list \<Rightarrow> bool option" where
  "bool_attr k es =
     (case map_of es k of
        None \<Rightarrow> Some False
      | Some (EName ws) \<Rightarrow> if ws = [''true''] then Some True else if ws = [''false''] then Some False else None
      | _ \<Rightarrow> None)"

text \<open>A constant of the package \<open>orm\<close>, from its table of names; the first is the zero value.\<close>

definition const_attr :: "('a \<times> string) list \<Rightarrow> string \<Rightarrow> (string \<times> go_expr) list \<Rightarrow> 'a option" where
  "const_attr consts k es =
     (case map_of es k of
        None \<Rightarrow> Some (fst (hd consts))
      | Some (EName ws) \<Rightarrow>
          map_option fst (find (\<lambda>(c, n). ws = [''orm'', n]) consts)
      | _ \<Rightarrow> None)"

definition kind_consts :: "(kind \<times> string) list" where
  "kind_consts =
     [(KindAuto, ''KindAuto''), (KindInt, ''KindInt''), (KindChar, ''KindChar''), (KindText, ''KindText''),
      (KindBool, ''KindBool''), (KindDateTime, ''KindDateTime'')]"

definition rel_consts :: "(rel_kind \<times> string) list" where
  "rel_consts = [(RelNone, ''RelNone''), (RelFK, ''RelFK'')]"

definition on_delete_consts :: "(on_delete \<times> string) list" where
  "on_delete_consts =
     [(OnDeleteDoNothing, ''OnDeleteDoNothing''), (OnDeleteCascade, ''OnDeleteCascade''),
      (OnDeleteSetNull, ''OnDeleteSetNull''), (OnDeleteRestrict, ''OnDeleteRestrict'')]"

definition only_keys :: "string list \<Rightarrow> (string \<times> go_expr) list \<Rightarrow> bool" where
  "only_keys ks es \<longleftrightarrow> distinct (map fst es) \<and> set (map fst es) \<subseteq> set ks"

definition read_field_state :: "go_expr \<Rightarrow> field_state option" where
  "read_field_state x =
     (case x of
        EComp sl ty es \<Rightarrow>
          if sl \<or> ty \<notin> {[], [''migrations'', ''FieldState'']} \<or>
             \<not> only_keys [''Name'', ''Column'', ''Kind'', ''PrimaryKey'', ''Null'', ''Unique'', ''MaxLength'',
                          ''RelKind'', ''RelTargetTable'', ''RelTargetColumn'', ''RelOnDelete''] es
          then None
          else
            (case (str_attr ''Name'' es, str_attr ''Column'' es, const_attr kind_consts ''Kind'' es,
                   bool_attr ''PrimaryKey'' es, bool_attr ''Null'' es, bool_attr ''Unique'' es,
                   int_attr ''MaxLength'' es, const_attr rel_consts ''RelKind'' es,
                   str_attr ''RelTargetTable'' es, str_attr ''RelTargetColumn'' es,
                   const_attr on_delete_consts ''RelOnDelete'' es) of
               (Some n, Some c, Some k, Some p, Some nu, Some u, Some ml, Some rk, Some rt, Some rc, Some od) \<Rightarrow>
                 Some \<lparr>fs_name = n, fs_column = c, fs_kind = k, fs_primary_key = p, fs_null = nu, fs_unique = u,
                       fs_max_length = ml, fs_rel_kind = rk, fs_rel_target_table = rt,
                       fs_rel_target_column = rc, fs_rel_on_delete = od\<rparr>
             | _ \<Rightarrow> None)
      | _ \<Rightarrow> None)"

text \<open>The elements of a slice literal: none has a key.\<close>

definition slice_attr ::
  "string list \<Rightarrow> (go_expr \<Rightarrow> 'a option) \<Rightarrow> string \<Rightarrow> (string \<times> go_expr) list \<Rightarrow> 'a list option"
where
  "slice_attr ty f k es =
     (case map_of es k of
        None \<Rightarrow> Some []
      | Some (EComp sl ty' xs) \<Rightarrow>
          if sl \<and> ty' = ty then those (map (\<lambda>(k, x). if k = [] then f x else None) xs) else None
      | _ \<Rightarrow> None)"

definition field_attr :: "(string \<times> go_expr) list \<Rightarrow> field_state option" where
  "field_attr es =
     (case map_of es ''Field'' of
        Some (EComp sl ty xs) \<Rightarrow>
          if ty = [''migrations'', ''FieldState''] then read_field_state (EComp sl ty xs) else None
      | _ \<Rightarrow> None)"

definition read_operation :: "go_expr \<Rightarrow> operation option" where
  "read_operation x =
     (case x of
        EComp sl ty es \<Rightarrow>
          if sl then None
          else if ty = [''migrations'', ''CreateModel''] \<and> only_keys [''Name'', ''Table'', ''Fields''] es then
            (case (str_attr ''Name'' es, str_attr ''Table'' es,
                   slice_attr [''migrations'', ''FieldState''] read_field_state ''Fields'' es) of
               (Some n, Some t, Some fs) \<Rightarrow> Some (CreateModel n t fs) | _ \<Rightarrow> None)
          else if ty = [''migrations'', ''DeleteModel''] \<and> only_keys [''Name''] es then
            map_option DeleteModel (str_attr ''Name'' es)
          else if ty = [''migrations'', ''AddField''] \<and> only_keys [''Model'', ''Field''] es then
            (case (str_attr ''Model'' es, field_attr es) of (Some n, Some f) \<Rightarrow> Some (AddField n f) | _ \<Rightarrow> None)
          else if ty = [''migrations'', ''RemoveField''] \<and> only_keys [''Model'', ''Field''] es then
            (case (str_attr ''Model'' es, str_attr ''Field'' es) of
               (Some n, Some f) \<Rightarrow> Some (RemoveField n f) | _ \<Rightarrow> None)
          else if ty = [''migrations'', ''AlterField''] \<and> only_keys [''Model'', ''Field''] es then
            (case (str_attr ''Model'' es, field_attr es) of (Some n, Some f) \<Rightarrow> Some (AlterField n f) | _ \<Rightarrow> None)
          else None
      | _ \<Rightarrow> None)"

definition read_string :: "go_expr \<Rightarrow> string option" where
  "read_string x = (case x of EStr s \<Rightarrow> Some s | _ \<Rightarrow> None)"

definition read_migration_value :: "go_expr \<Rightarrow> migration option" where
  "read_migration_value x =
     (case x of
        EComp sl ty es \<Rightarrow>
          if sl \<or> ty \<noteq> [''migrations'', ''Migration''] \<or>
             \<not> only_keys [''App'', ''Name'', ''Dependencies'', ''Operations''] es then None
          else
            (case (str_attr ''App'' es, str_attr ''Name'' es, slice_attr [''string''] read_string ''Dependencies'' es,
                   slice_attr [''migrations'', ''Operation''] read_operation ''Operations'' es) of
               (Some a, Some n, Some ds, Some ops) \<Rightarrow>
                 Some \<lparr>mig_app = a, mig_name = n, mig_dependencies = ds, mig_operations = ops\<rparr>
             | _ \<Rightarrow> None)
      | _ \<Rightarrow> None)"

text \<open>What compiling and starting the file registers: the package and the migration.\<close>

definition registered :: "string \<Rightarrow> (string \<times> migration) option" where
  "registered src =
     (case read_file src of
        None \<Rightarrow> None
      | Some f \<Rightarrow>
          if gf_call f = [''migrations'', ''Register'']
          then map_option (Pair (gf_package f)) (read_migration_value (gf_value f)) else None)"

subsection \<open>Reading a rendered literal\<close>

definition value_read :: "string \<Rightarrow> go_expr \<Rightarrow> bool" where
  "value_read v e \<longleftrightarrow>
     (\<exists>ts. parses ts e \<and> lexes False (v @ '','') (ts @ [TOp CHR '','']) False \<and>
        lexes False (v @ ''}'') (ts @ [TOp CHR ''}'']) True)"

definition part_read :: "string \<Rightarrow> string \<times> go_expr \<Rightarrow> bool" where
  "part_read p x \<longleftrightarrow> (\<exists>b v. p = b @ v \<and> chunk False b = Some ([TWord (fst x), TOp CHR '':''], False) \<and> value_read v (snd x))"

definition elems_read :: "string \<Rightarrow> (string \<times> go_expr) list \<Rightarrow> bool" where
  "elems_read s es \<longleftrightarrow> (\<exists>ts. lexes False s ts True \<and> parses_elems ts es)"

lemma chunk_lexes_append: "chunk b s = Some (ts, b') \<Longrightarrow> lexes b' v us b'' \<Longrightarrow> lexes b (s @ v) (ts @ us) b''"
  using lexes_append chunk_lexes by blast

lemma punct_chunks:
  "chunk b '','' = Some ([TOp CHR '',''], False)" "chunk b ''}'' = Some ([TOp CHR ''}''], True)"
  "chunk False [newline] = Some ([], False)" "chunk False [tab] = Some ([], False)"
  "chunk False '' '' = Some ([], False)" "chunk True [newline] = Some ([TSemi], False)"
  by (cases b; code_simp)+

lemma value_read_str: "value_read (go_quote pr s) (EStr s)"
  using lexes_append [OF lexes_str chunk_lexes [OF punct_chunks(1)]]
    lexes_append [OF lexes_str chunk_lexes [OF punct_chunks(2)]] parses_str
  by (auto simp: value_read_def)

lemma value_read_fixed:
  "parses ts e \<Longrightarrow> chunk False (v @ '','') = Some (ts @ [TOp CHR '',''], False) \<Longrightarrow>
   chunk False (v @ ''}'') = Some (ts @ [TOp CHR ''}''], True) \<Longrightarrow> value_read v e"
  using chunk_lexes by (auto simp: value_read_def)

lemma value_read_comp:
  assumes "elems_read inner es" and "chunk False b = Some (us, False)" and "\<And>ts. parses_elems ts es \<Longrightarrow> parses (us @ ts) e"
  shows "value_read (b @ inner) e"
proof -
  from assms(1) obtain ts where ts: "lexes False inner ts True" "parses_elems ts es"
    by (auto simp: elems_read_def)
  from chunk_lexes_append [OF assms(2) ts(1)] have l: "lexes False (b @ inner) (us @ ts) True" .
  from lexes_append [OF l chunk_lexes [OF punct_chunks(1)]] lexes_append [OF l chunk_lexes [OF punct_chunks(2)]]
    assms(3) [OF ts(2)]
  show ?thesis by (auto simp: value_read_def)
qed

lemma elems_read_end: "elems_read ''}'' []"
  using chunk_lexes [OF punct_chunks(2)] elems_end by (auto simp: elems_read_def)

lemma elems_read_blank: "c \<in> {tab, newline, CHR '' ''} \<Longrightarrow> elems_read s es \<Longrightarrow> elems_read (c # s) es"
  using chunk_lexes_append [OF punct_chunks(3)] chunk_lexes_append [OF punct_chunks(4)]
    chunk_lexes_append [OF punct_chunks(5)]
  by (force simp: elems_read_def)

lemma elems_read_tabs: "elems_read s es \<Longrightarrow> elems_read (replicate n tab @ s) es"
  by (induction n) (simp_all add: elems_read_blank)

lemma elems_read_line: "elems_read (s @ newline # r) es \<Longrightarrow> elems_read (line n s @ r) es"
  by (simp add: line_def elems_read_tabs)

lemma elems_read_Cons:
  assumes "elems_read s es"
  shows "part_read p x \<Longrightarrow> elems_read (p @ '','' @ s) (x # es)"
    and "value_read v e \<Longrightarrow> elems_read (v @ '','' @ s) (([], e) # es)"
proof -
  from assms obtain us where us: "lexes False s us True" "parses_elems us es"
    by (auto simp: elems_read_def)
  show "elems_read (v @ '','' @ s) (([], e) # es)" if "value_read v e"
  proof -
    from that obtain ts where ts: "parses ts e" "lexes False (v @ '','') (ts @ [TOp CHR '','']) False"
      by (auto simp: value_read_def)
    from lexes_append [OF ts(2) us(1)] elems_cons(2) [OF ts(1) us(2)] show ?thesis
      by (auto simp: elems_read_def)
  qed
  assume "part_read p x"
  then obtain b v ts where p: "p = b @ v" "chunk False b = Some ([TWord (fst x), TOp CHR '':''], False)"
    and ts: "parses ts (snd x)" "lexes False (v @ '','') (ts @ [TOp CHR '','']) False"
    by (auto simp: part_read_def value_read_def)
  from chunk_lexes_append [OF p(2) lexes_append [OF ts(2) us(1)]] elems_cons(1) [OF ts(1) us(2)]
  show "elems_read (p @ '','' @ s) (x # es)" by (cases x) (auto simp: elems_read_def p(1))
qed

lemma elems_read_last:
  assumes "part_read p x"
  shows "elems_read (p @ ''}'') [x]"
proof -
  from assms obtain b v ts where p: "p = b @ v" "chunk False b = Some ([TWord (fst x), TOp CHR '':''], False)"
    and ts: "parses ts (snd x)" "lexes False (v @ ''}'') (ts @ [TOp CHR ''}'']) True"
    by (auto simp: part_read_def value_read_def)
  from chunk_lexes_append [OF p(2) ts(2)] elems_cons(3) [OF ts(1) elems_end] show ?thesis
    by (cases x) (auto simp: elems_read_def p(1))
qed

lemma elems_read_Join: "list_all2 part_read ps xs \<Longrightarrow> ps \<noteq> [] \<Longrightarrow> elems_read (Join ps '', '' @ ''}'') xs"
proof (induction rule: list_all2_induct)
  case (Cons p ps x xs)
  show ?case
  proof (cases "ps = []")
    case True
    with Cons show ?thesis using elems_read_last [of p x] by simp
  next
    case False
    with Cons have "elems_read ('' '' @ Join ps '', '' @ ''}'') xs" using elems_read_blank by simp
    from elems_read_Cons(1) [OF this Cons(1)] False show ?thesis by (simp add: Join_Cons)
  qed
qed simp

lemma lexes_num:
  assumes "c \<in> {CHR '','', CHR ''}''}"
  shows "lexes b (utoa n @ [c]) [TNum n, TOp c] (c = CHR ''}'')"
proof -
  obtain d ds where u: "utoa n = d # ds" by (cases "utoa n") auto
  from utoa_digits [of n] u have dig: "is_digit d" "list_all is_digit ds" by simp_all
  from assms have nd: "\<not> is_digit c" by (auto simp: is_digit_def code_def)
  from dig(2) have tw: "takeWhile is_digit (ds @ c # r) = ds \<and> dropWhile is_digit (ds @ c # r) = c # r" for r
    using nd by (induction ds) auto
  from dig(1) have "\<not> ident_start d" "code d \<notin> {9, 10, 13, 32}"
    by (auto simp: ident_start_def is_digit_def is_upper_def is_lower_def code_def)
  with dig(1) tw u digits_val_utoa [of n] have step: "lex_step b d (ds @ c # r) = Some ([TNum n], True, c # r)" for r
    by (simp add: lex_step_def)
  have punct: "lexes True [c] [TOp c] (c = CHR ''}'')"
    using assms chunk_lexes [OF punct_chunks(1)] chunk_lexes [OF punct_chunks(2)] by auto
  have "go_lex b (utoa n @ c # r) = map_option ((@) [TNum n]) (go_lex True ([c] @ r))" for r
    by (simp add: u go_lex.simps(2) step)
  with punct show ?thesis by (simp add: lexes_def)
qed

lemma value_read_int: "value_read (itoa i) (EInt i)"
proof (cases "i < 0")
  case True
  then have "parses [TOp CHR ''-'', TNum (nat (- i))] (EInt i)" using parses_num(2) [of "nat (- i)"] by simp
  moreover have minus: "chunk False ''-'' = Some ([TOp CHR ''-''], False)" by code_simp
  have "lexes False (itoa i @ [c]) ([TOp CHR ''-'', TNum (nat (- i))] @ [TOp c]) (c = CHR ''}'')"
    if "c \<in> {CHR '','', CHR ''}''}" for c
    using chunk_lexes_append [OF minus lexes_num [OF that]] True by (simp add: itoa_def)
  from this [of "CHR '',''"] this [of "CHR ''}''"]
  have "lexes False (itoa i @ '','') ([TOp CHR ''-'', TNum (nat (- i))] @ [TOp CHR '','']) False"
    "lexes False (itoa i @ ''}'') ([TOp CHR ''-'', TNum (nat (- i))] @ [TOp CHR ''}'']) True" by simp_all
  ultimately show ?thesis unfolding value_read_def by blast
next
  case False
  then have "parses [TNum (nat i)] (EInt i)" using parses_num(1) [of "nat i"] by simp
  moreover from False have "lexes False (itoa i @ '','') ([TNum (nat i)] @ [TOp CHR '','']) False"
    "lexes False (itoa i @ ''}'') ([TNum (nat i)] @ [TOp CHR ''}'']) True"
    using lexes_num [of "CHR '',''" False "nat i"] lexes_num [of "CHR ''}''" False "nat i"] by (simp_all add: itoa_def)
  ultimately show ?thesis unfolding value_read_def by blast
qed

lemma value_read_true: "value_read ''true'' (EName [''true''])"
  by (rule value_read_fixed [OF parses_name(1)]) code_simp+

lemma value_read_orm:
  assumes "n \<in> set (map snd kind_consts @ map snd rel_consts @ map snd on_delete_consts)"
  shows "value_read (''orm.'' @ n) (EName [''orm'', n])"
proof -
  have "list_all (\<lambda>n. chunk False ((''orm.'' @ n) @ '','') = Some ([TWord ''orm'', TOp CHR ''.'', TWord n] @ [TOp CHR '',''], False) \<and>
      chunk False ((''orm.'' @ n) @ ''}'') = Some ([TWord ''orm'', TOp CHR ''.'', TWord n] @ [TOp CHR ''}''], True))
      (map snd kind_consts @ map snd rel_consts @ map snd on_delete_consts)"
    by code_simp
  with assms have "chunk False ((''orm.'' @ n) @ '','') = Some ([TWord ''orm'', TOp CHR ''.'', TWord n] @ [TOp CHR '',''], False)"
    "chunk False ((''orm.'' @ n) @ ''}'') = Some ([TWord ''orm'', TOp CHR ''.'', TWord n] @ [TOp CHR ''}''], True)"
    by (auto simp: list_all_iff)
  moreover have "''orm'' \<notin> set go_keywords" by code_simp
  ultimately show ?thesis by (intro value_read_fixed [OF parses_name(2)])
qed

lemma part_readI: "chunk False b = Some ([TWord k, TOp CHR '':''], False) \<Longrightarrow> value_read v e \<Longrightarrow> part_read (b @ v) (k, e)"
  by (auto simp: part_read_def)

subsection \<open>Fields\<close>

definition opt :: "bool \<Rightarrow> 'a \<Rightarrow> 'a list" where
  "opt b x = (if b then [x] else [])"

declare map_of_append [simp del]

lemma map_of_opt [simp]: "map_of (opt b (k, x) @ xs) k' = (if b \<and> k' = k then Some x else map_of xs k')"
  "map_of (opt b (k, x)) k' = (if b \<and> k' = k then Some x else None)"
  by (auto simp: opt_def)

lemma fst_opt [simp]: "a \<in> fst ` set (opt b (k, x)) \<longleftrightarrow> b \<and> a = k"
  by (auto simp: opt_def)

lemma in_opt: "y \<in> set (opt b x) \<longleftrightarrow> b \<and> y = x"
  by (cases b) (simp_all add: opt_def)

lemma distinct_opt [simp]: "distinct (map fst (opt b x))"
  by (auto simp: opt_def)

definition kind_name :: "kind \<Rightarrow> string" where
  "kind_name k = ''Kind'' @ kind_string k"

definition rel_name :: "rel_kind \<Rightarrow> string" where
  "rel_name k = (case k of RelNone \<Rightarrow> ''RelNone'' | RelFK \<Rightarrow> ''RelFK'')"

definition on_delete_name :: "on_delete \<Rightarrow> string" where
  "on_delete_name d = drop 4 (on_delete_source d)"

definition field_pairs :: "field_state \<Rightarrow> (string \<times> go_expr) list" where
  "field_pairs f =
     [(''Name'', EStr (fs_name f)), (''Column'', EStr (fs_column f)), (''Kind'', EName [''orm'', kind_name (fs_kind f)])] @
     opt (fs_primary_key f) (''PrimaryKey'', EName [''true'']) @
     opt (fs_null f) (''Null'', EName [''true'']) @
     opt (fs_unique f) (''Unique'', EName [''true'']) @
     opt (fs_max_length f \<noteq> 0) (''MaxLength'', EInt (fs_max_length f)) @
     opt (fs_rel_kind f \<noteq> RelNone) (''RelKind'', EName [''orm'', rel_name (fs_rel_kind f)]) @
     opt (fs_rel_target_table f \<noteq> []) (''RelTargetTable'', EStr (fs_rel_target_table f)) @
     opt (fs_rel_target_column f \<noteq> []) (''RelTargetColumn'', EStr (fs_rel_target_column f)) @
     opt (fs_rel_on_delete f \<noteq> OnDeleteDoNothing) (''RelOnDelete'', EName [''orm'', on_delete_name (fs_rel_on_delete f)])"

lemma list_all2_opt:
  "(b \<Longrightarrow> P x y) \<Longrightarrow> list_all2 P (if b then [x] else []) (opt b y)"
  by (auto simp: opt_def)

lemma orm_source:
  "''orm.Kind'' @ kind_string k = ''orm.'' @ kind_name k" "rel_kind_source r = ''orm.'' @ rel_name r"
  "on_delete_source d = ''orm.'' @ on_delete_name d"
  by (cases k; cases r; cases d; simp add: kind_name_def rel_name_def on_delete_name_def)+

lemma orm_names:
  "kind_name k \<in> set (map snd kind_consts @ map snd rel_consts @ map snd on_delete_consts)"
  "rel_name r \<in> set (map snd kind_consts @ map snd rel_consts @ map snd on_delete_consts)"
  "on_delete_name d \<in> set (map snd kind_consts @ map snd rel_consts @ map snd on_delete_consts)"
  by (cases k; cases r; cases d; simp add: kind_name_def rel_name_def on_delete_name_def kind_consts_def
      rel_consts_def on_delete_consts_def)+

lemma field_key_chunks:
  "list_all (\<lambda>k. chunk False (k @ '': '') = Some ([TWord k, TOp CHR '':''], False))
     [''Name'', ''Column'', ''Kind'', ''PrimaryKey'', ''Null'', ''Unique'', ''MaxLength'', ''RelKind'',
      ''RelTargetTable'', ''RelTargetColumn'', ''RelOnDelete'']"
  by code_simp

lemma field_parts_read: "list_all2 part_read (field_state_parts pr f) (field_pairs f)"
proof -
  have key: "value_read v e \<Longrightarrow> part_read (k @ '': '' @ v) (k, e)"
    if "k \<in> set [''Name'', ''Column'', ''Kind'', ''PrimaryKey'', ''Null'', ''Unique'', ''MaxLength'', ''RelKind'',
      ''RelTargetTable'', ''RelTargetColumn'', ''RelOnDelete'']" for k v e
    using part_readI [of "k @ '': ''" k v e] field_key_chunks that by (auto simp: list_all_iff)
  note orm = value_read_orm [OF orm_names(1)] value_read_orm [OF orm_names(2)] value_read_orm [OF orm_names(3)]
  have parts: "part_read (''Name: '' @ go_quote pr (fs_name f)) (''Name'', EStr (fs_name f))"
    "part_read (''Column: '' @ go_quote pr (fs_column f)) (''Column'', EStr (fs_column f))"
    "part_read (''Kind: orm.Kind'' @ kind_string (fs_kind f)) (''Kind'', EName [''orm'', kind_name (fs_kind f)])"
    "part_read ''PrimaryKey: true'' (''PrimaryKey'', EName [''true''])"
    "part_read ''Null: true'' (''Null'', EName [''true''])"
    "part_read ''Unique: true'' (''Unique'', EName [''true''])"
    "part_read (''MaxLength: '' @ itoa (fs_max_length f)) (''MaxLength'', EInt (fs_max_length f))"
    "part_read (''RelKind: '' @ rel_kind_source (fs_rel_kind f)) (''RelKind'', EName [''orm'', rel_name (fs_rel_kind f)])"
    "part_read (''RelTargetTable: '' @ go_quote pr (fs_rel_target_table f)) (''RelTargetTable'', EStr (fs_rel_target_table f))"
    "part_read (''RelTargetColumn: '' @ go_quote pr (fs_rel_target_column f)) (''RelTargetColumn'', EStr (fs_rel_target_column f))"
    "part_read (''RelOnDelete: '' @ on_delete_source (fs_rel_on_delete f))
       (''RelOnDelete'', EName [''orm'', on_delete_name (fs_rel_on_delete f)])"
    using key [OF _ value_read_str, of "''Name''"] key [OF _ value_read_str, of "''Column''"]
      key [OF _ orm(1), of "''Kind''" "fs_kind f"] key [OF _ value_read_true, of "''PrimaryKey''"]
      key [OF _ value_read_true, of "''Null''"] key [OF _ value_read_true, of "''Unique''"]
      key [OF _ value_read_int, of "''MaxLength''"] key [OF _ orm(2), of "''RelKind''"]
      key [OF _ value_read_str, of "''RelTargetTable''"] key [OF _ value_read_str, of "''RelTargetColumn''"]
      key [OF _ orm(3), of "''RelOnDelete''"]
    by (simp_all add: orm_source(1) [symmetric] orm_source(2,3))
      (simp add: kind_name_def)?
  show ?thesis
    unfolding field_state_parts_def field_pairs_def
    by (intro list_all2_appendI list_all2_opt list.rel_intros parts)
qed

lemma bool_attr_if: "map_of es k = (if b then Some (EName [''true'']) else None) \<Longrightarrow> bool_attr k es = Some b"
  by (simp add: bool_attr_def)

lemma read_consts:
  "map_of es k = Some (EName [''orm'', kind_name c]) \<Longrightarrow> const_attr kind_consts k es = Some c"
  "map_of es k = (if r \<noteq> RelNone then Some (EName [''orm'', rel_name r]) else None) \<Longrightarrow>
   const_attr rel_consts k es = Some r"
  "map_of es k = (if d \<noteq> OnDeleteDoNothing then Some (EName [''orm'', on_delete_name d]) else None) \<Longrightarrow>
   const_attr on_delete_consts k es = Some d"
  by (cases c; simp add: const_attr_def kind_name_def kind_consts_def)
    (cases r; simp add: const_attr_def rel_name_def rel_consts_def;
     cases d; simp add: const_attr_def on_delete_name_def on_delete_consts_def)+

lemma read_field_state_pairs:
  assumes "ty \<in> {[], [''migrations'', ''FieldState'']}"
  shows "read_field_state (EComp False ty (field_pairs f)) = Some f"
proof -
  have keys: "only_keys [''Name'', ''Column'', ''Kind'', ''PrimaryKey'', ''Null'', ''Unique'', ''MaxLength'',
      ''RelKind'', ''RelTargetTable'', ''RelTargetColumn'', ''RelOnDelete''] (field_pairs f)"
    by (auto simp: only_keys_def field_pairs_def in_opt)
  have strs: "str_attr ''Name'' (field_pairs f) = Some (fs_name f)"
    "str_attr ''Column'' (field_pairs f) = Some (fs_column f)"
    "str_attr ''RelTargetTable'' (field_pairs f) = Some (fs_rel_target_table f)"
    "str_attr ''RelTargetColumn'' (field_pairs f) = Some (fs_rel_target_column f)"
    "int_attr ''MaxLength'' (field_pairs f) = Some (fs_max_length f)"
    by (simp_all add: str_attr_def int_attr_def field_pairs_def)
  have "bool_attr ''PrimaryKey'' (field_pairs f) = Some (fs_primary_key f)"
    "bool_attr ''Null'' (field_pairs f) = Some (fs_null f)"
    "bool_attr ''Unique'' (field_pairs f) = Some (fs_unique f)"
    by (rule bool_attr_if, simp add: field_pairs_def)+
  moreover have "const_attr kind_consts ''Kind'' (field_pairs f) = Some (fs_kind f)"
    "const_attr rel_consts ''RelKind'' (field_pairs f) = Some (fs_rel_kind f)"
    "const_attr on_delete_consts ''RelOnDelete'' (field_pairs f) = Some (fs_rel_on_delete f)"
    by (rule read_consts, simp add: field_pairs_def)+
  ultimately show ?thesis
    using assms keys strs by (auto simp: read_field_state_def)
qed

subsection \<open>Operations and migrations\<close>

definition field_slice :: "field_state list \<Rightarrow> go_expr" where
  "field_slice fs = EComp True [''migrations'', ''FieldState''] (map (\<lambda>f. ([], EComp False [] (field_pairs f))) fs)"

fun op_expr :: "operation \<Rightarrow> go_expr" where
  "op_expr (CreateModel n t fs) =
     EComp False [''migrations'', ''CreateModel'']
       ([(''Name'', EStr n), (''Table'', EStr t)] @ opt (fs \<noteq> []) (''Fields'', field_slice fs))"
| "op_expr (DeleteModel n) = EComp False [''migrations'', ''DeleteModel''] [(''Name'', EStr n)]"
| "op_expr (AddField n f) =
     EComp False [''migrations'', ''AddField'']
       [(''Model'', EStr n), (''Field'', EComp False [''migrations'', ''FieldState''] (field_pairs f))]"
| "op_expr (RemoveField n name) =
     EComp False [''migrations'', ''RemoveField''] [(''Model'', EStr n), (''Field'', EStr name)]"
| "op_expr (AlterField n f) =
     EComp False [''migrations'', ''AlterField'']
       [(''Model'', EStr n), (''Field'', EComp False [''migrations'', ''FieldState''] (field_pairs f))]"

definition migration_expr :: "migration \<Rightarrow> go_expr" where
  "migration_expr m =
     EComp False [''migrations'', ''Migration'']
       ([(''App'', EStr (mig_app m)), (''Name'', EStr (mig_name m))] @
        opt (mig_dependencies m \<noteq> [])
          (''Dependencies'', EComp True [''string''] (map (\<lambda>d. ([], EStr d)) (mig_dependencies m))) @
        opt (mig_operations m \<noteq> [])
          (''Operations'', EComp True [''migrations'', ''Operation''] (map (\<lambda>op. ([], op_expr op)) (mig_operations m))))"

lemma those_map_all: "(\<And>x. x \<in> set xs \<Longrightarrow> f (g x) = Some x) \<Longrightarrow> those (map (\<lambda>x. f (g x)) xs) = Some xs"
  by (induction xs) simp_all

lemma slice_attr_map:
  "map_of es k = (if xs \<noteq> [] then Some (EComp True ty (map (\<lambda>x. ([], g x)) xs)) else None) \<Longrightarrow>
   (\<And>x. f (g x) = Some x) \<Longrightarrow> slice_attr ty f k es = Some xs"
  by (simp add: slice_attr_def comp_def those_map_all [of xs Some id, simplified])

lemma read_op_expr: "read_operation (op_expr op) = Some op"
proof (cases op)
  case (CreateModel n t fs)
  have "slice_attr [''migrations'', ''FieldState''] read_field_state ''Fields''
      ([(''Name'', EStr n), (''Table'', EStr t)] @ opt (fs \<noteq> []) (''Fields'', field_slice fs)) = Some fs"
    by (rule slice_attr_map [where g = "\<lambda>f. EComp False [] (field_pairs f)"])
      (simp_all add: field_slice_def read_field_state_pairs)
  with CreateModel show ?thesis by (auto simp: read_operation_def only_keys_def str_attr_def in_opt)
qed (simp_all add: read_operation_def only_keys_def str_attr_def field_attr_def read_field_state_pairs)

lemma read_migration_expr: "read_migration_value (migration_expr m) = Some m"
proof -
  define es where "es = [(''App'', EStr (mig_app m)), (''Name'', EStr (mig_name m))] @
    opt (mig_dependencies m \<noteq> [])
      (''Dependencies'', EComp True [''string''] (map (\<lambda>d. ([], EStr d)) (mig_dependencies m))) @
    opt (mig_operations m \<noteq> [])
      (''Operations'', EComp True [''migrations'', ''Operation''] (map (\<lambda>op. ([], op_expr op)) (mig_operations m)))"
  have "slice_attr [''string''] read_string ''Dependencies'' es = Some (mig_dependencies m)"
    by (rule slice_attr_map [where g = EStr]) (simp_all add: es_def read_string_def)
  moreover have "slice_attr [''migrations'', ''Operation''] read_operation ''Operations'' es = Some (mig_operations m)"
    by (rule slice_attr_map [where g = op_expr]) (simp_all add: es_def read_op_expr)
  moreover have "str_attr ''App'' es = Some (mig_app m)" "str_attr ''Name'' es = Some (mig_name m)"
    by (simp_all add: es_def str_attr_def)
  moreover have "only_keys [''App'', ''Name'', ''Dependencies'', ''Operations''] es"
    by (auto simp: es_def only_keys_def in_opt)
  moreover have "migration_expr m = EComp False [''migrations'', ''Migration''] es"
    by (simp add: migration_expr_def es_def)
  ultimately show ?thesis by (simp add: read_migration_value_def)
qed

subsection \<open>Reading operations and migrations\<close>

lemma elem_line: "part_read p x \<Longrightarrow> elems_read s es \<Longrightarrow> elems_read (line n (p @ '','') @ s) (x # es)"
  and slice_line: "value_read v e \<Longrightarrow> elems_read s es \<Longrightarrow> elems_read (line n (v @ '','') @ s) (([], e) # es)"
  using elems_read_line [of "p @ '',''" s] elems_read_line [of "v @ '',''" s]
    elems_read_Cons [OF elems_read_blank [of newline s es]]
  by simp_all

definition close :: "nat \<Rightarrow> string" where
  "close n = replicate n tab @ ''}''"

lemma elems_read_close: "elems_read (close n) []"
  by (simp add: close_def elems_read_tabs elems_read_end)

lemma type_chunks:
  "list_all (\<lambda>n. chunk False (''migrations.'' @ n @ ''{'') =
       Some ([TWord ''migrations'', TOp CHR ''.'', TWord n, TOp CHR ''{''], False))
     [''Migration'', ''FieldState'', ''CreateModel'', ''DeleteModel'', ''AddField'', ''RemoveField'', ''AlterField'']"
  "list_all (\<lambda>n. chunk False (''[]migrations.'' @ n @ ''{'') =
       Some ([TOp CHR ''['', TOp CHR '']'', TWord ''migrations'', TOp CHR ''.'', TWord n, TOp CHR ''{''], False))
     [''FieldState'', ''Operation'']"
  "chunk False ''[]string{'' = Some ([TOp CHR ''['', TOp CHR '']'', TWord ''string'', TOp CHR ''{''], False)"
  "chunk False ''{'' = Some ([TOp CHR ''{''], False)"
  by code_simp+

lemma not_keywords: "''migrations'' \<notin> set go_keywords" "''string'' \<notin> set go_keywords"
  by code_simp+

lemma value_read_struct:
  assumes "elems_read inner es" and "n \<in> set [''Migration'', ''FieldState'', ''CreateModel'', ''DeleteModel'',
      ''AddField'', ''RemoveField'', ''AlterField'']"
  shows "value_read (''migrations.'' @ n @ ''{'' @ inner) (EComp False [''migrations'', n] es)"
  using value_read_comp [OF assms(1), of "''migrations.'' @ n @ ''{''"] type_chunks(1) assms(2)
    parses_comp(2) [OF _ not_keywords(1)]
  by (auto simp: list_all_iff)

lemma value_read_slice:
  assumes "elems_read inner es" and "n \<in> set [''FieldState'', ''Operation'']"
  shows "value_read (''[]migrations.'' @ n @ ''{'' @ inner) (EComp True [''migrations'', n] es)"
  using value_read_comp [OF assms(1), of "''[]migrations.'' @ n @ ''{''"] type_chunks(2) assms(2)
    parses_comp(3) [OF _ not_keywords(1)]
  by (auto simp: list_all_iff)

lemma value_read_strings: "elems_read inner es \<Longrightarrow> value_read (''[]string{'' @ inner) (EComp True [''string''] es)"
  using value_read_comp [OF _ type_chunks(3)] parses_comp(4) [OF _ not_keywords(2)] by simp

lemma elems_read_field: "elems_read (field_state_text pr f @ ''}'') (field_pairs f)"
  unfolding field_state_text_def
  by (rule elems_read_Join [OF field_parts_read]) (simp add: field_state_parts_def)

lemma value_read_field:
  "value_read (''migrations.FieldState{'' @ field_state_text pr f @ ''}'')
     (EComp False [''migrations'', ''FieldState''] (field_pairs f))"
  "value_read (''{'' @ field_state_text pr f @ ''}'') (EComp False [] (field_pairs f))"
  using value_read_struct [OF elems_read_field, of "''FieldState''"]
    value_read_comp [OF elems_read_field type_chunks(4)] parses_comp(1)
  by simp_all

lemma elems_read_lines:
  "(\<And>x. value_read (f x) (g x)) \<Longrightarrow>
   elems_read (concat (map (\<lambda>x. line k (f x @ '','')) xs) @ close n) (map (\<lambda>x. ([], g x)) xs)"
  by (induction xs) (simp_all add: elems_read_close slice_line)

lemma op_key_chunks:
  "list_all (\<lambda>(b, k). chunk False b = Some ([TWord k, TOp CHR '':''], False))
     [(''Name:  '', ''Name''), (''Name: '', ''Name''), (''Table: '', ''Table''), (''Fields: '', ''Fields''),
      (''Model: '', ''Model''), (''Field: '', ''Field''), (''App:  '', ''App''),
      (''Dependencies: '', ''Dependencies''), (''Operations: '', ''Operations'')]"
  by code_simp

lemma op_part:
  "value_read v e \<Longrightarrow>
   (b, k) \<in> set [(''Name:  '', ''Name''), (''Name: '', ''Name''), (''Table: '', ''Table''), (''Fields: '', ''Fields''),
      (''Model: '', ''Model''), (''Field: '', ''Field''), (''App:  '', ''App''),
      (''Dependencies: '', ''Dependencies''), (''Operations: '', ''Operations'')] \<Longrightarrow> part_read (b @ v) (k, e)"
  using part_readI [of b k v e] op_key_chunks by (auto simp: list_all_iff)

lemma elems_opt:
  "(b \<Longrightarrow> part_read p x) \<Longrightarrow> elems_read s es \<Longrightarrow>
   elems_read ((if b then line n (p @ '','') else []) @ s) (opt b x @ es)"
  "(b \<Longrightarrow> part_read p x) \<Longrightarrow> elems_read s [] \<Longrightarrow>
   elems_read ((if b then line n (p @ '','') else []) @ s) (opt b x)"
  using elem_line [of p x s] by (auto simp: opt_def)

fun op_name :: "operation \<Rightarrow> string" where
  "op_name (CreateModel n t fs) = ''CreateModel''"
| "op_name (DeleteModel n) = ''DeleteModel''"
| "op_name (AddField n f) = ''AddField''"
| "op_name (RemoveField n name) = ''RemoveField''"
| "op_name (AlterField n f) = ''AlterField''"

fun op_body :: "(string \<Rightarrow> bool) \<Rightarrow> operation \<Rightarrow> string" where
  "op_body pr (CreateModel n t fs) =
     line 3 ((''Name:  '' @ go_quote pr n) @ '','') @ line 3 ((''Table: '' @ go_quote pr t) @ '','') @
     (if fs \<noteq> [] then
        line 3 ((''Fields: '' @ (''[]migrations.'' @ ''FieldState'' @ ''{'' @ newline #
          concat (map (\<lambda>f. line 4 ((''{'' @ field_state_text pr f @ ''}'') @ '','')) fs) @ close 3)) @ '','')
      else []) @ close 2"
| "op_body pr (DeleteModel n) = line 3 ((''Name: '' @ go_quote pr n) @ '','') @ close 2"
| "op_body pr (AddField n f) =
     line 3 ((''Model: '' @ go_quote pr n) @ '','') @
     line 3 ((''Field: '' @ (''migrations.FieldState{'' @ field_state_text pr f @ ''}'')) @ '','') @ close 2"
| "op_body pr (RemoveField n name) =
     line 3 ((''Model: '' @ go_quote pr n) @ '','') @ line 3 ((''Field: '' @ go_quote pr name) @ '','') @ close 2"
| "op_body pr (AlterField n f) =
     line 3 ((''Model: '' @ go_quote pr n) @ '','') @
     line 3 ((''Field: '' @ (''migrations.FieldState{'' @ field_state_text pr f @ ''}'')) @ '','') @ close 2"

lemma render_operation_text:
  "render_operation pr op = line 2 ((''migrations.'' @ op_name op @ ''{'' @ newline # op_body pr op) @ '','')"
  by (cases op) (simp_all add: line_def close_def render_field_elem_def [abs_def] render_field_inline_def)

lemmas str_part = op_part [OF value_read_str]

lemma op_body_read: "\<exists>es. op_expr op = EComp False [''migrations'', op_name op] es \<and> elems_read (newline # op_body pr op) es"
proof (cases op)
  case (CreateModel n t fs)
  have fields: "elems_read (newline # concat (map (\<lambda>f. line 4 ((''{'' @ field_state_text pr f @ ''}'') @ '','')) fs) @ close 3)
      (map (\<lambda>f. ([], EComp False [] (field_pairs f))) fs)"
    by (intro elems_read_blank elems_read_lines value_read_field(2)) simp
  have "part_read (''Fields: '' @ (''[]migrations.'' @ ''FieldState'' @ ''{'' @ newline #
      concat (map (\<lambda>f. line 4 ((''{'' @ field_state_text pr f @ ''}'') @ '','')) fs) @ close 3)) (''Fields'', field_slice fs)"
    unfolding field_slice_def by (rule op_part [OF value_read_slice [OF fields]]) simp_all
  then have "elems_read (newline # op_body pr (CreateModel n t fs))
      ((''Name'', EStr n) # (''Table'', EStr t) # opt (fs \<noteq> []) (''Fields'', field_slice fs))"
    unfolding op_body.simps
    by (intro elems_read_blank elem_line elems_opt(2) elems_read_close str_part) simp_all
  with CreateModel show ?thesis by simp
next
  case (AddField n f)
  then show ?thesis
    using op_part [OF value_read_field(1), of "''Field: ''" "''Field''"]
    by (auto simp del: append_assoc append.simps intro!: elems_read_blank elem_line elems_read_close str_part)
next
  case (AlterField n f)
  then show ?thesis
    using op_part [OF value_read_field(1), of "''Field: ''" "''Field''"]
    by (auto simp del: append_assoc append.simps intro!: elems_read_blank elem_line elems_read_close str_part)
qed (auto simp del: append_assoc append.simps intro!: elems_read_blank elem_line elems_read_close str_part)

lemma value_read_op: "value_read (''migrations.'' @ op_name op @ ''{'' @ newline # op_body pr op) (op_expr op)"
proof -
  obtain es where "op_expr op = EComp False [''migrations'', op_name op] es" "elems_read (newline # op_body pr op) es"
    using op_body_read by blast
  with value_read_struct [OF this(2), of "op_name op"] show ?thesis by (cases op) simp_all
qed

definition migration_body :: "(string \<Rightarrow> bool) \<Rightarrow> migration \<Rightarrow> string" where
  "migration_body pr m =
     line 1 ((''App:  '' @ go_quote pr (mig_app m)) @ '','') @
     line 1 ((''Name: '' @ go_quote pr (mig_name m)) @ '','') @
     (if mig_dependencies m \<noteq> [] then
        line 1 ((''Dependencies: '' @ (''[]string{'' @ newline #
          concat (map (\<lambda>d. line 2 (go_quote pr d @ '','')) (mig_dependencies m)) @ close 1)) @ '','') else []) @
     (if mig_operations m \<noteq> [] then
        line 1 ((''Operations: '' @ (''[]migrations.'' @ ''Operation'' @ ''{'' @ newline #
          concat (map (\<lambda>op. line 2 ((''migrations.'' @ op_name op @ ''{'' @ newline # op_body pr op) @ '','')) (mig_operations m)) @
          close 1)) @ '','') else []) @
     close 0"

lemma migration_body_read: "\<exists>es. migration_expr m = EComp False [''migrations'', ''Migration''] es \<and> elems_read (newline # migration_body pr m) es"
proof -
  let ?deps = "newline # concat (map (\<lambda>d. line 2 (go_quote pr d @ '','')) (mig_dependencies m)) @ close 1"
  let ?ops = "newline # concat (map (\<lambda>op. line 2 ((''migrations.'' @ op_name op @ ''{'' @ newline # op_body pr op) @ '',''))
      (mig_operations m)) @ close 1"
  have deps: "part_read (''Dependencies: '' @ (''[]string{'' @ ?deps))
      (''Dependencies'', EComp True [''string''] (map (\<lambda>d. ([], EStr d)) (mig_dependencies m)))"
    by (rule op_part [OF value_read_strings], intro elems_read_blank elems_read_lines value_read_str) simp_all
  have ops: "part_read (''Operations: '' @ (''[]migrations.'' @ ''Operation'' @ ''{'' @ ?ops))
      (''Operations'', EComp True [''migrations'', ''Operation''] (map (\<lambda>op. ([], op_expr op)) (mig_operations m)))"
    by (rule op_part [OF value_read_slice], intro elems_read_blank elems_read_lines value_read_op) simp_all
  have "elems_read (newline # migration_body pr m)
     ((''App'', EStr (mig_app m)) # (''Name'', EStr (mig_name m)) #
        opt (mig_dependencies m \<noteq> [])
          (''Dependencies'', EComp True [''string''] (map (\<lambda>d. ([], EStr d)) (mig_dependencies m))) @
        opt (mig_operations m \<noteq> [])
          (''Operations'', EComp True [''migrations'', ''Operation''] (map (\<lambda>op. ([], op_expr op)) (mig_operations m))))"
    unfolding migration_body_def
    by (intro elems_read_blank elem_line elems_opt deps ops elems_read_close str_part) simp_all
  then show ?thesis by (simp add: migration_expr_def)
qed

subsection \<open>Which packages a migration mentions\<close>

definition quals :: "go_expr \<Rightarrow> string set" where
  "quals e = hd ` {ws \<in> set (names_of e). length ws = 2}"

lemma names_of_comp: "set (names_of (EComp sl ty es)) = insert ty (\<Union>x \<in> set es. set (names_of (snd x)))"
  by (auto simp: split_def)

lemma quals_simps [simp]:
  "quals (EStr s) = {}" "quals (EInt i) = {}" "quals (EName ws) = (if length ws = 2 then {hd ws} else {})"
  "quals (EComp sl ty es) = (if length ty = 2 then {hd ty} else {}) \<union> (\<Union>x \<in> set es. quals (snd x))"
  unfolding quals_def names_of_comp by auto

lemma quals_field_pairs: "(\<Union>x \<in> set (field_pairs f). quals (snd x)) = {''orm''}"
  by (auto simp: field_pairs_def in_opt split: if_splits)

definition op_uses_fields :: "operation \<Rightarrow> bool" where
  "op_uses_fields op = (case op of CreateModel n t fs \<Rightarrow> True | AddField n f \<Rightarrow> True | AlterField n f \<Rightarrow> True | _ \<Rightarrow> False)"

definition op_has_fields :: "operation \<Rightarrow> bool" where
  "op_has_fields op \<longleftrightarrow> (case op of CreateModel n t fs \<Rightarrow> fs \<noteq> [] | _ \<Rightarrow> True)"

lemma quals_op: "op_has_fields op \<Longrightarrow> quals (op_expr op) = (if op_uses_fields op then {''migrations'', ''orm''} else {''migrations''})"
  by (cases op) (simp_all add: quals_field_pairs op_uses_fields_def op_has_fields_def opt_def field_slice_def insert_commute)

lemma quals_migration:
  assumes "list_all op_has_fields (mig_operations m)"
  shows "quals (migration_expr m) = (if migration_uses_fields m then {''migrations'', ''orm''} else {''migrations''})"
proof -
  have "quals (migration_expr m) = {''migrations''} \<union> (\<Union>op \<in> set (mig_operations m). quals (op_expr op))"
    by (auto simp: migration_expr_def opt_def)
  also have "(\<Union>op \<in> set (mig_operations m). quals (op_expr op)) =
      (\<Union>op \<in> set (mig_operations m). if op_uses_fields op then {''migrations'', ''orm''} else {''migrations''})"
    using assms by (simp add: quals_op list_all_iff)
  finally show ?thesis
    by (auto simp: migration_uses_fields_def op_uses_fields_def list_ex_iff)
qed

subsection \<open>The whole file\<close>

definition go_name :: "string \<Rightarrow> bool" where
  "go_name w \<longleftrightarrow>
     w \<noteq> [] \<and> ident_start (hd w) \<and> list_all ident_char (tl w) \<and> w \<notin> set go_keywords \<and> w \<noteq> ''_''"

lemma lexes_name_line:
  assumes "go_name w"
  shows "lexes False (w @ [newline]) [TWord w, TSemi] False"
proof -
  from assms obtain c s where w: "w = c # s" "ident_start c" "list_all ident_char s" "word_ends w"
    by (cases w) (auto simp: go_name_def word_ends_def)
  have "takeWhile ident_char (s @ newline # r) = s \<and> dropWhile ident_char (s @ newline # r) = newline # r" for r
    using w(3) by (induction s)
      (auto simp: ident_char_def ident_start_def is_upper_def is_lower_def is_digit_def code_def)
  moreover from w(2) have "code c \<notin> {9, 10, 13, 32}"
    by (auto simp: ident_start_def is_upper_def is_lower_def code_def)
  ultimately have "lex_step False c (s @ newline # r) = Some ([TWord w], True, newline # r)" for r
    using w by (simp add: lex_step_def)
  moreover have "lex_step True newline r = Some ([TSemi], False, r)" for r
    by (simp add: lex_step_def code_def)
  ultimately show ?thesis
    by (simp add: lexes_def w(1) go_lex.simps(2))
qed

definition import_text :: "bool \<Rightarrow> string" where
  "import_text b =
     line 0 [] @ line 0 ''import ('' @
     line 1 (dquote # ''github.com/oliverhaas/djangogo/migrations'' @ [dquote]) @
     (if b then line 1 (dquote # ''github.com/oliverhaas/djangogo/orm'' @ [dquote]) else []) @
     line 0 '')'' @ line 0 [] @ ''var migration = migrations.Migration{''"

definition import_paths :: "bool \<Rightarrow> string list" where
  "import_paths b =
     ''github.com/oliverhaas/djangogo/migrations'' # (if b then [''github.com/oliverhaas/djangogo/orm''] else [])"

definition init_text :: string where
  "init_text = [newline] @ line 0 [] @ line 0 ''func init() { migrations.Register(migration) }''"

definition init_tokens :: "gtoken list" where
  "init_tokens =
     [TSemi, TWord ''func'', TWord ''init'', TOp CHR ''('', TOp CHR '')'', TOp CHR ''{'', TWord ''migrations'',
      TOp CHR ''.'', TWord ''Register'', TOp CHR ''('', TWord ''migration'', TOp CHR '')'', TOp CHR ''}'', TSemi]"

lemma import_text_chunk:
  "chunk False (import_text b) =
     Some ([TWord ''import'', TOp CHR ''(''] @ concat (map (\<lambda>p. [TStr p, TSemi]) (import_paths b)) @
       [TOp CHR '')'', TSemi, TWord ''var'', TWord ''migration'', TOp CHR ''=''] @
       [TWord ''migrations'', TOp CHR ''.'', TWord ''Migration'', TOp CHR ''{''], False)"
proof -
  have "list_all (\<lambda>b. chunk False (import_text b) =
     Some ([TWord ''import'', TOp CHR ''(''] @ concat (map (\<lambda>p. [TStr p, TSemi]) (import_paths b)) @
       [TOp CHR '')'', TSemi, TWord ''var'', TWord ''migration'', TOp CHR ''=''] @
       [TWord ''migrations'', TOp CHR ''.'', TWord ''Migration'', TOp CHR ''{''], False)) [True, False]"
    by code_simp
  then show ?thesis by (cases b) simp_all
qed

lemma fixed_text_chunks:
  "chunk False ''package '' = Some ([TWord ''package''], False)"
  "chunk True init_text = Some (init_tokens, False)"
  by code_simp+

lemma render_source_text:
  "render_source pr pkg m =
     ''package '' @ (pkg @ [newline]) @ import_text (migration_uses_fields m) @
     (newline # migration_body pr m) @ init_text"
  by (simp add: render_source_def import_text_def migration_body_def init_text_def line_def close_def
      render_operation_text [abs_def])

definition migration_file :: "string \<Rightarrow> migration \<Rightarrow> go_file" where
  "migration_file pkg m =
     \<lparr>gf_package = pkg, gf_imports = import_paths (migration_uses_fields m), gf_var = ''migration'',
      gf_value = migration_expr m, gf_call = [''migrations'', ''Register''], gf_arg = ''migration''\<rparr>"

lemma render_source_tokens:
  assumes "go_name pkg"
  obtains ts where "parses ts (migration_expr m)"
    and "go_lex False (render_source pr pkg m) =
      Some ([TWord ''package'', TWord pkg, TSemi, TWord ''import'', TOp CHR ''(''] @
        concat (map (\<lambda>p. [TStr p, TSemi]) (import_paths (migration_uses_fields m))) @
        [TOp CHR '')'', TSemi, TWord ''var'', TWord ''migration'', TOp CHR ''=''] @ ts @ init_tokens)"
proof -
  obtain es ts where es: "migration_expr m = EComp False [''migrations'', ''Migration''] es"
    and ts: "lexes False (newline # migration_body pr m) ts True" "parses_elems ts es"
    using migration_body_read [of m pr] by (auto simp: elems_read_def)
  note p = parses_comp(2) [OF ts(2) not_keywords(1), of "''Migration''"]
  note l = lexes_append [OF chunk_lexes [OF fixed_text_chunks(1)] lexes_append [OF lexes_name_line [OF assms]
      lexes_append [OF chunk_lexes [OF import_text_chunk [of "migration_uses_fields m"]]
      lexes_append [OF ts(1) chunk_lexes [OF fixed_text_chunks(2)]]]]]
  from this [folded render_source_text, unfolded lexes_def, rule_format, of "[]"] p es show thesis
    by (intro that) simp_all
qed

lemma import_specs_paths:
  "import_specs (concat (map (\<lambda>p. [TStr p, TSemi]) ps) @ TOp c # r) = (ps, TOp c # r)"
  by (induction ps) simp_all

lemma read_render_source:
  assumes "go_name pkg" and "list_all op_has_fields (mig_operations m)"
  shows "read_file (render_source pr pkg m) = Some (migration_file pkg m)"
proof -
  obtain ts where ts: "parses ts (migration_expr m)"
    and lexed: "go_lex False (render_source pr pkg m) =
      Some ([TWord ''package'', TWord pkg, TSemi, TWord ''import'', TOp CHR ''(''] @
        concat (map (\<lambda>p. [TStr p, TSemi]) (import_paths (migration_uses_fields m))) @
        [TOp CHR '')'', TSemi, TWord ''var'', TWord ''migration'', TOp CHR ''=''] @ ts @ init_tokens)"
    using render_source_tokens [OF assms(1)] by blast
  have "parse_expr (length (ts @ init_tokens)) (ts @ init_tokens) = Some (migration_expr m, init_tokens)"
    using ts by (auto simp: parses_def init_tokens_def)
  then have "parse_file ([TWord ''package'', TWord pkg, TSemi, TWord ''import'', TOp CHR ''(''] @
        concat (map (\<lambda>p. [TStr p, TSemi]) (import_paths (migration_uses_fields m))) @
        [TOp CHR '')'', TSemi, TWord ''var'', TWord ''migration'', TOp CHR ''=''] @ ts @ init_tokens) =
      Some (migration_file pkg m)"
    by (simp add: parse_file_def expect_def import_specs_paths init_tokens_def migration_file_def)
  moreover have "file_ok (migration_file pkg m)"
  proof -
    have "set (qualifiers (migration_file pkg m)) = {''migrations''} \<union> quals (migration_expr m)"
      by (auto simp: qualifiers_def migration_file_def quals_def)
    also have "\<dots> = set (map import_name (import_paths (migration_uses_fields m)))"
    proof -
      have "import_name ''github.com/oliverhaas/djangogo/migrations'' = ''migrations''"
        "import_name ''github.com/oliverhaas/djangogo/orm'' = ''orm''" by code_simp+
      then show ?thesis by (auto simp: quals_migration [OF assms(2)] import_paths_def)
    qed
    finally have "set (map import_name (gf_imports (migration_file pkg m))) = set (qualifiers (migration_file pkg m))"
      by (simp add: migration_file_def)
    moreover have "distinct (map import_name (import_paths b))" for b
    proof -
      have "list_all (\<lambda>b. distinct (map import_name (import_paths b))) [True, False]" by code_simp
      then show ?thesis by (cases b) simp_all
    qed
    moreover have "''migration'' \<notin> set go_keywords" by code_simp
    ultimately show ?thesis using assms(1) by (simp add: file_ok_def migration_file_def go_name_def)
  qed
  ultimately show ?thesis by (simp add: read_file_def lexed)
qed

subsection \<open>What is written\<close>

definition keeps_tokens :: "go_tools \<Rightarrow> bool" where
  "keeps_tokens g \<longleftrightarrow>
     (\<forall>s f. read_file s = Some f \<longrightarrow> (\<exists>t. format_source g s = Some t \<and> go_lex False t = go_lex False s))"

lemma render_migration_read:
  assumes "keeps_tokens g" and "go_name pkg" and "list_all op_has_fields (mig_operations m)"
  obtains src where "render_migration g pkg m = Inr src" and "read_file src = Some (migration_file pkg m)"
proof -
  note r = read_render_source [OF assms(2,3), of "is_print g"]
  with assms(1) obtain src where "format_source g (render_source (is_print g) pkg m) = Some src"
    and "go_lex False src = go_lex False (render_source (is_print g) pkg m)"
    unfolding keeps_tokens_def by blast
  moreover from this r have "read_file src = Some (migration_file pkg m)" by (simp add: read_file_def)
  ultimately show thesis by (intro that [of src]) (simp_all add: render_migration_def Let_def)
qed

lemma written_file:
  assumes "keeps_tokens g" and "go_name pkg" and "list_all op_has_fields (mig_operations m)"
    and "d_mkdir_error d dir = None" and "\<And>p. d_write_error d p = None"
  shows "\<exists>path src. write_migration g dir pkg m d = (Inr path, d\<lparr>d_files := (d_files d)(path \<mapsto> src)\<rparr>) \<and>
    registered src = Some (pkg, m)"
proof -
  obtain src where "render_migration g pkg m = Inr src" "read_file src = Some (migration_file pkg m)"
    using render_migration_read [OF assms(1-3)] .
  moreover from this have "registered src = Some (pkg, m)"
    by (simp add: registered_def migration_file_def read_migration_expr)
  ultimately show ?thesis using assms(4,5)
    by (intro exI conjI) (simp_all add: write_migration_def Let_def)
qed


definition sample_tools :: go_tools where
  "sample_tools = \<lparr>is_print = (\<lambda>w. True), format_source = Some\<rparr>"

definition sample_disk :: disk where
  "sample_disk = \<lparr>d_files = Map.empty, d_mkdir_error = (\<lambda>p. None), d_write_error = (\<lambda>p. None)\<rparr>"

definition sample_field :: "string \<Rightarrow> field_state" where
  "sample_field n =
     \<lparr>fs_name = n, fs_column = ToLower n, fs_kind = KindChar, fs_primary_key = False, fs_null = True,
      fs_unique = False, fs_max_length = 200, fs_rel_kind = RelNone, fs_rel_target_table = [],
      fs_rel_target_column = [], fs_rel_on_delete = OnDeleteDoNothing\<rparr>"

definition sample_migrations :: "migration list" where
  "sample_migrations =
     [\<lparr>mig_app = ''blog'', mig_name = ''0001_initial'', mig_dependencies = [],
       mig_operations = [CreateModel ''Post'' ''post'' [sample_field ''Title'']]\<rparr>,
      \<lparr>mig_app = ''blog'', mig_name = ''0002_auto'', mig_dependencies = [''0001_initial''],
       mig_operations = [AddField ''Post'' (sample_field ''Body''), DeleteModel ''Tag'']\<rparr>]"

lemma sample_keeps_tokens: "keeps_tokens sample_tools"
  by (simp add: keeps_tokens_def sample_tools_def)

lemma go_name_blog: "go_name ''blog''"
  by code_simp


text \<open>Every file written declares the same package variable, so the files of two migrations written for
  one app, which land in one directory with one package name, do not compile together.\<close>

theorem second_migration_breaks_package:
  assumes "keeps_tokens g" and "go_name pkg"
    and "list_all op_has_fields (mig_operations m)" and "list_all op_has_fields (mig_operations m')"
    and "render_migration g pkg m = Inr src" and "render_migration g pkg m' = Inr src'"
  shows "\<exists>f f'. read_file src = Some f \<and> read_file src' = Some f' \<and>
    package_ok [f] \<and> package_ok [f'] \<and> \<not> package_ok [f, f']"
proof -
  have "read_file src = Some (migration_file pkg m)" "read_file src' = Some (migration_file pkg m')"
    using render_migration_read [OF assms(1,2,3)] render_migration_read [OF assms(1,2,4)] assms(5,6)
    by (metis sum.inject(2))+
  then show ?thesis by (simp add: package_ok_def migration_file_def)
qed

lemma sample_rendered:
  "render_migration sample_tools p m = Inr (render_source (\<lambda>w. True) p m)"
  by (simp add: render_migration_def sample_tools_def)

theorem second_migration_breaks_package_witness:
  "\<exists>f f'. read_file (render_source (\<lambda>w. True) ''blog'' (sample_migrations ! 0)) = Some f \<and>
     read_file (render_source (\<lambda>w. True) ''blog'' (sample_migrations ! 1)) = Some f' \<and>
     package_ok [f] \<and> package_ok [f'] \<and> \<not> package_ok [f, f']"
proof -
  have "list_all op_has_fields (mig_operations (sample_migrations ! 0))"
    "list_all op_has_fields (mig_operations (sample_migrations ! 1))" by code_simp+
  from second_migration_breaks_package [OF sample_keeps_tokens go_name_blog this sample_rendered sample_rendered]
  show ?thesis .
qed

end
