(* ===== verification/Orm_Query.thy ===== *)
theory Orm_Query
  imports Orm_Dialect
begin

text \<open>
  \<open>orm/queryset.go\<close>, \<open>orm/lookups.go\<close>, \<open>orm/compiler.go\<close> and the query side of
  \<open>orm/selectrelated.go\<close>: the query builder and the SQL text it compiles to. The closure \<open>next\<close> of
  the source, which numbers the placeholders, is the counter that the functions take and return:
  the number of placeholders written so far.
\<close>

subsection \<open>Query sets\<close>

datatype query_error =
    NoModelRegistered rtype
  | BadFilterPairs
  | UnknownField string string
  | UnknownLookup string
  | InRequiresSlice goval
  | IsNullRequiresBool goval
  | UnknownOrderField string string
  | UnknownUpdateColumn string string
  | SelectRelatedUnknown string string
  | SelectRelatedNotFK string string
  | SelectRelatedUnresolved string string
  | SelectRelatedNoPK string string
  | NilModel

record where_clause =
  w_key :: string
  w_value :: goval
  w_negate :: bool

record order_clause =
  o_column :: string
  o_desc :: bool

text \<open>
  The database handle, without the connection: its dialect and its registry. A query set has no
  model only when it carries an error; \<open>NilModel\<close> stands for the panic of reading one that is nil.
\<close>

record orm_db =
  db_dialect :: dialect
  db_registry :: registry

record queryset =
  q_model :: "model option"
  q_wheres :: "where_clause list"
  q_orders :: "order_clause list"
  q_select_related :: "string list"
  q_limit :: int
  q_offset :: int
  q_err :: "query_error option"

definition new_query :: "orm_db \<Rightarrow> rtype \<Rightarrow> queryset" where
  "new_query db t =
     (let q = \<lparr>q_model = None, q_wheres = [], q_orders = [], q_select_related = [],
               q_limit = -1, q_offset = 0, q_err = None\<rparr>
      in case model_of (db_registry db) (Some t) of
           None \<Rightarrow> q\<lparr>q_err := Some (NoModelRegistered t)\<rparr>
         | Some m \<Rightarrow> q\<lparr>q_model := Some m\<rparr>)"

definition set_err :: "query_error \<Rightarrow> queryset \<Rightarrow> queryset" where
  "set_err e q = (if q_err q = None then q\<lparr>q_err := Some e\<rparr> else q)"

definition select_related :: "string list \<Rightarrow> queryset \<Rightarrow> queryset" where
  "select_related names q = q\<lparr>q_select_related := q_select_related q @ names\<rparr>"

text \<open>The loop of \<open>addWheres\<close>: clauses added before a bad key stay.\<close>

fun add_pairs :: "bool \<Rightarrow> goval list \<Rightarrow> queryset \<Rightarrow> queryset" where
  "add_pairs negate (k # v # rest) q =
     (case k of
        VString key \<Rightarrow>
          add_pairs negate rest
            (q\<lparr>q_wheres := q_wheres q @ [\<lparr>w_key = key, w_value = v, w_negate = negate\<rparr>]\<rparr>)
      | _ \<Rightarrow> set_err BadFilterPairs q)"
| "add_pairs negate _ q = q"

definition add_wheres :: "bool \<Rightarrow> goval list \<Rightarrow> queryset \<Rightarrow> queryset" where
  "add_wheres negate pairs q =
     (if length pairs mod 2 \<noteq> 0 then set_err BadFilterPairs q else add_pairs negate pairs q)"

definition Filter :: "goval list \<Rightarrow> queryset \<Rightarrow> queryset" where
  "Filter pairs q = add_wheres False pairs q"

definition Exclude :: "goval list \<Rightarrow> queryset \<Rightarrow> queryset" where
  "Exclude pairs q = add_wheres True pairs q"

definition order_term :: "string \<Rightarrow> order_clause" where
  "order_term f =
     (if HasPrefix f ''-'' then \<lparr>o_column = drop 1 f, o_desc = True\<rparr>
      else \<lparr>o_column = f, o_desc = False\<rparr>)"

definition OrderBy :: "string list \<Rightarrow> queryset \<Rightarrow> queryset" where
  "OrderBy names q = q\<lparr>q_orders := q_orders q @ map order_term names\<rparr>"

definition Limit :: "int \<Rightarrow> queryset \<Rightarrow> queryset" where
  "Limit n q = q\<lparr>q_limit := n\<rparr>"

definition Offset :: "int \<Rightarrow> queryset \<Rightarrow> queryset" where
  "Offset n q = q\<lparr>q_offset := n\<rparr>"

subsection \<open>Lookups\<close>

definition parse_lookup :: "string \<Rightarrow> string \<times> string" where
  "parse_lookup key =
     (case LastIndex key ''__'' of
        None \<Rightarrow> (key, ''exact'')
      | Some i \<Rightarrow> (take i key, drop (i + 2) key))"

definition escape_like :: "string \<Rightarrow> string" where
  "escape_like s =
     ReplaceAll
       (ReplaceAll
         (ReplaceAll s [backslash] [backslash, backslash])
         ''%'' [backslash, CHR ''%''])
       ''_'' [backslash, CHR ''_'']"

text \<open>The elements of a value whose kind is slice or array.\<close>

definition slice_elems :: "goval \<Rightarrow> goval list option" where
  "slice_elems v =
     (case v of
        VSlice vs \<Rightarrow> Some vs
      | VBytes s \<Rightarrow> Some (map (\<lambda>c. VUint I8 (int (code c))) s)
      | _ \<Rightarrow> None)"

definition qualify_col :: "dialect \<Rightarrow> string \<Rightarrow> string \<Rightarrow> string" where
  "qualify_col d qualify column =
     (if qualify \<noteq> [] then d_quote d qualify @ ''.'' @ d_quote d column else d_quote d column)"

definition like_escape :: string where
  "like_escape = '' ESCAPE '' @ [squote, backslash, squote]"

definition build_predicate ::
  "dialect \<Rightarrow> model \<Rightarrow> string \<Rightarrow> goval \<Rightarrow> string \<Rightarrow> nat \<Rightarrow> query_error + string \<times> goval list \<times> nat"
where
  "build_predicate d m key value qualify n =
     (let (column, lookup) = parse_lookup key
      in case m_by_column m column of
           None \<Rightarrow> Inl (UnknownField column (m_name m))
         | Some i \<Rightarrow>
           (let qcol = qualify_col d qualify (f_column (m_fields m ! i));
                ph = d_placeholder d (Suc n)
            in if lookup = ''exact'' then
                 (if value = VNil then Inr (qcol @ '' IS NULL'', [], n)
                  else Inr (qcol @ '' = '' @ ph, [value], Suc n))
               else if lookup = ''gt'' then Inr (qcol @ '' > '' @ ph, [value], Suc n)
               else if lookup = ''gte'' then Inr (qcol @ '' >= '' @ ph, [value], Suc n)
               else if lookup = ''lt'' then Inr (qcol @ '' < '' @ ph, [value], Suc n)
               else if lookup = ''lte'' then Inr (qcol @ '' <= '' @ ph, [value], Suc n)
               else if lookup = ''contains'' \<or> lookup = ''icontains'' then
                 Inr (qcol @ '' LIKE '' @ ph @ like_escape,
                      [VString (''%'' @ escape_like (sprint value) @ ''%'')], Suc n)
               else if lookup = ''startswith'' then
                 Inr (qcol @ '' LIKE '' @ ph @ like_escape,
                      [VString (escape_like (sprint value) @ ''%'')], Suc n)
               else if lookup = ''endswith'' then
                 Inr (qcol @ '' LIKE '' @ ph @ like_escape,
                      [VString (''%'' @ escape_like (sprint value))], Suc n)
               else if lookup = ''in'' then
                 (case slice_elems value of
                    None \<Rightarrow> Inl (InRequiresSlice value)
                  | Some vs \<Rightarrow>
                      if vs = [] then Inr (''0 = 1'', [], n)
                      else Inr (qcol @ '' IN ('' @
                                Join (map (d_placeholder d) [Suc n..<Suc n + length vs]) '', '' @ '')'',
                                vs, n + length vs))
               else if lookup = ''isnull'' then
                 (case value of
                    VBool b \<Rightarrow>
                      if b then Inr (qcol @ '' IS NULL'', [], n)
                      else Inr (qcol @ '' IS NOT NULL'', [], n)
                  | _ \<Rightarrow> Inl (IsNullRequiresBool value))
               else Inl (UnknownLookup lookup)))"

subsection \<open>Clauses\<close>

fun where_preds ::
  "dialect \<Rightarrow> model \<Rightarrow> string \<Rightarrow> nat \<Rightarrow> where_clause list \<Rightarrow>
     query_error + string list \<times> goval list \<times> nat"
where
  "where_preds d m qualify n [] = Inr ([], [], n)"
| "where_preds d m qualify n (w # ws) =
     (case build_predicate d m (w_key w) (w_value w) qualify n of
        Inl e \<Rightarrow> Inl e
      | Inr (pred, pArgs, n') \<Rightarrow>
          (let pred = (if w_negate w then ''NOT ('' @ pred @ '')'' else pred)
           in case where_preds d m qualify n' ws of
                Inl e \<Rightarrow> Inl e
              | Inr (preds, args, n'') \<Rightarrow> Inr (pred # preds, pArgs @ args, n'')))"

definition compile_where ::
  "dialect \<Rightarrow> model \<Rightarrow> where_clause list \<Rightarrow> string \<Rightarrow> nat \<Rightarrow> query_error + string \<times> goval list"
where
  "compile_where d m ws qualify n =
     (if ws = [] then Inr ([], [])
      else case where_preds d m qualify n ws of
             Inl e \<Rightarrow> Inl e
           | Inr (preds, args, n') \<Rightarrow> Inr ('' WHERE '' @ Join preds '' AND '', args))"

definition compile_order_term ::
  "dialect \<Rightarrow> model \<Rightarrow> string \<Rightarrow> order_clause \<Rightarrow> query_error + string"
where
  "compile_order_term d m qualify oc =
     (if m_by_column m (o_column oc) = None then Inl (UnknownOrderField (o_column oc) (m_name m))
      else Inr (qualify_col d qualify (o_column oc) @ (if o_desc oc then '' DESC'' else [])))"

definition compile_order_by ::
  "dialect \<Rightarrow> model \<Rightarrow> order_clause list \<Rightarrow> string \<Rightarrow> query_error + string"
where
  "compile_order_by d m os qualify =
     (if os = [] then Inr []
      else case collect_err (compile_order_term d m qualify) os of
             Inl e \<Rightarrow> Inl e
           | Inr terms \<Rightarrow> Inr ('' ORDER BY '' @ Join terms '', ''))"

definition compile_limit_offset :: "int \<Rightarrow> int \<Rightarrow> string" where
  "compile_limit_offset limit offset =
     (if offset > 0 \<and> limit < 0 then '' LIMIT -1 OFFSET '' @ itoa offset
      else (if limit \<ge> 0 then '' LIMIT '' @ itoa limit else []) @
           (if offset > 0 then '' OFFSET '' @ itoa offset else []))"

subsection \<open>Statements\<close>

text \<open>
  Every statement first returns a recorded error; the model of the query set is then there.
\<close>

definition with_model :: "queryset \<Rightarrow> (model \<Rightarrow> query_error + 'a) \<Rightarrow> query_error + 'a" where
  "with_model q k =
     (case q_err q of
        Some e \<Rightarrow> Inl e
      | None \<Rightarrow> (case q_model q of None \<Rightarrow> Inl NilModel | Some m \<Rightarrow> k m))"

record joined_rel =
  jr_field :: field
  jr_target :: model
  jr_alias :: string

definition resolve_rel :: "model list \<Rightarrow> model \<Rightarrow> string \<Rightarrow> query_error + joined_rel" where
  "resolve_rel ms m name =
     (case field_by_name m name of
        None \<Rightarrow> Inl (SelectRelatedUnknown name (m_name m))
      | Some f \<Rightarrow>
          (case f_rel f of
             None \<Rightarrow> Inl (SelectRelatedNotFK name (m_name m))
           | Some rel \<Rightarrow>
               if rel_kind rel \<noteq> RelFK then Inl (SelectRelatedNotFK name (m_name m))
               else case rel_target rel of
                      None \<Rightarrow> Inl (SelectRelatedUnresolved name (m_name m))
                    | Some i \<Rightarrow> Inr \<lparr>jr_field = f, jr_target = ms ! i, jr_alias = ''st_'' @ f_column f\<rparr>))"

definition resolve_select_related ::
  "model list \<Rightarrow> model \<Rightarrow> string list \<Rightarrow> query_error + joined_rel list"
where
  "resolve_select_related ms m names = collect_err (resolve_rel ms m) names"

definition join_clause :: "dialect \<Rightarrow> string \<Rightarrow> joined_rel \<Rightarrow> query_error + string" where
  "join_clause d qMain r =
     (case primary_key (jr_target r) of
        None \<Rightarrow> Inl (SelectRelatedNoPK (m_name (jr_target r)) (f_name (jr_field r)))
      | Some pk \<Rightarrow>
          Inr ('' LEFT JOIN '' @ d_quote d (m_table (jr_target r)) @ '' AS '' @ d_quote d (jr_alias r) @
               '' ON '' @ qMain @ ''.'' @ d_quote d (f_column (jr_field r)) @ '' = '' @
               d_quote d (jr_alias r) @ ''.'' @ d_quote d (f_column pk)))"

definition joined_columns :: "dialect \<Rightarrow> model \<Rightarrow> joined_rel list \<Rightarrow> string list" where
  "joined_columns d m rels =
     map (\<lambda>c. d_quote d (m_table m) @ ''.'' @ d_quote d c) (columns m) @
     concat (map (\<lambda>r. map (\<lambda>c. d_quote d (jr_alias r) @ ''.'' @ d_quote d c) (columns (jr_target r)))
       rels)"

definition compile_select_related ::
  "dialect \<Rightarrow> model list \<Rightarrow> queryset \<Rightarrow> model \<Rightarrow> query_error + string \<times> goval list"
where
  "compile_select_related d ms q m =
     bind_err (resolve_select_related ms m (q_select_related q)) (\<lambda>rels.
     bind_err (collect_err (join_clause d (d_quote d (m_table m))) rels) (\<lambda>joins.
     bind_err (compile_where d m (q_wheres q) (m_table m) 0) (\<lambda>(wh, args).
     bind_err (compile_order_by d m (q_orders q) (m_table m)) (\<lambda>order.
       Inr (''SELECT '' @ Join (joined_columns d m rels) '', '' @ '' FROM '' @ d_quote d (m_table m) @
            concat joins @ wh @ order @ compile_limit_offset (q_limit q) (q_offset q), args)))))"

definition compile_select :: "orm_db \<Rightarrow> queryset \<Rightarrow> query_error + string \<times> goval list" where
  "compile_select db q = with_model q (\<lambda>m.
     if q_select_related q \<noteq> []
     then compile_select_related (db_dialect db) (reg_models (db_registry db)) q m
     else
       (let d = db_dialect db
        in bind_err (compile_where d m (q_wheres q) [] 0) (\<lambda>(wh, args).
           bind_err (compile_order_by d m (q_orders q) []) (\<lambda>order.
             Inr (''SELECT '' @ Join (map (d_quote d) (columns m)) '', '' @ '' FROM '' @
                  d_quote d (m_table m) @ wh @ order @
                  compile_limit_offset (q_limit q) (q_offset q), args)))))"

definition compile_count :: "orm_db \<Rightarrow> queryset \<Rightarrow> query_error + string \<times> goval list" where
  "compile_count db q = with_model q (\<lambda>m.
     (let d = db_dialect db
      in bind_err (compile_where d m (q_wheres q) [] 0) (\<lambda>(wh, args).
           Inr (''SELECT COUNT(*) FROM '' @ d_quote d (m_table m) @ wh, args))))"

definition compile_delete :: "orm_db \<Rightarrow> queryset \<Rightarrow> query_error + string \<times> goval list" where
  "compile_delete db q = with_model q (\<lambda>m.
     (let d = db_dialect db
      in bind_err (compile_where d m (q_wheres q) [] 0) (\<lambda>(wh, args).
           Inr (''DELETE FROM '' @ d_quote d (m_table m) @ wh, args))))"

text \<open>The SET clauses: the i-th assignment (from 0) takes the placeholder \<open>n + i + 1\<close>.\<close>

fun compile_sets ::
  "dialect \<Rightarrow> model \<Rightarrow> nat \<Rightarrow> (string \<times> goval) list \<Rightarrow> query_error + string list"
where
  "compile_sets d m n [] = Inr []"
| "compile_sets d m n ((column, v) # as) =
     (if m_by_column m column = None then Inl (UnknownUpdateColumn column (m_name m))
      else case compile_sets d m (Suc n) as of
             Inl e \<Rightarrow> Inl e
           | Inr sets \<Rightarrow> Inr ((d_quote d column @ '' = '' @ d_placeholder d (Suc n)) # sets))"

definition compile_update ::
  "orm_db \<Rightarrow> queryset \<Rightarrow> (string \<times> goval) list \<Rightarrow> query_error + string \<times> goval list"
where
  "compile_update db q assigns = with_model q (\<lambda>m.
     (let d = db_dialect db
      in bind_err (compile_sets d m 0 assigns) (\<lambda>sets.
         bind_err (compile_where d m (q_wheres q) [] (length assigns)) (\<lambda>(wh, wArgs).
           Inr (''UPDATE '' @ d_quote d (m_table m) @ '' SET '' @ Join sets '', '' @ wh,
                map snd assigns @ wArgs)))))"

text \<open>The statement of \<open>Exists\<close> (\<open>orm/execute.go\<close>).\<close>

definition compile_exists :: "orm_db \<Rightarrow> queryset \<Rightarrow> query_error + string \<times> goval list" where
  "compile_exists db q = with_model q (\<lambda>m.
     (let d = db_dialect db
      in bind_err (compile_where d m (q_wheres q) [] 0) (\<lambda>(wh, args).
           Inr (''SELECT EXISTS(SELECT 1 FROM '' @ d_quote d (m_table m) @ wh @ '')'', args))))"

subsection \<open>Placeholders and arguments agree\<close>

declare upt_Suc [simp del]

lemma upt_single [simp]: "[n..<Suc n] = [n]"
  by (simp add: upt_Suc)

text \<open>
  In the contract of a dialect: read by the database, the placeholders of each compiled piece bind
  exactly the arguments the piece comes with, in order, whatever the names and values are.
\<close>

lemma ends_number_append: "ends_number s \<Longrightarrow> ends_number t \<Longrightarrow> ends_number (s @ t)"
  by (cases s) (simp_all add: ends_number_def)

lemma ends_number_simps [simp]:
  "ends_number []" "ends_number (c # s) \<longleftrightarrow> \<not> is_digit c"
  by (simp_all add: ends_number_def)

lemma is_digit_plain: "is_digit c \<Longrightarrow> plain_char c"
  by (auto simp: plain_char_def is_digit_def code_def)

lemma plain_itoa: "list_all plain_char (itoa i)"
proof -
  have "list_all plain_char (utoa n)" for n
    using utoa_digits [of n] by (auto simp: list_all_iff is_digit_plain)
  then show ?thesis by (simp add: itoa_def plain_char_def)
qed

lemma plain_limit_offset: "list_all plain_char (compile_limit_offset l off)"
  by (simp add: compile_limit_offset_def plain_itoa plain_char_def)

lemma ends_number_limit_offset: "ends_number (compile_limit_offset l off)"
  by (simp add: compile_limit_offset_def is_digit_def code_def)

context sql_dialect
begin

lemma bindsD: "binds s k n \<Longrightarrow> ends_number rest \<Longrightarrow> params k (s @ rest) = [k..<k + n] @ params (k + n) rest"
  by (simp add: binds_def)

lemma params_plain_append: "list_all plain_char s \<Longrightarrow> params k (s @ rest) = params k rest"
  by (induction s) (simp_all add: params_plain)

lemma params_qualify_col [simp]: "params k (qualify_col d qualify c @ rest) = params k rest"
  by (simp add: qualify_col_def params_quote params_plain plain_char_def)

lemmas read_simps = params_quote params_plain params_placeholder params_literal plain_char_def
  is_digit_def code_def

lemma params_Join_quotes:
  assumes "list_all plain_char sep" and "\<And>x rest k. x \<in> set xs \<Longrightarrow> params k (x @ rest) = params k rest"
  shows "params k (Join xs sep @ rest) = params k rest"
  using assms(2)
  by (induction xs) (auto simp: Join_Cons params_plain_append [OF assms(1)])

lemma params_Join_columns:
  "params k (Join (map (d_quote d) cs) '', '' @ rest) = params k rest"
  by (rule params_Join_quotes) (auto simp: read_simps)

lemma params_Join_placeholders:
  "ends_number rest \<Longrightarrow>
   params k (Join (map (d_placeholder d) [k..<k + n]) '', '' @ rest) = [k..<k + n] @ params (k + n) rest"
proof (induction n arbitrary: k)
  case (Suc n)
  have u: "[k..<k + Suc n] = k # [Suc k..<Suc k + n]"
    by (simp add: upt_conv_Cons)
  show ?case
  proof (cases n)
    case 0
    with Suc.prems show ?thesis by (simp add: params_placeholder upt_Suc)
  next
    case (Suc n')
    then have ne: "map (d_placeholder d) [Suc k..<Suc k + n] \<noteq> []" by simp
    have "params k (Join (map (d_placeholder d) [k..<k + Suc n]) '', '' @ rest) =
        k # params (Suc k) (Join (map (d_placeholder d) [Suc k..<Suc k + n]) '', '' @ rest)"
      unfolding u list.map Join_Cons using ne
      by (simp add: read_simps)
    with Suc.IH [OF Suc.prems, of "Suc k"] show ?thesis unfolding u by simp
  qed
qed simp

lemma params_Join_Suc:
  "ends_number rest \<Longrightarrow>
   params (Suc n) (Join (map (d_placeholder d) [Suc n..<Suc (n + l)]) '', '' @ rest) =
     [Suc n..<Suc (n + l)] @ params (Suc (n + l)) rest"
  using params_Join_placeholders [of rest "Suc n" l] by simp

lemma build_predicate_binds:
  assumes "build_predicate d m key v qualify n = Inr (sql, args, n')"
  shows "n' = n + length args \<and> binds sql (Suc n) (length args)"
  using assms unfolding build_predicate_def Let_def case_prod_beta slice_elems_def
  by (elim result_elims)
    (auto simp: binds_def read_simps like_escape_def params_Join_Suc
      split: goval.splits elim!: result_elims)

lemma where_preds_binds:
  assumes "where_preds d m qualify n ws = Inr (preds, args, n')"
  shows "n' = n + length args \<and> length preds = length ws \<and>
    (\<forall>rest. ends_number rest \<longrightarrow>
       params (Suc n) (Join preds '' AND '' @ rest) = [Suc n..<Suc n + length args] @ params (Suc n') rest)"
  using assms
proof (induction ws arbitrary: n preds args n')
  case Nil
  then show ?case by simp
next
  case (Cons w ws)
  from Cons.prems obtain pred pArgs n1 preds1 args1 where
    p: "build_predicate d m (w_key w) (w_value w) qualify n = Inr (pred, pArgs, n1)"
    and r: "where_preds d m qualify n1 ws = Inr (preds1, args1, n')"
    and eq: "preds = (if w_negate w then ''NOT ('' @ pred @ '')'' else pred) # preds1"
      "args = pArgs @ args1"
    by (auto simp: Let_def split: sum.splits prod.splits)
  from build_predicate_binds [OF p] have n1: "n1 = n + length pArgs"
    and b: "binds pred (Suc n) (length pArgs)" by auto
  from Cons.IH [OF r] have n': "n' = n1 + length args1" and len: "length preds1 = length ws"
    and j: "\<And>rest. ends_number rest \<Longrightarrow> params (Suc n1) (Join preds1 '' AND '' @ rest) =
        [Suc n1..<Suc n1 + length args1] @ params (Suc n') rest" by auto
  let ?pred = "if w_negate w then ''NOT ('' @ pred @ '')'' else pred"
  have head: "params (Suc n) (?pred @ rest) = [Suc n..<Suc n1] @ params (Suc n1) rest"
    if "ends_number rest" for rest
    using bindsD [OF b, of "CHR '')'' # rest"] bindsD [OF b that] n1
    by (simp add: read_simps)
  have cat: "[Suc n..<Suc n1] @ [Suc n1..<Suc n1 + length args1] = [Suc n..<Suc n + length args]"
    using upt_add_eq_append [of "Suc n" "Suc n1" "length args1"] n1 eq(2) by (simp add: add.assoc)
  have "params (Suc n) (Join preds '' AND '' @ rest) =
      [Suc n..<Suc n + length args] @ params (Suc n') rest" if "ends_number rest" for rest
  proof (cases "preds1 = []")
    case True
    with len r have "args1 = []" by auto
    with True head [OF that] eq n' cat show ?thesis by simp
  next
    case False
    then have "params (Suc n) (Join preds '' AND '' @ rest) =
        params (Suc n) (?pred @ '' AND '' @ Join preds1 '' AND '' @ rest)"
      by (simp add: eq Join_Cons)
    also have "\<dots> = [Suc n..<Suc n1] @ params (Suc n1) ('' AND '' @ Join preds1 '' AND '' @ rest)"
      by (rule head) (simp add: is_digit_def code_def)
    also have "\<dots> = [Suc n..<Suc n1] @ [Suc n1..<Suc n1 + length args1] @ params (Suc n') rest"
      using j [OF that] by (simp add: read_simps)
    finally show ?thesis by (metis append_assoc cat)
  qed
  with n' n1 len eq show ?case by simp
qed

lemma compile_where_binds:
  assumes "compile_where d m ws qualify n = Inr (sql, args)"
  shows "binds sql (Suc n) (length args) \<and> ends_number sql"
  using assms
  by (auto simp: compile_where_def binds_def read_simps split: if_splits sum.splits prod.splits
      dest!: where_preds_binds)

lemma compile_order_by_reads:
  assumes "compile_order_by d m os qualify = Inr sql"
  shows "params k (sql @ rest) = params k rest \<and> ends_number sql"
proof (cases "os = []")
  case True
  with assms show ?thesis by (simp add: compile_order_by_def)
next
  case False
  with assms obtain terms where t: "collect_err (compile_order_term d m qualify) os = Inr terms"
    and sql: "sql = '' ORDER BY '' @ Join terms '', ''"
    by (auto simp: compile_order_by_def split: sum.splits)
  have "params k (x @ rest) = params k rest" if "x \<in> set terms" for x k rest
    using collect_err_set [OF t that]
    by (auto simp: compile_order_term_def read_simps split: if_splits)
  then show ?thesis
    by (simp add: sql read_simps params_Join_quotes)
qed

lemmas statement_elims = bind_err_InrE

lemma tail_reads:
  assumes "compile_where d m ws qualify 0 = Inr (wh, args)"
    and "compile_order_by d m os qualify = Inr order"
  shows "params (Suc 0) (wh @ order @ compile_limit_offset l off) = [1..<Suc (length args)]"
proof -
  have e: "ends_number (order @ compile_limit_offset l off)"
    using compile_order_by_reads [OF assms(2)] ends_number_limit_offset by (intro ends_number_append) auto
  have "params (Suc 0) (wh @ order @ compile_limit_offset l off) =
      [Suc 0..<Suc 0 + length args] @ params (Suc 0 + length args) (order @ compile_limit_offset l off)"
    using compile_where_binds [OF assms(1)] e by (blast intro: bindsD)
  also have "params (Suc 0 + length args) (order @ compile_limit_offset l off) = []"
    using compile_order_by_reads [OF assms(2)] params_plain_append [OF plain_limit_offset, of _ _ _ "[]"]
    by (simp add: params_Nil)
  finally show ?thesis by simp
qed

lemma where_reads:
  assumes "compile_where d m ws qualify n = Inr (wh, args)"
  shows "params (Suc n) wh = [Suc n..<Suc n + length args]"
  using compile_where_binds [OF assms] binds_params by blast

lemma join_clause_reads:
  "join_clause d qMain r = Inr j \<Longrightarrow> (\<And>k rest. params k (qMain @ rest) = params k rest) \<Longrightarrow>
    params k (j @ rest) = params k rest"
  by (auto simp: join_clause_def read_simps split: option.splits)

lemma joins_read:
  assumes "collect_err (join_clause d (d_quote d t)) rels = Inr joins"
  shows "params k (concat joins @ rest) = params k rest"
proof -
  have "params k (j @ rest) = params k rest" if "j \<in> set joins" for j k rest
    using collect_err_set [OF assms that] by (auto intro: join_clause_reads params_quote)
  then show ?thesis by (induction joins arbitrary: k) auto
qed

lemma joined_columns_read:
  "params k (Join (joined_columns d m rels) '', '' @ rest) = params k rest"
  by (rule params_Join_quotes) (auto simp: joined_columns_def read_simps)

lemma compile_select_related_reads:
  assumes "compile_select_related d ms q m = Inr (sql, args)"
  shows "params 1 sql = [1..<Suc (length args)]"
  using assms unfolding compile_select_related_def
  by (elim statement_elims; clarify; elim statement_elims)
    (auto simp: read_simps joined_columns_read joins_read tail_reads [unfolded One_nat_def]
      elim!: statement_elims)

lemma compile_select_reads:
  assumes "compile_select db q = Inr (sql, args)" and "db_dialect db = d"
  shows "params 1 sql = [1..<Suc (length args)]"
  using assms(1) unfolding compile_select_def with_model_def Let_def assms(2)
  by (elim result_elims)
    (auto simp: read_simps params_Join_columns tail_reads [unfolded One_nat_def]
      compile_select_related_reads [unfolded One_nat_def] elim!: statement_elims)

text \<open>A statement that ends with its WHERE clause.\<close>

lemma compile_count_reads:
  assumes "compile_count db q = Inr (sql, args)" and "db_dialect db = d"
  shows "params 1 sql = [1..<Suc (length args)]"
  using assms(1) unfolding compile_count_def with_model_def Let_def assms(2)
  by (elim result_elims) (auto simp: read_simps where_reads elim!: statement_elims)

lemma compile_delete_reads:
  assumes "compile_delete db q = Inr (sql, args)" and "db_dialect db = d"
  shows "params 1 sql = [1..<Suc (length args)]"
  using assms(1) unfolding compile_delete_def with_model_def Let_def assms(2)
  by (elim result_elims) (auto simp: read_simps where_reads elim!: statement_elims)

lemma compile_exists_reads:
  assumes "compile_exists db q = Inr (sql, args)" and "db_dialect db = d"
  shows "params 1 sql = [1..<Suc (length args)]"
proof -
  have "params (Suc 0) (wh @ '')'') = [1..<Suc (length args)]"
    if "compile_where d m ws [] 0 = Inr (wh, args)" for m ws wh args
    using compile_where_binds [OF that] bindsD [of wh "Suc 0" "length args" "'')''"]
    by (simp add: read_simps params_Nil)
  with assms(1) show ?thesis
    unfolding compile_exists_def with_model_def Let_def assms(2)
    by (elim result_elims) (auto simp: read_simps elim!: statement_elims)
qed

lemma compile_sets_length: "compile_sets d m n as = Inr sets \<Longrightarrow> length sets = length as"
  by (induction d m n as arbitrary: sets rule: compile_sets.induct)
    (auto split: if_splits sum.splits)

lemma compile_sets_reads:
  "compile_sets d m n as = Inr sets \<Longrightarrow> ends_number rest \<Longrightarrow>
    params (Suc n) (Join sets '', '' @ rest) =
      [Suc n..<Suc n + length as] @ params (Suc n + length as) rest"
proof (induction "as" arbitrary: n sets)
  case (Cons a as)
  obtain column v where a: "a = (column, v)" by (cases a)
  from Cons.prems(1) obtain sets' where sets': "compile_sets d m (Suc n) as = Inr sets'"
    and sets: "sets = (d_quote d column @ '' = '' @ d_placeholder d (Suc n)) # sets'"
    by (auto simp: a split: if_splits sum.splits)
  have len: "length sets' = length as" by (rule compile_sets_length [OF sets'])
  show ?case
  proof (cases "as = []")
    case True
    with len Cons.prems(2) show ?thesis by (simp add: sets read_simps)
  next
    case False
    with len have "sets' \<noteq> []" by auto
    then show ?thesis
      using Cons.IH [OF sets' Cons.prems(2)]
      by (simp add: sets Join_Cons read_simps upt_conv_Cons)
  qed
qed simp

lemma compile_update_reads:
  assumes "compile_update db q assigns = Inr (sql, args)" and "db_dialect db = d"
  shows "params 1 sql = [1..<Suc (length args)]"
proof -
  from assms(1) obtain m sets wh wArgs where
    sets: "compile_sets d m 0 assigns = Inr sets"
    and wh: "compile_where d m (q_wheres q) [] (length assigns) = Inr (wh, wArgs)"
    and sql: "sql = ''UPDATE '' @ d_quote d (m_table m) @ '' SET '' @ Join sets '', '' @ wh"
    and args: "args = map snd assigns @ wArgs"
    unfolding compile_update_def with_model_def Let_def assms(2)
    by (elim result_elims) (auto elim!: statement_elims)
  have "params 1 sql = params (Suc 0) (Join sets '', '' @ wh)"
    by (simp add: sql read_simps)
  also have "\<dots> = [Suc 0..<Suc 0 + length assigns] @ params (Suc 0 + length assigns) wh"
    using compile_where_binds [OF wh] by (blast intro: compile_sets_reads [OF sets])
  also have "params (Suc 0 + length assigns) wh =
      [Suc (length assigns)..<Suc (length assigns) + length wArgs]"
    using where_reads [OF wh] by simp
  finally show ?thesis
    using upt_add_eq_append [of "Suc 0" "Suc (length assigns)" "length wArgs"] by (simp add: args)
qed

end

subsection \<open>Lookup keys\<close>

definition lookups :: "string list" where
  "lookups = [''exact'', ''gt'', ''gte'', ''lt'', ''lte'', ''contains'', ''icontains'',
     ''startswith'', ''endswith'', ''in'', ''isnull'']"

lemma parse_lookup_suffix:
  "lk \<in> set lookups \<Longrightarrow> parse_lookup (col @ ''__'' @ lk) = (col, lk)"
proof -
  assume "lk \<in> set lookups"
  then have "LastIndex (tl (''__'' @ lk)) ''__'' = None" by (auto simp: lookups_def)
  from LastIndex_append [OF _ this, of col] show ?thesis by (simp add: parse_lookup_def)
qed

lemma parse_lookup_plain: "LastIndex key ''__'' = None \<Longrightarrow> parse_lookup key = (key, ''exact'')"
  by (simp add: parse_lookup_def)

lemma build_predicate_known:
  assumes "build_predicate d m key v qualify n = Inr r"
  shows "m_by_column m (fst (parse_lookup key)) \<noteq> None \<and> snd (parse_lookup key) \<in> set lookups"
  using assms unfolding build_predicate_def Let_def case_prod_beta
  by (elim result_elims) (auto simp add: lookups_def)

subsection \<open>The LIKE patterns\<close>

text \<open>
  SQL's \<open>LIKE\<close> with \<open>ESCAPE '\'\<close>, over the comparison of single characters that the database uses
  (equality, or SQLite's, which ignores the case of ASCII letters).
\<close>

fun like :: "(char \<Rightarrow> char \<Rightarrow> bool) \<Rightarrow> string \<Rightarrow> string \<Rightarrow> bool" where
  "like eq [] t \<longleftrightarrow> t = []"
| "like eq (p # ps) t \<longleftrightarrow>
     (if p = backslash then
        (case ps of
           [] \<Rightarrow> False
         | e # ps' \<Rightarrow> (case t of [] \<Rightarrow> False | c # t' \<Rightarrow> eq e c \<and> like eq ps' t'))
      else if p = CHR ''%'' then
        like eq ps t \<or> (case t of [] \<Rightarrow> False | c # t' \<Rightarrow> like eq (p # ps) t')
      else if p = CHR ''_'' then (case t of [] \<Rightarrow> False | c # t' \<Rightarrow> like eq ps t')
      else (case t of [] \<Rightarrow> False | c # t' \<Rightarrow> eq p c \<and> like eq ps t'))"

definition like_special :: "char \<Rightarrow> bool" where
  "like_special c \<longleftrightarrow> c = backslash \<or> c = CHR ''%'' \<or> c = CHR ''_''"

lemma ReplaceAll_append: "ReplaceAll (s @ t) [x] new = ReplaceAll s [x] new @ ReplaceAll t [x] new"
  by (simp add: ReplaceAll_byte)

lemma escape_like_Nil [simp]: "escape_like [] = []"
  by (simp add: escape_like_def)

lemma escape_like_Cons [simp]:
  "escape_like (c # s) = (if like_special c then [backslash, c] else [c]) @ escape_like s"
  by (simp add: escape_like_def ReplaceAll_append ReplaceAll_byte like_special_def)

lemma like_escape_prefix:
  "like eq (escape_like s @ ps) t \<longleftrightarrow> (\<exists>w u. t = w @ u \<and> list_all2 eq s w \<and> like eq ps u)"
proof (induction s arbitrary: t)
  case (Cons c s)
  have "like eq (escape_like (c # s) @ ps) t \<longleftrightarrow>
      (case t of [] \<Rightarrow> False | x # t' \<Rightarrow> eq c x \<and> like eq (escape_like s @ ps) t')"
    by (auto simp: like_special_def split: list.splits)
  also have "\<dots> \<longleftrightarrow> (\<exists>w u. t = w @ u \<and> list_all2 eq (c # s) w \<and> like eq ps u)"
    by (cases t) (auto simp: Cons.IH list_all2_Cons1 Cons_eq_append_conv)
  finally show ?case .
qed simp

lemma like_percent: "like eq (CHR ''%'' # ps) t \<longleftrightarrow> (\<exists>u v. t = u @ v \<and> like eq ps v)"
proof (induction t)
  case (Cons c t)
  have "like eq (CHR ''%'' # ps) (c # t) \<longleftrightarrow> like eq ps (c # t) \<or> like eq (CHR ''%'' # ps) t"
    by simp
  with Cons show ?case by (auto simp: Cons_eq_append_conv)
qed simp

lemma like_rest: "like eq ''%'' t"
  by (induction t) auto

subsection \<open>Building a query\<close>

definition queryset_wf :: "queryset \<Rightarrow> bool" where
  "queryset_wf q \<longleftrightarrow> (q_err q = None \<longrightarrow> (\<exists>m. q_model q = Some m \<and> model_wf m))"

lemma model_of_wf: "registry_wf r \<Longrightarrow> model_of r t = Some m \<Longrightarrow> model_wf m"
  by (auto simp: model_of_def registry_wf_def split: option.splits)

lemma new_query_wf: "registry_wf (db_registry db) \<Longrightarrow> queryset_wf (new_query db t)"
  by (auto simp: new_query_def queryset_wf_def Let_def split: option.splits dest: model_of_wf)

lemma set_err_model [simp]: "q_model (set_err e q) = q_model q"
  by (simp add: set_err_def)

lemma set_err_some [simp]: "q_err (set_err e q) \<noteq> None"
  by (simp add: set_err_def)

lemma add_pairs_model [simp]: "q_model (add_pairs negate pairs q) = q_model q"
  by (induction negate pairs q rule: add_pairs.induct) (auto split: goval.splits)

lemma add_pairs_err: "q_err q = Some e \<Longrightarrow> q_err (add_pairs negate pairs q) = Some e"
  by (induction negate pairs q rule: add_pairs.induct) (auto simp: set_err_def split: goval.splits)

lemma add_wheres_model [simp]: "q_model (add_wheres negate pairs q) = q_model q"
  by (simp add: add_wheres_def)

lemma add_wheres_err: "q_err q = Some e \<Longrightarrow> q_err (add_wheres negate pairs q) = Some e"
  by (simp add: add_wheres_def add_pairs_err set_err_def)

lemma add_wheres_wf: "queryset_wf q \<Longrightarrow> queryset_wf (add_wheres negate pairs q)"
  unfolding queryset_wf_def by (metis add_wheres_err add_wheres_model not_Some_eq)

definition key_values :: "(string \<times> goval) list \<Rightarrow> goval list" where
  "key_values kvs = concat (map (\<lambda>(k, v). [VString k, v]) kvs)"

lemma length_key_values [simp]: "length (key_values kvs) = 2 * length kvs"
  by (induction kvs) (auto simp: key_values_def)

lemma add_pairs_key_values:
  "add_pairs negate (key_values kvs) q =
     q\<lparr>q_wheres := q_wheres q @
        map (\<lambda>(k, v). \<lparr>w_key = k, w_value = v, w_negate = negate\<rparr>) kvs\<rparr>"
  by (induction kvs arbitrary: q) (auto simp: key_values_def)

text \<open>The clauses that compile: a column of the model, a known lookup, and a value it takes.\<close>

definition where_ok :: "model \<Rightarrow> where_clause \<Rightarrow> bool" where
  "where_ok m w \<longleftrightarrow>
     (let (column, lookup) = parse_lookup (w_key w)
      in m_by_column m column \<noteq> None \<and> lookup \<in> set lookups \<and>
         (lookup = ''in'' \<longrightarrow> slice_elems (w_value w) \<noteq> None) \<and>
         (lookup = ''isnull'' \<longrightarrow> (\<exists>b. w_value w = VBool b)))"

lemma build_predicate_ok:
  "(\<exists>r. build_predicate d m (w_key w) (w_value w) qualify n = Inr r) \<longleftrightarrow> where_ok m w"
proof
  assume "\<exists>r. build_predicate d m (w_key w) (w_value w) qualify n = Inr r"
  then obtain r where "build_predicate d m (w_key w) (w_value w) qualify n = Inr r" ..
  then show "where_ok m w"
    unfolding build_predicate_def where_ok_def Let_def case_prod_beta
    by (elim result_elims) (auto simp: lookups_def split: goval.splits)
next
  assume "where_ok m w"
  then show "\<exists>r. build_predicate d m (w_key w) (w_value w) qualify n = Inr r"
    unfolding where_ok_def Let_def case_prod_beta build_predicate_def
    by (auto simp: lookups_def)
qed

lemma where_preds_ok: "(\<exists>r. where_preds d m qualify n ws = Inr r) \<longleftrightarrow> list_all (where_ok m) ws"
proof (induction ws arbitrary: n)
  case (Cons w ws)
  show ?case
  proof (cases "where_ok m w")
    case True
    then obtain pred pArgs n' where
      "build_predicate d m (w_key w) (w_value w) qualify n = Inr (pred, pArgs, n')"
      using build_predicate_ok by (metis prod_cases3)
    with True Cons.IH [of n'] show ?thesis by (auto simp: Let_def split: sum.splits)
  next
    case False
    with build_predicate_ok [of d m w qualify n] show ?thesis by (auto split: sum.splits)
  qed
qed simp

lemma compile_where_ok: "(\<exists>r. compile_where d m ws qualify n = Inr r) \<longleftrightarrow> list_all (where_ok m) ws"
  using where_preds_ok [of d m qualify n ws] by (auto simp: compile_where_def split: sum.splits)

lemma collect_err_ok: "(\<exists>ys. collect_err f xs = Inr ys) \<longleftrightarrow> list_all (\<lambda>x. \<exists>y. f x = Inr y) xs"
  using collect_err_total [of xs f] by (auto simp: list_all_iff collect_err_list_all2
      list_all2_conv_all_nth in_set_conv_nth)

lemma compile_order_by_ok:
  "(\<exists>s. compile_order_by d m os qualify = Inr s) \<longleftrightarrow>
     list_all (\<lambda>oc. m_by_column m (o_column oc) \<noteq> None) os"
proof -
  have "(\<exists>y. compile_order_term d m qualify oc = Inr y) \<longleftrightarrow> m_by_column m (o_column oc) \<noteq> None" for oc
    by (simp add: compile_order_term_def)
  then show ?thesis
    using collect_err_ok [of "compile_order_term d m qualify" os]
    by (auto simp: compile_order_by_def split: sum.splits)
qed

text \<open>What each statement needs beyond the model: its clauses and its ordering compile.\<close>

lemma compile_select_ok:
  assumes "q_select_related q = []"
  shows "(\<exists>r. compile_select db q = Inr r) \<longleftrightarrow>
    q_err q = None \<and> (\<exists>m. q_model q = Some m \<and> list_all (where_ok m) (q_wheres q) \<and>
      list_all (\<lambda>oc. m_by_column m (o_column oc) \<noteq> None) (q_orders q))"
proof (cases "q_err q = None \<and> q_model q \<noteq> None")
  case True
  then obtain m where m: "q_err q = None" "q_model q = Some m" by auto
  then show ?thesis
    using compile_where_ok [of "db_dialect db" m "q_wheres q" "[]" 0]
      compile_order_by_ok [of "db_dialect db" m "q_orders q" "[]"]
    by (auto simp: compile_select_def with_model_def assms Let_def bind_err_Inr_iff)
next
  case False
  then show ?thesis by (auto simp: compile_select_def with_model_def split: option.splits)
qed

subsection \<open>Properties\<close>

text \<open>The reader of placeholders of the dialect of a handle.\<close>

definition dialect_params :: "orm_db \<Rightarrow> nat \<Rightarrow> string \<Rightarrow> nat list" where
  "dialect_params db = (if d_supports_returning (db_dialect db) then postgres_params else sqlite_params)"

lemma dialect_params_cases:
  assumes "db_dialect db = sqlite \<or> db_dialect db = postgres"
  obtains "db_dialect db = sqlite" and "dialect_params db = sqlite_params"
    | "db_dialect db = postgres" and "dialect_params db = postgres_params"
  using assms by (auto simp: dialect_params_def sqlite_def postgres_def)

text \<open>The handle and the query of the witnesses.\<close>

definition blog_db :: orm_db where
  "blog_db = \<lparr>db_dialect = postgres, db_registry = linked_registry\<rparr>"

definition post_query :: queryset where
  "post_query = Limit 5 (OrderBy [''-title'']
     (Exclude [VString ''title__contains'', VString ''50%'']
       (Filter [VString ''author_id__in'', VSlice [VInt I64 3, VInt I64 4]]
         (new_query blog_db (RType ''blog'' ''Post'')))))"

lemma blog_db_dialect: "db_dialect blog_db = sqlite \<or> db_dialect blog_db = postgres"
  by (simp add: blog_db_def)

text \<open>C6: In the SELECT that a query set compiles to, joined or not, the placeholders outside quotes
  bind exactly the arguments returned with it, first to last, each once, on both dialects.\<close>

theorem select_binds_arguments:
  assumes "compile_select db q = Inr (sql, args)"
    and "db_dialect db = sqlite \<or> db_dialect db = postgres"
  shows "dialect_params db 1 sql = [1..<Suc (length args)]"
  using assms(2)
proof (cases rule: dialect_params_cases)
  case 1
  with lite.compile_select_reads [OF assms(1)] show ?thesis by simp
next
  case 2
  with pg.compile_select_reads [OF assms(1)] show ?thesis by simp
qed

lemma post_select: "\<not> isl (compile_select blog_db (select_related [''Author''] post_query))"
  by code_simp

theorem select_binds_arguments_witness:
  "dialect_params blog_db 1 (fst (projr (compile_select blog_db (select_related [''Author''] post_query)))) =
     [1..<4] \<and>
   snd (projr (compile_select blog_db (select_related [''Author''] post_query))) =
     [VInt I64 3, VInt I64 4, VString [CHR ''%'', CHR ''5'', CHR ''0'', backslash, CHR ''%'', CHR ''%'']]"
proof -
  have args: "snd (projr (compile_select blog_db (select_related [''Author''] post_query))) =
     [VInt I64 3, VInt I64 4, VString [CHR ''%'', CHR ''5'', CHR ''0'', backslash, CHR ''%'', CHR ''%'']]"
    by code_simp
  with select_binds_arguments [OF Inr_projr_split [OF post_select] blog_db_dialect]
  show ?thesis by (simp add: eval_nat_numeral)
qed

text \<open>The same holds of the UPDATE, whose SET clauses take the first placeholders and whose
  WHERE the rest, in the order of its arguments.\<close>

theorem update_binds_arguments:
  assumes "compile_update db q assigns = Inr (sql, args)"
    and "db_dialect db = sqlite \<or> db_dialect db = postgres"
  shows "dialect_params db 1 sql = [1..<Suc (length args)] \<and> take (length assigns) args = map snd assigns"
proof -
  have "take (length assigns) args = map snd assigns"
    using assms(1) unfolding compile_update_def with_model_def Let_def
    by (elim result_elims) (auto elim!: bind_err_InrE)
  with assms(2) show ?thesis
    by (cases rule: dialect_params_cases)
      (simp_all add: lite.compile_update_reads [OF assms(1)] pg.compile_update_reads [OF assms(1)]
        del: One_nat_def)
qed

lemma post_update: "\<not> isl (compile_update blog_db post_query [(''title'', VString ''x'')])"
  by code_simp

theorem update_binds_arguments_witness:
  "dialect_params blog_db 1 (fst (projr (compile_update blog_db post_query [(''title'', VString ''x'')]))) =
     [1..<5] \<and>
   length (snd (projr (compile_update blog_db post_query [(''title'', VString ''x'')]))) = 4"
proof -
  have "length (snd (projr (compile_update blog_db post_query [(''title'', VString ''x'')]))) = 4"
    by code_simp
  with update_binds_arguments [OF Inr_projr_split [OF post_update] blog_db_dialect]
  show ?thesis by (simp add: eval_nat_numeral)
qed

text \<open>The same holds of the statements of Count, Delete and Exists.\<close>

theorem count_delete_exists_bind_arguments:
  assumes "compile_count db q = Inr (sql, args) \<or> compile_delete db q = Inr (sql, args) \<or>
      compile_exists db q = Inr (sql, args)"
    and "db_dialect db = sqlite \<or> db_dialect db = postgres"
  shows "dialect_params db 1 sql = [1..<Suc (length args)]"
  using assms(2,1)
  by (cases rule: dialect_params_cases)
    (auto simp: lite.compile_count_reads lite.compile_delete_reads lite.compile_exists_reads
      pg.compile_count_reads pg.compile_delete_reads pg.compile_exists_reads simp del: One_nat_def)

lemma post_delete: "\<not> isl (compile_delete blog_db post_query)"
  by code_simp

theorem count_delete_exists_bind_arguments_witness:
  "dialect_params blog_db 1 (fst (projr (compile_delete blog_db post_query))) = [1..<4] \<and>
   length (snd (projr (compile_delete blog_db post_query))) = 3"
proof -
  have "length (snd (projr (compile_delete blog_db post_query))) = 3" by code_simp
  with count_delete_exists_bind_arguments
    [OF disjI2 [OF disjI1 [OF Inr_projr_split [OF post_delete]]] blog_db_dialect]
  show ?thesis by (simp add: eval_nat_numeral)
qed



text \<open>C9: The text lookups match literally: the pattern \<open>contains\<close>, \<open>startswith\<close> or \<open>endswith\<close> binds,
  read by LIKE with the escape the predicate names, matches a text exactly when the searched value
  occurs in it, at its start, at its end, character by character, percent signs and underscores
  included.\<close>

theorem like_lookups_match_literally:
  assumes "m_by_column m col = Some i"
  shows "\<exists>p1 p2 p3.
    build_predicate d m (col @ ''__contains'') v qualify n =
      Inr (qualify_col d qualify (f_column (m_fields m ! i)) @ '' LIKE '' @ d_placeholder d (Suc n) @
           like_escape, [VString p1], Suc n) \<and>
    build_predicate d m (col @ ''__startswith'') v qualify n =
      Inr (qualify_col d qualify (f_column (m_fields m ! i)) @ '' LIKE '' @ d_placeholder d (Suc n) @
           like_escape, [VString p2], Suc n) \<and>
    build_predicate d m (col @ ''__endswith'') v qualify n =
      Inr (qualify_col d qualify (f_column (m_fields m ! i)) @ '' LIKE '' @ d_placeholder d (Suc n) @
           like_escape, [VString p3], Suc n) \<and>
    (like eq p1 t \<longleftrightarrow> (\<exists>a w b. t = a @ w @ b \<and> list_all2 eq (sprint v) w)) \<and>
    (like eq p2 t \<longleftrightarrow> (\<exists>w b. t = w @ b \<and> list_all2 eq (sprint v) w)) \<and>
    (like eq p3 t \<longleftrightarrow> (\<exists>a w. t = a @ w \<and> list_all2 eq (sprint v) w))"
proof (intro exI conjI)
  have lk: "parse_lookup (col @ ''__contains'') = (col, ''contains'')"
    "parse_lookup (col @ ''__startswith'') = (col, ''startswith'')"
    "parse_lookup (col @ ''__endswith'') = (col, ''endswith'')"
    using parse_lookup_suffix [of "''contains''" col] parse_lookup_suffix [of "''startswith''" col]
      parse_lookup_suffix [of "''endswith''" col] by (simp_all add: lookups_def)
  let ?s = "escape_like (sprint v)"
  show "build_predicate d m (col @ ''__contains'') v qualify n =
      Inr (qualify_col d qualify (f_column (m_fields m ! i)) @ '' LIKE '' @ d_placeholder d (Suc n) @
           like_escape, [VString (''%'' @ ?s @ ''%'')], Suc n)"
    using assms by (simp add: build_predicate_def lk)
  show "build_predicate d m (col @ ''__startswith'') v qualify n =
      Inr (qualify_col d qualify (f_column (m_fields m ! i)) @ '' LIKE '' @ d_placeholder d (Suc n) @
           like_escape, [VString (?s @ ''%'')], Suc n)"
    using assms by (simp add: build_predicate_def lk)
  show "build_predicate d m (col @ ''__endswith'') v qualify n =
      Inr (qualify_col d qualify (f_column (m_fields m ! i)) @ '' LIKE '' @ d_placeholder d (Suc n) @
           like_escape, [VString (''%'' @ ?s)], Suc n)"
    using assms by (simp add: build_predicate_def lk)
  have exact: "like eq (?s @ []) u \<longleftrightarrow> list_all2 eq (sprint v) u" for u
    by (simp only: like_escape_prefix like.simps(1)) auto
  have prefix: "like eq (?s @ ''%'') u \<longleftrightarrow> (\<exists>w b. u = w @ b \<and> list_all2 eq (sprint v) w)" for u
    by (simp only: like_escape_prefix like_rest simp_thms)
  have somewhere: "like eq (''%'' @ p) t \<longleftrightarrow> (\<exists>a u. t = a @ u \<and> like eq p u)" for p
    by (simp only: append_Cons append_Nil like_percent)
  show "like eq (''%'' @ ?s @ ''%'') t \<longleftrightarrow> (\<exists>a w b. t = a @ w @ b \<and> list_all2 eq (sprint v) w)"
    by (simp only: somewhere prefix) blast
  show "like eq (?s @ ''%'') t \<longleftrightarrow> (\<exists>w b. t = w @ b \<and> list_all2 eq (sprint v) w)"
    by (rule prefix)
  show "like eq (''%'' @ ?s) t \<longleftrightarrow> (\<exists>a w. t = a @ w \<and> list_all2 eq (sprint v) w)"
    using exact by (simp only: somewhere append_Nil2)
qed

theorem like_lookups_match_literally_witness:
  "\<exists>m p. q_model post_query = Some m \<and>
     build_predicate sqlite m ''title__contains'' (VString ''50%'') [] 0 =
       Inr (qualify_col sqlite [] ''title'' @ '' LIKE '' @ d_placeholder sqlite (Suc 0) @ like_escape,
            [VString p], Suc 0) \<and>
     \<not> like (=) p ''500''"
proof -
  define m where "m = the (q_model post_query)"
  have "\<not> Option.is_none (q_model post_query)" by code_simp
  then have m: "q_model post_query = Some m"
    by (simp add: m_def Option.is_none_def)
  have title: "m_by_column m ''title'' = Some 1" "f_column (m_fields m ! 1) = ''title''"
    unfolding m_def by code_simp+
  have no: "\<not> (\<exists>a w b. ''500'' = a @ w @ b \<and> list_all2 (=) (sprint (VString ''50%'')) w)"
  proof (intro notI, elim exE conjE)
    fix a w b
    assume "''500'' = a @ w @ b" and "list_all2 (=) (sprint (VString ''50%'')) w"
    then have "''500'' = a @ ''50%'' @ b" by (simp only: list.rel_eq sprint.simps)
    then have "set ''500'' = set a \<union> set ''50%'' \<union> set b" by (metis set_append Un_assoc)
    then have "CHR ''%'' \<in> set ''500''" by simp
    then show False by simp
  qed
  from like_lookups_match_literally [OF title(1), of sqlite "VString ''50%''" "[]" 0 "(=)" "''500''"]
  obtain p where
    "build_predicate sqlite m (''title'' @ ''__contains'') (VString ''50%'') [] 0 =
       Inr (qualify_col sqlite [] (f_column (m_fields m ! 1)) @ '' LIKE '' @
            d_placeholder sqlite (Suc 0) @ like_escape, [VString p], Suc 0)"
    and "like (=) p ''500'' \<longleftrightarrow>
      (\<exists>a w b. ''500'' = a @ w @ b \<and> list_all2 (=) (sprint (VString ''50%'')) w)"
    by (elim exE conjE)
  with m no title(2) show ?thesis by (intro exI [of _ m] exI [of _ p]) simp
qed

text \<open>Filter and Exclude with keys and values append one clause for each pair, in order, and
  leave the rest of the query set as it was; an odd argument list, or a key that is not a string,
  records an error unless there is one already, and from then on nothing compiles.\<close>

theorem filter_appends_clauses:
  "Filter (key_values kvs) q =
     q\<lparr>q_wheres := q_wheres q @ map (\<lambda>(k, v). \<lparr>w_key = k, w_value = v, w_negate = False\<rparr>) kvs\<rparr> \<and>
   Exclude (key_values kvs) q =
     q\<lparr>q_wheres := q_wheres q @ map (\<lambda>(k, v). \<lparr>w_key = k, w_value = v, w_negate = True\<rparr>) kvs\<rparr> \<and>
   q_err (Filter (key_values kvs @ [v]) q) = Some (case q_err q of None \<Rightarrow> BadFilterPairs | Some e \<Rightarrow> e) \<and>
   compile_select db (Filter (key_values kvs @ [v]) q) =
     Inl (case q_err q of None \<Rightarrow> BadFilterPairs | Some e \<Rightarrow> e)"
proof -
  have "q_err (Filter (key_values kvs @ [v]) q) = Some (case q_err q of None \<Rightarrow> BadFilterPairs | Some e \<Rightarrow> e)"
    by (auto simp: Filter_def add_wheres_def set_err_def split: option.splits)
  then show ?thesis
    by (simp add: Filter_def Exclude_def add_wheres_def add_pairs_key_values compile_select_def
        with_model_def)
qed

end
