(* ===== verification/Orm_Rows.thy ===== *)
theory Orm_Rows
  imports Orm_Query Orm_Transaction
begin

text \<open>
  What becomes of a row of a result: \<open>rows.Scan\<close> of \<open>database/sql\<close> into struct fields, \<open>FK[T]\<close> with its
  \<open>Scan\<close> and \<open>Value\<close> (\<open>orm/relations.go\<close>), \<open>assignScanned\<close> and \<open>asInt64\<close> (\<open>orm/selectrelated.go\<close>),
  \<open>scanRows\<close>, \<open>scanRowsJoined\<close> and \<open>attachJoined\<close> (\<open>orm/execute.go\<close>). A struct type is known by its
  layout, the types of its fields; an instance is the list of its field values.
\<close>

subsection \<open>Foreign keys\<close>

datatype scan_error =
    NullUnsupported gotype
  | BadSyntax gotype string
  | UnsupportedScan gotype goval
  | WrongColumns nat nat
  | FkParse string
  | FkUnsupported goval

text \<open>The object of an \<open>FK[T]\<close> is never a nil pointer here: a loaded one is \<open>Some\<close>.\<close>

fun fk_pk :: "goval \<Rightarrow> int" where
  "fk_pk (VFK pk obj) = pk"
| "fk_pk _ = 0"

fun fk_object :: "goval \<Rightarrow> goval list option" where
  "fk_object (VFK pk obj) = obj"
| "fk_object _ = None"

definition fk_set_pk :: "int \<Rightarrow> goval \<Rightarrow> goval" where
  "fk_set_pk pk v = VFK pk None"

definition fk_set_object :: "goval list \<Rightarrow> int \<Rightarrow> goval \<Rightarrow> goval" where
  "fk_set_object obj pk v = VFK pk (Some obj)"

definition fk_parse :: "string \<Rightarrow> scan_error + goval" where
  "fk_parse s = (case parse_int64 s of None \<Rightarrow> Inl (FkParse s) | Some n \<Rightarrow> Inr (VFK n None))"

definition fk_scan :: "goval \<Rightarrow> scan_error + goval" where
  "fk_scan src =
     (case src of
        VNil \<Rightarrow> Inr (VFK 0 None)
      | VInt k n \<Rightarrow> if k = I64 \<or> k = IInt \<or> k = I32 then Inr (VFK n None) else Inl (FkUnsupported src)
      | VBytes s \<Rightarrow> fk_parse s
      | VString s \<Rightarrow> fk_parse s
      | _ \<Rightarrow> Inl (FkUnsupported src))"

definition fk_value :: "goval \<Rightarrow> goval" where
  "fk_value v = (if fk_pk v = 0 then VNil else VInt I64 (fk_pk v))"

subsection \<open>Scanning a column\<close>

text \<open>
  \<open>convertAssign\<close> of \<open>database/sql\<close> for the field types a model can have. A float is read by its
  printed form.
\<close>

definition time_rfc3339 :: "gotime \<Rightarrow> string" where
  "time_rfc3339 t =
     pad_year (t_year t) @ ''-'' @ pad 2 (t_month t) @ ''-'' @ pad 2 (t_day t) @ ''T'' @
     pad 2 (t_hour t) @ '':'' @ pad 2 (t_minute t) @ '':'' @ pad 2 (t_second t) @
     frac_string (t_nano t) @
     (if t_zone t = 0 then ''Z''
      else (if t_zone t < 0 then ''-'' else ''+'') @ pad 2 (nat \<bar>t_zone t\<bar> div 60) @ '':'' @
           pad 2 (nat \<bar>t_zone t\<bar> mod 60))"

definition as_string :: "goval \<Rightarrow> string" where
  "as_string v = (case v of VBytes s \<Rightarrow> s | _ \<Rightarrow> sprint v)"

definition parse_bool :: "string \<Rightarrow> bool option" where
  "parse_bool s =
     (if s \<in> set [''1'', ''t'', ''T'', ''TRUE'', ''true'', ''True''] then Some True
      else if s \<in> set [''0'', ''f'', ''F'', ''FALSE'', ''false'', ''False''] then Some False
      else None)"

definition parse_int :: "ikind \<Rightarrow> string \<Rightarrow> int option" where
  "parse_int k s =
     (case parse_int64 s of
        None \<Rightarrow> None
      | Some n \<Rightarrow> if wrap_int k n = n then Some n else None)"

definition parse_uint :: "ikind \<Rightarrow> string \<Rightarrow> int option" where
  "parse_uint k s =
     (if s \<noteq> [] \<and> list_all is_digit s \<and> digits_val s < 2 ^ ibits k then Some (int (digits_val s))
      else None)"

definition scan_string :: "goval \<Rightarrow> scan_error + goval" where
  "scan_string v =
     (case v of
        VTime t \<Rightarrow> Inr (VString (time_rfc3339 t))
      | VNil \<Rightarrow> Inl (NullUnsupported TString)
      | VFK pk obj \<Rightarrow> Inl (UnsupportedScan TString v)
      | VSlice vs \<Rightarrow> Inl (UnsupportedScan TString v)
      | VOther ty s \<Rightarrow> Inl (UnsupportedScan TString v)
      | _ \<Rightarrow> Inr (VString (as_string v)))"

definition scan_bool :: "goval \<Rightarrow> scan_error + goval" where
  "scan_bool v =
     (let parsed = (\<lambda>s. case parse_bool s of
                       None \<Rightarrow> Inl (BadSyntax TBool s) | Some b \<Rightarrow> Inr (VBool b));
          num = (\<lambda>n. if n = 1 then Inr (VBool True) else if n = 0 then Inr (VBool False)
                     else Inl (UnsupportedScan TBool v))
      in case v of
           VBool b \<Rightarrow> Inr (VBool b)
         | VString s \<Rightarrow> parsed s
         | VBytes s \<Rightarrow> parsed s
         | VInt k n \<Rightarrow> num n
         | VUint k n \<Rightarrow> num n
         | _ \<Rightarrow> Inl (UnsupportedScan TBool v))"

definition scan_int :: "ikind \<Rightarrow> goval \<Rightarrow> scan_error + goval" where
  "scan_int k v =
     (case v of
        VNil \<Rightarrow> Inl (NullUnsupported (TInt k))
      | _ \<Rightarrow>
          (case parse_int k (as_string v) of
             None \<Rightarrow> Inl (BadSyntax (TInt k) (as_string v))
           | Some n \<Rightarrow> Inr (VInt k n)))"

definition scan_uint :: "ikind \<Rightarrow> goval \<Rightarrow> scan_error + goval" where
  "scan_uint k v =
     (case v of
        VNil \<Rightarrow> Inl (NullUnsupported (TUint k))
      | _ \<Rightarrow>
          (case parse_uint k (as_string v) of
             None \<Rightarrow> Inl (BadSyntax (TUint k) (as_string v))
           | Some n \<Rightarrow> Inr (VUint k n)))"

definition scan_value :: "gotype \<Rightarrow> goval \<Rightarrow> scan_error + goval" where
  "scan_value t v =
     (case t of
        TString \<Rightarrow> scan_string v
      | TBool \<Rightarrow> scan_bool v
      | TInt k \<Rightarrow> scan_int k v
      | TUint k \<Rightarrow> scan_uint k v
      | TTime \<Rightarrow> (case v of VTime x \<Rightarrow> Inr (VTime x) | _ \<Rightarrow> Inl (UnsupportedScan TTime v))
      | TFK r \<Rightarrow> fk_scan v
      | _ \<Rightarrow> Inl (UnsupportedScan t v))"

subsection \<open>Scanning a row\<close>

definition zero_struct :: "gotype list \<Rightarrow> struct_val" where
  "zero_struct layout = map zero_val layout"

text \<open>\<open>rows.Scan\<close>: the columns go to the fields of the model, in its order.\<close>

fun scan_fields :: "gotype list \<Rightarrow> field list \<Rightarrow> goval list \<Rightarrow> struct_val \<Rightarrow> scan_error + struct_val" where
  "scan_fields layout (f # fs) (v # vs) obj =
     (case scan_value (layout ! f_index f) v of
        Inl e \<Rightarrow> Inl e
      | Inr x \<Rightarrow> scan_fields layout fs vs (obj[f_index f := x]))"
| "scan_fields layout fs vs obj = Inr obj"

definition scan_row :: "gotype list \<Rightarrow> model \<Rightarrow> goval list \<Rightarrow> scan_error + struct_val" where
  "scan_row layout m row =
     (if length row \<noteq> length (m_fields m) then Inl (WrongColumns (length row) (length (m_fields m)))
      else scan_fields layout (m_fields m) row (zero_struct layout))"

datatype rows_error = RowError scan_error | AttachError attach_error | RowsErr string
  and attach_error =
    NoPrimaryKeyColumn string
  | CannotCoerce goval
  | CannotAssign goval gotype
  | UnsupportedKind gotype
  | NoSetObject string

definition finish_rows :: "query_rows \<Rightarrow> rows_error + 'a \<Rightarrow> rows_error + 'a" where
  "finish_rows q r =
     (case r of
        Inl e \<Rightarrow> Inl e
      | Inr out \<Rightarrow> (case qr_err q of Some e \<Rightarrow> Inl (RowsErr e) | None \<Rightarrow> Inr out))"

definition map_inl :: "('e \<Rightarrow> 'f) \<Rightarrow> 'e + 'a \<Rightarrow> 'f + 'a" where
  "map_inl h r = (case r of Inl e \<Rightarrow> Inl (h e) | Inr x \<Rightarrow> Inr x)"

definition scan_rows :: "gotype list \<Rightarrow> model \<Rightarrow> query_rows \<Rightarrow> rows_error + struct_val list" where
  "scan_rows layout m q =
     finish_rows q (collect_err (\<lambda>row. map_inl RowError (scan_row layout m row)) (qr_rows q))"

subsection \<open>Joined rows\<close>

definition as_int64 :: "goval \<Rightarrow> attach_error + int" where
  "as_int64 v =
     (case v of
        VInt k n \<Rightarrow> if k = I64 \<or> k = I32 \<or> k = IInt then Inr n else Inl (CannotCoerce v)
      | _ \<Rightarrow> Inl (CannotCoerce v))"

definition assign_scanned :: "gotype \<Rightarrow> goval \<Rightarrow> goval \<Rightarrow> attach_error + goval" where
  "assign_scanned t dst v =
     (case v of
        VNil \<Rightarrow> Inr dst
      | VTime x \<Rightarrow> if t = TTime then Inr (VTime x) else Inl (CannotAssign v t)
      | _ \<Rightarrow>
          (case t of
             TInt k \<Rightarrow> bind_err (as_int64 v) (\<lambda>i. Inr (VInt k (wrap_int k i)))
           | TUint k \<Rightarrow> bind_err (as_int64 v) (\<lambda>i. Inr (VUint k (wrap_uint k i)))
           | TBool \<Rightarrow> (case v of VBool b \<Rightarrow> Inr (VBool b) | _ \<Rightarrow> Inl (CannotAssign v t))
           | TString \<Rightarrow>
               (case v of
                  VString s \<Rightarrow> Inr (VString s)
                | VBytes s \<Rightarrow> Inr (VString s)
                | _ \<Rightarrow> Inl (CannotAssign v t))
           | _ \<Rightarrow> Inl (UnsupportedKind t)))"

fun assign_fields :: "gotype list \<Rightarrow> field list \<Rightarrow> goval list \<Rightarrow> struct_val \<Rightarrow> attach_error + struct_val" where
  "assign_fields layout (f # fs) (v # vs) obj =
     (case assign_scanned (layout ! f_index f) (obj ! f_index f) v of
        Inl e \<Rightarrow> Inl e
      | Inr x \<Rightarrow> assign_fields layout fs vs (obj[f_index f := x]))"
| "assign_fields layout fs vs obj = Inr obj"

type_synonym layouts = "rtype \<Rightarrow> gotype list"

text \<open>
  \<open>attachJoined\<close>: the holders of one joined model, in the order of its fields. The first field that is
  the primary key is the one at its position.
\<close>

definition attach_joined ::
  "layouts \<Rightarrow> model \<Rightarrow> struct_val \<Rightarrow> joined_rel \<times> goval list \<Rightarrow> attach_error + struct_val"
where
  "attach_joined layouts m main = (\<lambda>(r, holders).
     let target = jr_target r in
     case m_pk target of
       None \<Rightarrow> Inl (NoPrimaryKeyColumn (m_name target))
     | Some pkColIdx \<Rightarrow>
         (let pkVal = holders ! pkColIdx in
          if pkVal = VNil then Inr main
          else
            bind_err (as_int64 pkVal) (\<lambda>pkInt.
            bind_err (assign_fields (layouts (m_go_type target)) (m_fields target) holders
                        (zero_struct (layouts (m_go_type target)))) (\<lambda>tgt.
              (let i = f_index (jr_field r) in
               case main ! i of
                 VFK pk obj \<Rightarrow> Inr (main[i := fk_set_object tgt pkInt (main ! i)])
               | _ \<Rightarrow> Inl (NoSetObject (f_name (jr_field r))))))))"

text \<open>The columns of a joined row, cut at the number of fields of each target.\<close>

fun split_holders :: "joined_rel list \<Rightarrow> goval list \<Rightarrow> (joined_rel \<times> goval list) list" where
  "split_holders [] vs = []"
| "split_holders (r # rs) vs =
     (r, take (length (m_fields (jr_target r))) vs) #
     split_holders rs (drop (length (m_fields (jr_target r))) vs)"

definition joined_width :: "model \<Rightarrow> joined_rel list \<Rightarrow> nat" where
  "joined_width m rels = length (m_fields m) + sum_list (map (\<lambda>r. length (m_fields (jr_target r))) rels)"

definition scan_row_joined ::
  "layouts \<Rightarrow> model \<Rightarrow> joined_rel list \<Rightarrow> goval list \<Rightarrow> rows_error + struct_val"
where
  "scan_row_joined layouts m rels row =
     (let layout = layouts (m_go_type m); n = length (m_fields m) in
      if length row \<noteq> joined_width m rels then Inl (RowError (WrongColumns (length row) (joined_width m rels)))
      else
        bind_err (map_inl RowError (scan_fields layout (m_fields m) (take n row) (zero_struct layout))) (\<lambda>main.
          map_inl AttachError
            (loop_err (attach_joined layouts m) main (split_holders rels (drop n row)))))"

definition scan_rows_joined ::
  "layouts \<Rightarrow> model \<Rightarrow> joined_rel list \<Rightarrow> query_rows \<Rightarrow> rows_error + struct_val list"
where
  "scan_rows_joined layouts m rels q =
     finish_rows q (collect_err (scan_row_joined layouts m rels) (qr_rows q))"

subsection \<open>Typed rows\<close>

text \<open>What a driver hands over (\<open>driver.Value\<close>): among integers, only \<open>int64\<close>.\<close>

definition driver_value :: "goval \<Rightarrow> bool" where
  "driver_value v \<longleftrightarrow>
     (case v of
        VInt k n \<Rightarrow> k = I64 \<and> int64_range n
      | VUint k n \<Rightarrow> False
      | VFK pk obj \<Rightarrow> False
      | VSlice vs \<Rightarrow> False
      | VOther ty s \<Rightarrow> False
      | _ \<Rightarrow> True)"

definition driver_rows :: "query_rows \<Rightarrow> bool" where
  "driver_rows q \<longleftrightarrow> (\<forall>row \<in> set (qr_rows q). \<forall>v \<in> set row. driver_value v)"

text \<open>An instance of a struct: one value of its type for each field.\<close>

definition instance_of :: "struct_val \<Rightarrow> gotype list \<Rightarrow> bool" where
  "instance_of obj layout \<longleftrightarrow> list_all2 has_type obj layout"

definition in_layout :: "gotype list \<Rightarrow> model \<Rightarrow> bool" where
  "in_layout layout m \<longleftrightarrow> (\<forall>f \<in> set (m_fields m). f_index f < length layout)"

lemma instance_of_zero [simp]: "instance_of (zero_struct layout) layout"
  by (simp add: instance_of_def zero_struct_def list_all2_conv_all_nth)

lemma instance_of_update:
  "instance_of obj layout \<Longrightarrow> i < length layout \<Longrightarrow> has_type x (layout ! i) \<Longrightarrow> instance_of (obj[i := x]) layout"
  by (auto simp: instance_of_def list_all2_conv_all_nth nth_list_update)

lemma instance_of_nth: "instance_of obj layout \<Longrightarrow> i < length layout \<Longrightarrow> has_type (obj ! i) (layout ! i)"
  by (simp add: instance_of_def list_all2_conv_all_nth)

lemma has_type_simps [simp]:
  "has_type (VString s) TString" "has_type (VBool b) TBool" "has_type (VTime x) TTime"
  "has_type (VInt k (wrap_int k i)) (TInt k)" "has_type (VUint k (wrap_uint k i)) (TUint k)"
  "has_type (VFK pk obj) (TFK r) \<longleftrightarrow> int64_range pk"
  by (simp_all add: has_type_def wrap_int_def wrap_uint_def)

lemma parse_int_range: "parse_int k s = Some n \<Longrightarrow> has_type (VInt k n) (TInt k)"
  by (auto simp: parse_int_def has_type_def split: option.splits if_splits)

lemma parse_uint_range: "parse_uint k s = Some n \<Longrightarrow> has_type (VUint k n) (TUint k)"
  by (auto simp: parse_uint_def has_type_def wrap_uint_def take_bit_int_eq_self_iff split: if_splits)

lemma fk_scan_range:
  "fk_scan v = Inr x \<Longrightarrow> driver_value v \<Longrightarrow> has_type x (TFK r)"
  by (auto simp: fk_scan_def fk_parse_def driver_value_def int64_range_def
      split: goval.splits if_splits option.splits dest: parse_int64_range)

lemma scan_string_type: "scan_string v = Inr x \<Longrightarrow> has_type x TString"
  by (auto simp: scan_string_def split: goval.splits)

lemma scan_bool_type: "scan_bool v = Inr x \<Longrightarrow> has_type x TBool"
  by (auto simp: scan_bool_def Let_def split: goval.splits if_splits option.splits)

lemma scan_int_type: "scan_int k v = Inr x \<Longrightarrow> has_type x (TInt k)"
  by (auto simp: scan_int_def split: goval.splits option.splits dest: parse_int_range)

lemma scan_uint_type: "scan_uint k v = Inr x \<Longrightarrow> has_type x (TUint k)"
  by (auto simp: scan_uint_def split: goval.splits option.splits dest: parse_uint_range)

lemma scan_value_type:
  "scan_value t v = Inr x \<Longrightarrow> driver_value v \<Longrightarrow> has_type x t"
  by (auto simp: scan_value_def split: gotype.splits goval.splits
      dest: scan_string_type scan_bool_type scan_int_type scan_uint_type fk_scan_range)

lemma scan_fields_type:
  "scan_fields layout fs vs obj = Inr obj' \<Longrightarrow> instance_of obj layout \<Longrightarrow>
    \<forall>f \<in> set fs. f_index f < length layout \<Longrightarrow> \<forall>v \<in> set vs. driver_value v \<Longrightarrow> instance_of obj' layout"
  by (induction layout fs vs obj rule: scan_fields.induct)
    (auto split: sum.splits intro: instance_of_update scan_value_type)

text \<open>The value of every column, when the fields have places of their own.\<close>

lemma scan_fields_nth:
  "scan_fields layout fs row obj = Inr obj' \<Longrightarrow> length row = length fs \<Longrightarrow> distinct (map f_index fs) \<Longrightarrow>
   \<forall>f \<in> set fs. f_index f < length obj \<Longrightarrow>
   (\<forall>j < length fs. scan_value (layout ! f_index (fs ! j)) (row ! j) = Inr (obj' ! f_index (fs ! j))) \<and>
   (\<forall>i. i \<notin> f_index ` set fs \<longrightarrow> obj' ! i = obj ! i)"
proof (induction layout fs row obj rule: scan_fields.induct)
  case (1 layout f fs v vs obj)
  from 1(2) obtain x where x: "scan_value (layout ! f_index f) v = Inr x"
    and rest: "scan_fields layout fs vs (obj[f_index f := x]) = Inr obj'"
    by (auto split: sum.splits)
  from 1(1) [OF x rest] 1(3-5) have
    "\<forall>j < length fs. scan_value (layout ! f_index (fs ! j)) (vs ! j) = Inr (obj' ! f_index (fs ! j))"
    "\<forall>i. i \<notin> f_index ` set fs \<longrightarrow> obj' ! i = obj[f_index f := x] ! i" by auto
  with x 1(4,5) show ?case by (auto simp: nth_Cons split: nat.splits)
qed auto

lemma scan_row_nth:
  assumes "scan_row layout m row = Inr obj" and "distinct (map f_index (m_fields m))"
    and "in_layout layout m" and "j < length (m_fields m)"
  shows "scan_value (layout ! f_index (m_fields m ! j)) (row ! j) = Inr (obj ! f_index (m_fields m ! j))"
  using assms scan_fields_nth [of layout "m_fields m" row "zero_struct layout" obj]
  by (auto simp: scan_row_def in_layout_def zero_struct_def split: if_splits)

lemma scan_row_type:
  "scan_row layout m row = Inr obj \<Longrightarrow> in_layout layout m \<Longrightarrow> \<forall>v \<in> set row. driver_value v \<Longrightarrow>
    instance_of obj layout"
  by (auto simp: scan_row_def in_layout_def split: if_splits intro: scan_fields_type)

lemma finish_rows_Inr: "finish_rows q r = Inr out \<longleftrightarrow> r = Inr out \<and> qr_err q = None"
  by (auto simp: finish_rows_def split: sum.splits option.splits)

lemma map_inl_Inr [simp]: "map_inl h r = Inr x \<longleftrightarrow> r = Inr x"
  by (cases r) (auto simp: map_inl_def)

lemma map_inl_simps [simp]: "map_inl h (Inl e) = Inl (h e)" "map_inl h (Inr x) = Inr x"
  by (simp_all add: map_inl_def)

lemma scan_rows_type:
  assumes "scan_rows layout m q = Inr objs" and "in_layout layout m" and "driver_rows q"
    and "obj \<in> set objs"
  shows "instance_of obj layout"
proof -
  from assms(1) have "collect_err (\<lambda>row. map_inl RowError (scan_row layout m row)) (qr_rows q) = Inr objs"
    by (simp add: scan_rows_def finish_rows_Inr)
  from collect_err_set [OF this assms(4)] obtain row where "row \<in> set (qr_rows q)"
    and "scan_row layout m row = Inr obj" by auto
  with assms(2,3) show ?thesis by (auto simp: driver_rows_def intro: scan_row_type)
qed

text \<open>Joined rows: the main instance keeps its types, and a loaded object is an instance of its own.\<close>

lemma as_int64_range: "as_int64 v = Inr n \<Longrightarrow> driver_value v \<Longrightarrow> int64_range n"
  by (auto simp: as_int64_def driver_value_def split: goval.splits if_splits)

lemma assign_scanned_type:
  "assign_scanned t dst v = Inr x \<Longrightarrow> has_type dst t \<Longrightarrow> has_type x t"
  by (auto simp: assign_scanned_def as_int64_def split: goval.splits gotype.splits if_splits)

lemma assign_fields_type:
  "assign_fields layout fs vs obj = Inr obj' \<Longrightarrow> instance_of obj layout \<Longrightarrow>
    \<forall>f \<in> set fs. f_index f < length layout \<Longrightarrow> instance_of obj' layout"
  by (induction layout fs vs obj rule: assign_fields.induct)
    (auto split: sum.splits intro: instance_of_update assign_scanned_type instance_of_nth)

lemma attach_joined_type:
  assumes "attach_joined layouts m main (r, holders) = Inr main'" and "instance_of main (layouts (m_go_type m))"
    and "\<forall>v \<in> set holders. driver_value v" and "length holders = length (m_fields (jr_target r))"
    and "model_wf (jr_target r)" and "f_index (jr_field r) < length (layouts (m_go_type m))"
  shows "instance_of main' (layouts (m_go_type m))"
proof -
  let ?i = "f_index (jr_field r)"
  from assms(5) obtain pk where pk: "m_pk (jr_target r) = Some pk" "pk < length (m_fields (jr_target r))"
    by (auto simp: model_wf_def pk_wf_def)
  with assms(3,4) have "driver_value (holders ! pk)" by simp
  moreover have "has_type (main ! ?i) (layouts (m_go_type m) ! ?i)"
    using assms(2,6) by (rule instance_of_nth)
  ultimately show ?thesis
    using assms(1,2,6) unfolding attach_joined_def prod.case Let_def pk(1)
    by (auto simp: fk_set_object_def bind_err_Inr_iff has_type_def
        split: if_splits goval.splits gotype.splits dest: as_int64_range intro!: instance_of_update)
qed

lemma set_split_holders:
  "(r, holders) \<in> set (split_holders rels vs) \<Longrightarrow>
     r \<in> set rels \<and> set holders \<subseteq> set vs \<and>
     (length vs = sum_list (map (\<lambda>r. length (m_fields (jr_target r))) rels) \<longrightarrow>
        length holders = length (m_fields (jr_target r)))"
proof (induction rels vs rule: split_holders.induct)
  case (2 r' rs vs)
  then show ?case by (auto dest: in_set_takeD in_set_dropD)
qed simp

definition rel_in_layout :: "gotype list \<Rightarrow> joined_rel \<Rightarrow> bool" where
  "rel_in_layout layout r \<longleftrightarrow> model_wf (jr_target r) \<and> f_index (jr_field r) < length layout"

lemma scan_row_joined_type:
  assumes "scan_row_joined layouts m rels row = Inr obj" and "in_layout (layouts (m_go_type m)) m"
    and "\<forall>v \<in> set row. driver_value v" and "\<forall>r \<in> set rels. rel_in_layout (layouts (m_go_type m)) r"
  shows "instance_of obj (layouts (m_go_type m))"
proof -
  let ?n = "length (m_fields m)" and ?L = "layouts (m_go_type m)"
  from assms(1) obtain main where len: "length row = joined_width m rels"
    and main: "scan_fields ?L (m_fields m) (take ?n row) (zero_struct ?L) = Inr main"
    and obj: "loop_err (attach_joined layouts m) main (split_holders rels (drop ?n row)) = Inr obj"
    by (auto simp: scan_row_joined_def Let_def bind_err_Inr_iff split: if_splits)
  have "instance_of main ?L"
    using scan_fields_type [OF main] assms(2,3) by (auto simp: in_layout_def dest: in_set_takeD)
  with obj show ?thesis
  proof (rule loop_err_invariant)
    fix s x s'
    assume x: "x \<in> set (split_holders rels (drop ?n row))" and s: "instance_of s ?L"
      and a: "attach_joined layouts m s x = Inr s'"
    obtain r holders where rh: "x = (r, holders)" by (cases x)
    from set_split_holders [of r holders] x rh len
    have r: "r \<in> set rels" and h: "set holders \<subseteq> set row"
      and l: "length holders = length (m_fields (jr_target r))"
      by (auto simp: joined_width_def dest: in_set_dropD)
    from h assms(3) have d: "\<forall>v \<in> set holders. driver_value v" by blast
    from r assms(4) have "model_wf (jr_target r)" "f_index (jr_field r) < length ?L"
      by (auto simp: rel_in_layout_def)
    with a s d l show "instance_of s' ?L" unfolding rh by (rule attach_joined_type)
  qed
qed

lemma scan_rows_joined_type:
  assumes "scan_rows_joined layouts m rels q = Inr objs" and "in_layout (layouts (m_go_type m)) m"
    and "driver_rows q" and "\<forall>r \<in> set rels. rel_in_layout (layouts (m_go_type m)) r" and "obj \<in> set objs"
  shows "instance_of obj (layouts (m_go_type m))"
proof -
  from assms(1) have "collect_err (scan_row_joined layouts m rels) (qr_rows q) = Inr objs"
    by (simp add: scan_rows_joined_def finish_rows_Inr)
  from collect_err_set [OF this assms(5)] obtain row where "row \<in> set (qr_rows q)"
    and "scan_row_joined layouts m rels row = Inr obj" by auto
  with assms(2-4) show ?thesis by (auto simp: driver_rows_def intro: scan_row_joined_type)
qed

subsection \<open>Layouts of registered models\<close>

text \<open>The layout of a struct type, and that every field of its model has a place there of a fitting type.\<close>

definition struct_layout :: "struct_type \<Rightarrow> gotype list" where
  "struct_layout st = map sf_type (st_fields st)"

definition kind_fits :: "gotype \<Rightarrow> field \<Rightarrow> bool" where
  "kind_fits t f \<longleftrightarrow>
     (f_rel f \<noteq> None \<longleftrightarrow> (case t of TFK r \<Rightarrow> True | _ \<Rightarrow> False)) \<and>
     (case t of
        TString \<Rightarrow> f_kind f = KindChar \<or> f_kind f = KindText
      | TInt k \<Rightarrow> f_kind f = KindInt \<or> f_kind f = KindAuto
      | TUint k \<Rightarrow> f_kind f = KindInt \<or> f_kind f = KindAuto
      | TBool \<Rightarrow> f_kind f = KindBool
      | TTime \<Rightarrow> f_kind f = KindDateTime
      | TFK r \<Rightarrow> f_kind f = KindInt \<or> f_kind f = KindAuto
      | _ \<Rightarrow> False)"

definition model_fits :: "gotype list \<Rightarrow> model \<Rightarrow> bool" where
  "model_fits layout m \<longleftrightarrow>
     distinct (map f_index (m_fields m)) \<and>
     (\<forall>f \<in> set (m_fields m). f_index f < length layout \<and> kind_fits (layout ! f_index f) f)"

lemma model_fits_in_layout: "model_fits layout m \<Longrightarrow> in_layout layout m"
  by (simp add: model_fits_def in_layout_def)

lemma parse_struct_field_fits:
  assumes "parse_struct_field sf i = Inr (Some f)" and "sf_name sf \<noteq> []"
  shows "f_index f = i \<and> kind_fits (sf_type sf) f"
  using parse_struct_field_cases [OF assms(1)]
proof (elim conjE disjE exE)
  fix t
  assume t: "sf_type sf = TFK t" and r: "relation_field sf i t = Inr (Some f)"
  from relation_field_wf [OF r] t show ?thesis
    by (auto simp: kind_fits_def field_wf_def relation_wf_def split: option.splits)
next
  fix k n
  assume k: "scalar_kind (sf_type sf) = Some (k, n)"
    and a: "apply_tags apply_tag_option ((base_field sf i)\<lparr>f_kind := k, f_max_length := n\<rparr>)
        (sf_name sf) (sf_tag sf) = Inr f"
  from scalar_field_wf [OF a assms(2) scalar_kind_length [OF k]] k show ?thesis
    by (auto simp: kind_fits_def scalar_kind_def split: gotype.splits)
qed

definition fields_fit :: "nat \<Rightarrow> gotype list \<Rightarrow> field list \<Rightarrow> bool" where
  "fields_fit n layout fs \<longleftrightarrow>
     distinct (map f_index fs) \<and>
     (\<forall>f \<in> set fs. n \<le> f_index f \<and> f_index f - n < length layout \<and> kind_fits (layout ! (f_index f - n)) f)"

lemma fields_fit_Suc:
  assumes "fields_fit (Suc n) ts fs"
  shows "fields_fit n (t # ts) fs" and "f_index f = n \<Longrightarrow> kind_fits t f \<Longrightarrow> fields_fit n (t # ts) (f # fs)"
proof -
  have "n \<le> f_index g \<and> f_index g - n < length (t # ts) \<and> kind_fits ((t # ts) ! (f_index g - n)) g \<and>
      f_index g \<noteq> n" if "g \<in> set fs" for g
  proof -
    from assms that have g: "Suc n \<le> f_index g" "f_index g - Suc n < length ts"
      "kind_fits (ts ! (f_index g - Suc n)) g" by (auto simp: fields_fit_def)
    then have "f_index g - n = Suc (f_index g - Suc n)" by simp
    with g show ?thesis by simp
  qed
  note this [rule_format]
  moreover have "distinct (map f_index fs)" using assms by (simp add: fields_fit_def)
  ultimately show "fields_fit n (t # ts) fs"
    and "f_index f = n \<Longrightarrow> kind_fits t f \<Longrightarrow> fields_fit n (t # ts) (f # fs)"
    unfolding fields_fit_def by (auto, force)
qed

lemma collect_fit:
  "list_all2 (\<lambda>x g. (case x of (i, sf) \<Rightarrow> parse_struct_field sf i) = Inr g) (enumerate n sfs) gs \<Longrightarrow>
     \<forall>sf \<in> set sfs. sf_name sf \<noteq> [] \<Longrightarrow>
     fields_fit n (map sf_type sfs) (concat (map (\<lambda>f. case f of None \<Rightarrow> [] | Some f \<Rightarrow> [f]) gs))"
proof (induction sfs arbitrary: n gs)
  case Nil
  then show ?case by (simp add: fields_fit_def)
next
  case (Cons sf sfs)
  then obtain g gs' where gs: "gs = g # gs'" and g: "parse_struct_field sf n = Inr g"
    and rest: "fields_fit (Suc n) (map sf_type sfs)
      (concat (map (\<lambda>f. case f of None \<Rightarrow> [] | Some f \<Rightarrow> [f]) gs'))"
    by (auto simp: list_all2_Cons1)
  with Cons.prems(2) fields_fit_Suc [OF rest] show ?case
    by (cases g) (auto dest: parse_struct_field_fits)
qed

lemma build_model_fits:
  assumes "build_model st = Inr m" and "go_struct st"
  shows "model_fits (struct_layout st) m"
proof -
  from assms(1) obtain fs0 fs1 pk bn bc where
    f0: "collect_fields st = Inr fs0" and f1: "resolve_pk (rt_name (st_type st)) fs0 = Inr (fs1, pk)"
    and f2: "apply_choices (rt_name (st_type st)) bn (st_choices st) fs1 = Inr (m_fields m)"
    by (auto simp: build_model_def Let_def split: sum.splits prod.splits)
  from f0 assms(2) have fit: "fields_fit 0 (map sf_type (st_fields st)) fs0"
    unfolding collect_fields_def go_struct_def
    by (auto simp: collect_err_list_all2 split: sum.splits intro: collect_fit)
  from resolve_pk_Inr [OF f1] have pk: "pk < length fs0" "fs1 = fs0[pk := promote (fs0 ! pk)]" by auto
  have same: "same_fields (m_fields m) fs1" by (rule apply_choices_same [OF f2])
  note len = same_fields_length [OF same]
  have eq: "no_choices (m_fields m ! i) = no_choices (fs1 ! i)" if "i < length fs0" for i
    using same_fields_nth [OF same] that pk by simp
  have ix: "f_index (m_fields m ! i) = f_index (fs0 ! i)" if "i < length fs0" for i
    using arg_cong [OF eq [OF that], of f_index] that
    by (cases "i = pk") (auto simp: pk(2) promote_def no_choices_def)
  have kd: "f_kind (m_fields m ! i) = f_kind (fs0 ! i) \<or>
      f_kind (fs0 ! i) = KindInt \<and> f_kind (m_fields m ! i) = KindAuto" if "i < length fs0" for i
    using arg_cong [OF eq [OF that], of f_kind] that
    by (cases "i = pk") (auto simp: pk(2) promote_def no_choices_def)
  have rl: "f_rel (m_fields m ! i) = f_rel (fs0 ! i)" if "i < length fs0" for i
    using arg_cong [OF eq [OF that], of f_rel] that
    by (cases "i = pk") (auto simp: pk(2) promote_def no_choices_def)
  have L: "length (m_fields m) = length fs0" using len pk by simp
  then have "map f_index (m_fields m) = map f_index fs0"
    using ix by (simp add: list_eq_iff_nth_eq)
  moreover have "f_index (m_fields m ! i) < length (st_fields st) \<and>
      kind_fits (struct_layout st ! f_index (m_fields m ! i)) (m_fields m ! i)" if "i < length fs0" for i
  proof -
    have "f_index (fs0 ! i) < length (st_fields st)"
      "kind_fits (struct_layout st ! f_index (fs0 ! i)) (fs0 ! i)"
      using fit nth_mem [OF that] by (auto simp: fields_fit_def struct_layout_def simp del: nth_map)
    with kd [OF that] ix [OF that] rl [OF that] show ?thesis
      by (auto simp: kind_fits_def split: gotype.splits)
  qed
  ultimately show ?thesis
    using fit L
    by (auto simp: model_fits_def fields_fit_def struct_layout_def in_set_conv_nth simp del: nth_map)
qed

subsection \<open>Writing and reading back\<close>

text \<open>
  What \<open>database/sql\<close> gives a driver for an argument (\<open>driver.DefaultParameterConverter\<close>, which calls
  \<open>Value\<close> of an \<open>FK\<close>), and what drivers may hand back for a stored value: SQLite keeps a boolean as an
  integer, and text may come as bytes.
\<close>

definition driver_arg :: "goval \<Rightarrow> goval option" where
  "driver_arg v =
     (case v of
        VInt k n \<Rightarrow> Some (VInt I64 n)
      | VUint k n \<Rightarrow> if n < 2 ^ 63 then Some (VInt I64 n) else None
      | VFK pk obj \<Rightarrow> Some (fk_value v)
      | VSlice vs \<Rightarrow> None
      | VOther ty s \<Rightarrow> None
      | _ \<Rightarrow> Some v)"

definition reads_back :: "goval \<Rightarrow> goval \<Rightarrow> bool" where
  "reads_back v w \<longleftrightarrow>
     (case v of
        VBool b \<Rightarrow> w = VBool b \<or> w = VInt I64 (if b then 1 else 0)
      | VString s \<Rightarrow> w = VString s \<or> w = VBytes s
      | VInt k n \<Rightarrow> w = VInt k n \<or> w = VBytes (itoa n)
      | _ \<Rightarrow> w = v)"

definition unloaded :: "goval \<Rightarrow> goval" where
  "unloaded v = (case v of VFK pk obj \<Rightarrow> VFK pk None | _ \<Rightarrow> v)"

lemma int64_wrap: "wrap_int k n = n \<Longrightarrow> int64_range n"
  using wrap_int_range [of k n] power_increasing [of "ibits k - 1" 63 "2 :: int"]
  by (cases k) (auto simp: int64_range_def)

lemma parse_int_itoa: "wrap_int k n = n \<Longrightarrow> parse_int k (itoa n) = Some n"
  by (simp add: parse_int_def parse_int64_itoa int64_wrap)

lemma parse_uint_itoa:
  assumes "wrap_uint k n = n"
  shows "parse_uint k (itoa n) = Some n"
proof -
  have r: "0 \<le> n" "n < 2 ^ ibits k" using wrap_uint_range [of k n] assms by auto
  then have "itoa n = utoa (nat n)" by (simp add: itoa_def)
  moreover have "nat n < 2 ^ ibits k" using r by (simp add: nat_less_iff)
  ultimately show ?thesis using r utoa_digits [of "nat n"] by (simp add: parse_uint_def)
qed

lemma scan_value_reads_back:
  assumes "has_type v t" and "driver_arg v = Some a" and "reads_back a w"
  shows "scan_value t w = Inr (unloaded v)"
proof (cases t)
  case (TInt k)
  with assms obtain n where "v = VInt k n" "wrap_int k n = n" "w = VInt I64 n \<or> w = VBytes (itoa n)"
    by (auto simp: has_type_def driver_arg_def reads_back_def split: goval.splits)
  then show ?thesis
    by (auto simp: TInt scan_value_def scan_int_def as_string_def parse_int_itoa unloaded_def)
next
  case (TUint k)
  with assms obtain n where "v = VUint k n" "wrap_uint k n = n" "w = VInt I64 n \<or> w = VBytes (itoa n)"
    by (auto simp: has_type_def driver_arg_def reads_back_def split: goval.splits if_splits)
  then show ?thesis
    by (auto simp: TUint scan_value_def scan_uint_def as_string_def parse_uint_itoa unloaded_def)
next
  case (TFK r)
  with assms obtain pk obj where "v = VFK pk obj" "int64_range pk"
    "w = fk_value v \<or> pk \<noteq> 0 \<and> w = VBytes (itoa pk)"
    by (auto simp: has_type_def driver_arg_def reads_back_def fk_value_def split: goval.splits if_splits)
  then show ?thesis
    by (auto simp: TFK scan_value_def fk_scan_def fk_parse_def fk_value_def parse_int64_itoa unloaded_def)
qed (use assms in \<open>auto simp: has_type_def driver_arg_def reads_back_def scan_value_def scan_string_def
  scan_bool_def as_string_def unloaded_def split: goval.splits\<close>)

lemma scan_fields_reads_back:
  "list_all2 (\<lambda>f w. scan_value (layout ! f_index f) w = Inr (g f)) fs row \<Longrightarrow>
   distinct (map f_index fs) \<Longrightarrow> \<forall>f \<in> set fs. f_index f < length obj \<Longrightarrow>
   \<exists>obj'. scan_fields layout fs row obj = Inr obj' \<and> length obj' = length obj \<and>
     (\<forall>f \<in> set fs. obj' ! f_index f = g f) \<and> (\<forall>i. i \<notin> f_index ` set fs \<longrightarrow> obj' ! i = obj ! i)"
proof (induction fs row arbitrary: obj rule: list_all2_induct)
  case (Cons f fs w ws)
  let ?obj = "obj[f_index f := g f]"
  from Cons.IH [of ?obj] Cons.prems obtain obj' where
    "scan_fields layout fs ws ?obj = Inr obj'" "length obj' = length obj"
    "\<forall>h \<in> set fs. obj' ! f_index h = g h" "\<forall>i. i \<notin> f_index ` set fs \<longrightarrow> obj' ! i = ?obj ! i"
    by auto
  with Cons.hyps(1) Cons.prems show ?case by auto
qed simp

text \<open>A foreign key to a model that has a foreign key itself: its column cannot be assigned.\<close>

lemma assign_scanned_fk: "v \<noteq> VNil \<Longrightarrow> \<exists>e. assign_scanned (TFK r) dst v = Inl e"
  by (auto simp: assign_scanned_def split: goval.splits)

lemma assign_fields_fk:
  "j < length fs \<Longrightarrow> length vs = length fs \<Longrightarrow> layout ! f_index (fs ! j) = TFK r \<Longrightarrow> vs ! j \<noteq> VNil \<Longrightarrow>
     \<exists>e. assign_fields layout fs vs obj = Inl e"
proof (induction layout fs vs obj arbitrary: j rule: assign_fields.induct)
  case (1 layout f fs v vs obj)
  show ?case
  proof (cases j)
    case 0
    with 1 assign_scanned_fk [of v r "obj ! f_index f"] show ?thesis by auto
  next
    case (Suc i)
    with 1 show ?thesis by (auto split: sum.splits)
  qed
qed simp_all

subsection \<open>Properties\<close>

text \<open>C15: Writing an instance and reading it back: when a driver hands back, for each column of a row,
  the value it was given for the field or another form of it, scanning succeeds and yields the
  instance, its loaded objects dropped and the fields that are not columns zero.\<close>

theorem row_reads_back:
  assumes "instance_of obj layout" and "model_fits layout m"
    and "list_all2 (\<lambda>f w. \<exists>a. driver_arg (obj ! f_index f) = Some a \<and> reads_back a w) (m_fields m) row"
  shows "\<exists>obj'. scan_row layout m row = Inr obj' \<and> length obj' = length layout \<and>
    (\<forall>f \<in> set (m_fields m). obj' ! f_index f = unloaded (obj ! f_index f)) \<and>
    (\<forall>i < length layout. i \<notin> f_index ` set (m_fields m) \<longrightarrow> obj' ! i = zero_val (layout ! i))"
proof -
  have "scan_value (layout ! f_index f) w = Inr (unloaded (obj ! f_index f))"
    if "f \<in> set (m_fields m)" and "\<exists>a. driver_arg (obj ! f_index f) = Some a \<and> reads_back a w" for f w
    using that assms(1,2) scan_value_reads_back
    by (meson instance_of_nth model_fits_def)
  with assms(3) have "list_all2 (\<lambda>f w. scan_value (layout ! f_index f) w =
      Inr (unloaded (obj ! f_index f))) (m_fields m) row"
    by (auto simp: list_all2_conv_all_nth)
  from scan_fields_reads_back [OF this, of "zero_struct layout"] assms(2,3) show ?thesis
    by (fastforce simp: model_fits_def scan_row_def zero_struct_def dest: list_all2_lengthD)
qed

lemma post_fits: "model_fits (struct_layout post_struct) (post_model None)"
  by (rule build_model_fits [OF build_post go_structs(2)])

theorem row_reads_back_witness:
  "\<exists>obj. scan_row (struct_layout post_struct) (post_model None) [VInt I64 7, VBytes ''Hello'', VInt I64 3] =
     Inr obj \<and> (\<forall>f \<in> set (m_fields (post_model None)). obj ! f_index f =
       unloaded ([VInt I64 7, VString ''Hello'', VFK 3 (Some [])] ! f_index f))"
proof -
  have "instance_of [VInt I64 7, VString ''Hello'', VFK 3 (Some [])] (struct_layout post_struct)"
    by code_simp
  moreover have "list_all2 (\<lambda>f w. \<exists>a. driver_arg ([VInt I64 7, VString ''Hello'', VFK 3 (Some [])] ! f_index f) =
      Some a \<and> reads_back a w) (m_fields (post_model None)) [VInt I64 7, VBytes ''Hello'', VInt I64 3]"
    by (simp add: post_model_def id_field_def char_field_def fk_field_def promote_def driver_arg_def
        reads_back_def fk_value_def eval_nat_numeral)
  ultimately show ?thesis using row_reads_back [OF _ post_fits] by blast
qed

text \<open>SelectRelated of a model that has a foreign key itself fails as soon as a joined row has that
  column set: the joined columns are assigned by kind, and \<open>FK\<close> has none of the kinds.\<close>

theorem joined_foreign_key_fails:
  assumes "m_pk (jr_target r) = Some pk" and "holders ! pk = VInt I64 i"
    and "length holders = length (m_fields (jr_target r))"
    and "j < length holders" and "layouts (m_go_type (jr_target r)) ! f_index (m_fields (jr_target r) ! j) = TFK t"
    and "holders ! j \<noteq> VNil"
  shows "\<exists>e. attach_joined layouts m main (r, holders) = Inl e"
proof -
  let ?L = "layouts (m_go_type (jr_target r))"
  have "\<exists>e. assign_fields ?L (m_fields (jr_target r)) holders (zero_struct ?L) = Inl e"
    using assms(4,3) by (intro assign_fields_fk [OF _ _ assms(5,6)]) simp_all
  then show ?thesis
    by (auto simp: attach_joined_def Let_def assms(1,2) as_int64_def)
qed

text \<open>A comment refers to a post, which refers to its author.\<close>

definition comment_rel :: joined_rel where
  "comment_rel = \<lparr>jr_field = fk_field (Some 1), jr_target = post_model (Some 0), jr_alias = ''st_post_id''\<rparr>"

theorem joined_foreign_key_fails_witness:
  "\<exists>e. attach_joined (\<lambda>t. struct_layout post_struct) (post_model (Some 0)) [VNil, VNil, VFK 7 None]
     (comment_rel, [VInt I64 7, VString ''Hello'', VInt I64 3]) = Inl e"
proof (rule joined_foreign_key_fails)
  show "m_pk (jr_target comment_rel) = Some 0" by code_simp
  show "[VInt I64 7, VString ''Hello'', VInt I64 3] ! 0 = VInt I64 7" by simp
  show "struct_layout post_struct ! f_index (m_fields (jr_target comment_rel) ! 2) = TFK (RType ''blog'' ''Author'')"
    by code_simp
qed (code_simp+)

end
