(* ===== verification/Web_Widgets.thy ===== *)
theory Web_Widgets
  imports Orm_Rows "HOL-Library.Char_ord" "HOL-Library.List_Lexorder"
begin

text \<open>
  \<open>forms/widgets.go\<close>: the form controls and their HTML, with \<open>html.EscapeString\<close>. The reader
  \<open>read_html\<close> is what a browser makes of such text, as far as tags and text go: every control reads back
  as its tags with the name and the value it was given, whatever characters they have.
\<close>

subsection \<open>Escaping\<close>

definition escape_char :: "char \<Rightarrow> string" where
  "escape_char c =
     (if c = CHR ''&'' then ''&amp;''
      else if c = CHR 0x27 then ''&#39;''
      else if c = CHR ''<'' then ''&lt;''
      else if c = CHR ''>'' then ''&gt;''
      else if c = dquote then ''&#34;''
      else [c])"

definition html_escape :: "string \<Rightarrow> string" where
  "html_escape s = concat (map escape_char s)"

text \<open>The entities that escaping writes, and reading them.\<close>

definition entities :: "(string \<times> char) list" where
  "entities = [(''&amp;'', CHR ''&''), (''&#39;'', CHR 0x27), (''&lt;'', CHR ''<''), (''&gt;'', CHR ''>''),
     (''&#34;'', dquote)]"

function html_unescape :: "string \<Rightarrow> string" where
  "html_unescape [] = []"
| "html_unescape (c # s) =
     (case find (\<lambda>(e, d). HasPrefix (c # s) e) entities of
        None \<Rightarrow> c # html_unescape s
      | Some (e, d) \<Rightarrow> d # html_unescape (drop (length e) (c # s)))"
  by pat_completeness auto
termination
  by (relation "measure length") (auto simp: entities_def split: if_splits)

lemma unescape_other: "c \<noteq> CHR ''&'' \<Longrightarrow> html_unescape (c # s) = c # html_unescape s"
  by (simp add: entities_def)

lemma unescape_escape_char: "html_unescape (escape_char c @ s) = c # html_unescape s"
proof (cases "c \<in> {CHR ''&'', CHR 0x27, CHR ''<'', CHR ''>'', dquote}")
  case True
  then show ?thesis by (auto simp: escape_char_def entities_def)
next
  case False
  then show ?thesis by (simp add: escape_char_def unescape_other del: html_unescape.simps)
qed

lemma unescape_escape [simp]: "html_unescape (html_escape s) = s"
  by (induction s) (simp_all add: html_escape_def unescape_escape_char del: html_unescape.simps(2))

text \<open>No character of escaped text ends a tag, a text or an attribute value.\<close>

lemma escape_chars: "c \<in> set (html_escape s) \<Longrightarrow> c \<noteq> CHR ''<'' \<and> c \<noteq> CHR ''>'' \<and> c \<noteq> dquote \<and> c \<noteq> CHR 0x27"
  by (auto simp: html_escape_def escape_char_def split: if_splits)

lemma escape_Nil [simp]: "html_escape s = [] \<longleftrightarrow> s = []"
  by (cases s) (auto simp: html_escape_def escape_char_def split: if_splits)

subsection \<open>Widgets\<close>

datatype widget =
    TextInput
  | Textarea
  | NumberInput
  | EmailInput
  | PasswordInput
  | CheckboxInput
  | Select "(string \<times> string) list"

text \<open>The attributes, a Go map, as the list of its entries.\<close>

type_synonym attrs = "(string \<times> string) list"

definition attr :: "string \<Rightarrow> string \<Rightarrow> string" where
  "attr k v = k @ ''='' @ [dquote] @ v @ [dquote]"

definition render_attrs :: "attrs \<Rightarrow> string" where
  "render_attrs attrs =
     concat (map (\<lambda>(k, v). '' '' @ attr (html_escape k) (html_escape v)) (sort_key fst attrs))"

definition render_input :: "string \<Rightarrow> string \<Rightarrow> string \<Rightarrow> attrs \<Rightarrow> string" where
  "render_input inputType name value attrs =
     ''<input '' @ attr ''type'' inputType @ '' '' @ attr ''name'' (html_escape name) @ '' '' @
     attr ''value'' (html_escape value) @ render_attrs attrs @ ''>''"

definition is_truthy :: "string \<Rightarrow> bool" where
  "is_truthy value \<longleftrightarrow> ToLower (TrimSpace value) \<in> {''true'', ''on'', ''1''}"

definition render_option :: "string \<Rightarrow> string \<times> string \<Rightarrow> string" where
  "render_option value = (\<lambda>(v, label).
     ''<option '' @ attr ''value'' (html_escape v) @ (if v = value then '' selected'' else []) @ ''>'' @
     html_escape label @ ''</option>'')"

fun render_widget :: "widget \<Rightarrow> string \<Rightarrow> string \<Rightarrow> attrs \<Rightarrow> string" where
  "render_widget TextInput name value attrs = render_input ''text'' name value attrs"
| "render_widget Textarea name value attrs =
     ''<textarea '' @ attr ''name'' (html_escape name) @ render_attrs attrs @ ''>'' @ html_escape value @
     ''</textarea>''"
| "render_widget NumberInput name value attrs = render_input ''number'' name value attrs"
| "render_widget EmailInput name value attrs = render_input ''email'' name value attrs"
| "render_widget PasswordInput name value attrs = render_input ''password'' name [] attrs"
| "render_widget CheckboxInput name value attrs =
     ''<input '' @ attr ''type'' ''checkbox'' @ '' '' @ attr ''name'' (html_escape name) @ render_attrs attrs @
     (if is_truthy value then '' checked'' else []) @ ''>''"
| "render_widget (Select choices) name value attrs =
     ''<select '' @ attr ''name'' (html_escape name) @ render_attrs attrs @ ''>'' @
     concat (map (render_option value) choices) @ ''</select>''"

subsection \<open>Reading HTML\<close>

text \<open>
  A tag is the text between angle brackets, split at the double quotes: markup and attribute values in
  turn. Text runs to the next tag. Entities are read in both.
\<close>

datatype html_token = Tag "string list" | Txt string

function read_html :: "string \<Rightarrow> html_token list" where
  "read_html [] = []"
| "read_html (c # s) =
     (if c = CHR ''<''
      then Tag (map html_unescape (Split (takeWhile (\<lambda>c. c \<noteq> CHR ''>'') s) dquote)) #
           read_html (tl (dropWhile (\<lambda>c. c \<noteq> CHR ''>'') s))
      else Txt (html_unescape (takeWhile (\<lambda>c. c \<noteq> CHR ''<'') (c # s))) #
           read_html (dropWhile (\<lambda>c. c \<noteq> CHR ''<'') (c # s)))"
  by pat_completeness auto
termination
  by (relation "measure length")
    (auto simp: less_Suc_eq_le intro: le_trans [OF diff_le_self] length_dropWhile_le)

declare read_html.simps(2) [simp del]

definition text_tokens :: "string \<Rightarrow> html_token list" where
  "text_tokens s = (if s = [] then [] else [Txt s])"

text \<open>Markup reads as the tokens it stands for, whatever follows.\<close>

definition reads_as :: "string \<Rightarrow> html_token list \<Rightarrow> bool" where
  "reads_as out toks \<longleftrightarrow> (\<forall>rest. read_html (out @ rest) = toks @ read_html rest)"

definition tag_text :: "string \<Rightarrow> bool" where
  "tag_text raw \<longleftrightarrow> CHR ''>'' \<notin> set raw"

lemma reads_as_Nil [simp]: "reads_as [] []"
  by (simp add: reads_as_def)

lemma reads_as_append: "reads_as out toks \<Longrightarrow> reads_as out' toks' \<Longrightarrow> reads_as (out @ out') (toks @ toks')"
  by (simp add: reads_as_def)

lemma reads_as_concat:
  "(\<forall>x \<in> set xs. reads_as (f x) (g x)) \<Longrightarrow> reads_as (concat (map f xs)) (concat (map g xs))"
  by (induction xs) (simp_all add: reads_as_append)

lemma until_char:
  assumes "x \<notin> set u"
  shows "takeWhile (\<lambda>c. c \<noteq> x) (u @ x # v) = u" "dropWhile (\<lambda>c. c \<noteq> x) (u @ x # v) = x # v"
  using assms by (induction u) auto

lemma reads_as_tag:
  assumes "CHR ''>'' \<notin> set raw"
  shows "reads_as (''<'' @ raw @ ''>'') [Tag (map html_unescape (Split raw dquote))]"
  using until_char [OF assms] by (simp add: reads_as_def read_html.simps(2))

lemma reads_as_text:
  assumes "reads_as (CHR ''<'' # out) toks"
  shows "reads_as (html_escape s @ CHR ''<'' # out) (text_tokens s @ toks)"
proof (cases "s = []")
  case True
  with assms show ?thesis by (simp add: text_tokens_def html_escape_def)
next
  case False
  then obtain c r where cr: "html_escape s = c # r" by (cases "html_escape s") auto
  have no: "CHR ''<'' \<notin> set (html_escape s)" using escape_chars by blast
  with cr have c: "c \<noteq> CHR ''<''" by auto
  have "read_html (html_escape s @ CHR ''<'' # x) = Txt s # read_html (CHR ''<'' # x)" for x
    using c until_char [OF no, of x] unfolding cr append_Cons read_html.simps(2) [of c]
    by (simp only: if_False cr [symmetric]) simp
  with assms False show ?thesis by (simp add: reads_as_def text_tokens_def)
qed

subsection \<open>What a widget reads as\<close>

text \<open>The tokens of a control without attributes: the name, the value and the choices as they are.\<close>

definition input_tokens :: "string \<Rightarrow> string \<Rightarrow> string \<Rightarrow> html_token list" where
  "input_tokens inputType name value =
     [Tag [''input type='', inputType, '' name='', name, '' value='', value, []]]"

definition option_tokens :: "string \<Rightarrow> string \<times> string \<Rightarrow> html_token list" where
  "option_tokens value = (\<lambda>(v, label).
     Tag [''option value='', v, if v = value then '' selected'' else []] # text_tokens label @ [Tag [''/option'']])"

fun widget_tokens :: "widget \<Rightarrow> string \<Rightarrow> string \<Rightarrow> html_token list" where
  "widget_tokens TextInput name value = input_tokens ''text'' name value"
| "widget_tokens Textarea name value =
     Tag [''textarea name='', name, []] # text_tokens value @ [Tag [''/textarea'']]"
| "widget_tokens NumberInput name value = input_tokens ''number'' name value"
| "widget_tokens EmailInput name value = input_tokens ''email'' name value"
| "widget_tokens PasswordInput name value = input_tokens ''password'' name []"
| "widget_tokens CheckboxInput name value =
     [Tag [''input type='', ''checkbox'', '' name='', name, if is_truthy value then '' checked'' else []]]"
| "widget_tokens (Select choices) name value =
     Tag [''select name='', name, []] # concat (map (option_tokens value) choices) @ [Tag [''/select'']]"

lemma escape_no_quote [simp]: "dquote \<notin> set (html_escape s)" "CHR ''>'' \<notin> set (html_escape s)"
  using escape_chars by blast+

text \<open>The inside of a tag: plain markup and escaped values in turn.\<close>

definition plain_markup :: "string \<Rightarrow> bool" where
  "plain_markup s \<longleftrightarrow> set s \<inter> {dquote, CHR ''>'', CHR ''&''} = {}"

definition tag_body :: "(string \<times> string) list \<Rightarrow> string \<Rightarrow> string" where
  "tag_body ps r = concat (map (\<lambda>(p, v). p @ [dquote] @ html_escape v @ [dquote]) ps) @ r"

lemma unescape_plain: "plain_markup s \<Longrightarrow> html_unescape s = s"
  by (induction s) (auto simp: plain_markup_def unescape_other simp del: html_unescape.simps(2))

lemma tag_body_Cons: "tag_body ((p, v) # ps) r = p @ dquote # html_escape v @ dquote # tag_body ps r"
  by (simp add: tag_body_def)

lemma reads_tag_body:
  assumes "\<forall>(p, v) \<in> set ps. plain_markup p" and "plain_markup r"
  shows "reads_as (''<'' @ tag_body ps r @ ''>'') [Tag (concat (map (\<lambda>(p, v). [p, v]) ps) @ [r])]"
proof -
  have "CHR ''>'' \<notin> set (tag_body ps r)"
    using assms by (auto simp: tag_body_def plain_markup_def)
  moreover have "map html_unescape (Split (tag_body ps r) dquote) = concat (map (\<lambda>(p, v). [p, v]) ps) @ [r]"
    using assms
  proof (induction ps)
    case Nil
    then show ?case by (simp add: tag_body_def Split_single plain_markup_def unescape_plain)
  next
    case (Cons pv ps)
    obtain p v where pv: "pv = (p, v)" by (cases pv)
    with Cons show ?case
      by (simp add: tag_body_Cons Split_append plain_markup_def unescape_plain)
  qed
  ultimately show ?thesis using reads_as_tag [of "tag_body ps r"] by simp
qed

lemma escape_constants:
  "html_escape ''text'' = ''text''" "html_escape ''number'' = ''number''" "html_escape ''email'' = ''email''"
  "html_escape ''password'' = ''password''" "html_escape ''checkbox'' = ''checkbox''" "html_escape [] = []"
  by code_simp+

lemma reads_input:
  assumes "html_escape inputType = inputType"
  shows "reads_as (render_input inputType name value []) (input_tokens inputType name value)"
  using reads_tag_body [of "[(''input type='', inputType), ('' name='', name), ('' value='', value)]" "[]"] assms
  by (simp add: render_input_def input_tokens_def attr_def render_attrs_def tag_body_def plain_markup_def)

lemma reads_close: "plain_markup r \<Longrightarrow> reads_as (''<'' @ r @ ''>'') [Tag [r]]"
  using reads_tag_body [of "[]" r] by (simp add: tag_body_def)

lemma reads_option: "reads_as (render_option value c) (option_tokens value c)"
proof -
  obtain v label where c: "c = (v, label)" by (cases c)
  let ?r = "if v = value then '' selected'' else []"
  have head: "reads_as (''<'' @ tag_body [(''option value='', v)] ?r @ ''>'') [Tag [''option value='', v, ?r]]"
    using reads_tag_body [of "[(''option value='', v)]" ?r] by (simp add: plain_markup_def)
  have "reads_as (html_escape label @ ''</option>'') (text_tokens label @ [Tag [''/option'']])"
    using reads_as_text [of "''/option>''"] reads_close [of "''/option''"] by (simp add: plain_markup_def)
  from reads_as_append [OF head this] show ?thesis
    by (simp add: c render_option_def option_tokens_def tag_body_def attr_def)
qed

theorem reads_widget: "reads_as (render_widget w name value []) (widget_tokens w name value)"
proof (cases w)
  case Textarea
  have head: "reads_as (''<'' @ tag_body [(''textarea name='', name)] [] @ ''>'') [Tag [''textarea name='', name, []]]"
    using reads_tag_body [of "[(''textarea name='', name)]" "[]"] by (simp add: plain_markup_def)
  have "reads_as (html_escape value @ ''</textarea>'') (text_tokens value @ [Tag [''/textarea'']])"
    using reads_as_text [of "''/textarea>''"] reads_close [of "''/textarea''"] by (simp add: plain_markup_def)
  from reads_as_append [OF head this] show ?thesis
    by (simp add: Textarea render_attrs_def tag_body_def attr_def)
next
  case CheckboxInput
  let ?r = "if is_truthy value then '' checked'' else []"
  show ?thesis
    using reads_tag_body [of "[(''input type='', ''checkbox''), ('' name='', name)]" ?r]
    by (simp add: CheckboxInput render_attrs_def tag_body_def attr_def plain_markup_def escape_constants)
next
  case (Select choices)
  have head: "reads_as (''<'' @ tag_body [(''select name='', name)] [] @ ''>'') [Tag [''select name='', name, []]]"
    using reads_tag_body [of "[(''select name='', name)]" "[]"] by (simp add: plain_markup_def)
  have opts: "reads_as (concat (map (render_option value) choices)) (concat (map (option_tokens value) choices))"
    by (rule reads_as_concat) (simp add: reads_option)
  have "reads_as ''</select>'' [Tag [''/select'']]"
    using reads_close [of "''/select''"] by (simp add: plain_markup_def)
  from reads_as_append [OF head reads_as_append [OF opts this]] show ?thesis
    by (simp add: Select render_attrs_def tag_body_def attr_def)
qed (simp_all add: reads_input escape_constants)

end
