(* ===== verification/Go_Time.thy ===== *)
theory Go_Time
  imports Go_Values
begin

text \<open>
  \<open>time.Parse\<close> for the two layouts the source accepts, \<open>time.RFC3339\<close> and \<open>2006-01-02 15:04:05\<close>, and
  \<open>Format(time.RFC3339)\<close>. Layout elements read a prefix of the text and return the rest, as the
  library does it: one digit will do for the hour, a fraction may follow the seconds of either layout,
  a zone offset may be written with 24 hours or 60 minutes.
\<close>

subsection \<open>Reading\<close>

definition two_digit :: "string \<Rightarrow> (nat \<times> string) option" where
  "two_digit s =
     (case s of
        a # b # r \<Rightarrow> if is_digit a \<and> is_digit b then Some (digit_val a * 10 + digit_val b, r) else None
      | _ \<Rightarrow> None)"

definition one_or_two_digits :: "string \<Rightarrow> (nat \<times> string) option" where
  "one_or_two_digits s =
     (case s of
        [] \<Rightarrow> None
      | a # r \<Rightarrow>
          if \<not> is_digit a then None
          else (case r of
                  b # r' \<Rightarrow> if is_digit b then Some (digit_val a * 10 + digit_val b, r') else Some (digit_val a, r)
                | [] \<Rightarrow> Some (digit_val a, r)))"

definition four_digits :: "string \<Rightarrow> (nat \<times> string) option" where
  "four_digits s =
     (if length s < 4 \<or> \<not> list_all is_digit (take 4 s) then None else Some (digits_val (take 4 s), drop 4 s))"

text \<open>Literal text of a layout: a space stands for one or more, or none at the end of the text.\<close>

definition skip_char :: "char \<Rightarrow> string \<Rightarrow> string option" where
  "skip_char c s =
     (if c = CHR '' '' then
        (case s of [] \<Rightarrow> Some [] | d # r \<Rightarrow> if d = CHR '' '' then Some (TrimLeft s CHR '' '') else None)
      else (case s of d # r \<Rightarrow> if d = c then Some r else None | [] \<Rightarrow> None))"

text \<open>The fraction of a second that the layout does not mention, to nine digits.\<close>

definition skip_fraction :: "string \<Rightarrow> nat \<times> string" where
  "skip_fraction s =
     (case s of
        p # d # r \<Rightarrow>
          if (p = CHR ''.'' \<or> p = CHR '','') \<and> is_digit d
          then (let ds = takeWhile is_digit (d # r); used = take 9 ds
                in (digits_val used * 10 ^ (9 - length used), dropWhile is_digit (d # r)))
          else (0, s)
      | _ \<Rightarrow> (0, s))"

definition leap_year :: "nat \<Rightarrow> bool" where
  "leap_year y \<longleftrightarrow> y mod 4 = 0 \<and> (y mod 100 \<noteq> 0 \<or> y mod 400 = 0)"

definition days_in :: "nat \<Rightarrow> nat \<Rightarrow> nat" where
  "days_in month year =
     (if month = 2 then (if leap_year year then 29 else 28)
      else if month \<in> {4, 6, 9, 11} then 30 else 31)"

text \<open>The part both layouts have, with the character between date and time.\<close>

definition parse_civil :: "char \<Rightarrow> string \<Rightarrow> (gotime \<times> string) option" where
  "parse_civil sep s =
     Option.bind (four_digits s) (\<lambda>(year, s).
     Option.bind (skip_char CHR ''-'' s) (\<lambda>s.
     Option.bind (two_digit s) (\<lambda>(month, s).
     if month = 0 \<or> 12 < month then None else
     Option.bind (skip_char CHR ''-'' s) (\<lambda>s.
     Option.bind (two_digit s) (\<lambda>(day, s).
     Option.bind (skip_char sep s) (\<lambda>s.
     Option.bind (one_or_two_digits s) (\<lambda>(hour, s).
     if 24 \<le> hour then None else
     Option.bind (skip_char CHR '':'' s) (\<lambda>s.
     Option.bind (two_digit s) (\<lambda>(minute, s).
     if 60 \<le> minute then None else
     Option.bind (skip_char CHR '':'' s) (\<lambda>s.
     Option.bind (two_digit s) (\<lambda>(second, s).
     if 60 \<le> second then None else
     (case skip_fraction s of (nano, s) \<Rightarrow>
        if day < 1 \<or> days_in month year < day then None
        else Some (\<lparr>t_year = int year, t_month = month, t_day = day, t_hour = hour, t_minute = minute,
                     t_second = second, t_nano = nano, t_zone = 0\<rparr>, s)))))))))))))"

definition signed_zone :: "char \<Rightarrow> nat \<Rightarrow> nat \<Rightarrow> int option" where
  "signed_zone sign hr mm =
     (if 24 < hr \<or> 60 < mm then None
      else if sign = CHR ''+'' then Some (int (hr * 60 + mm))
      else if sign = CHR ''-'' then Some (- int (hr * 60 + mm))
      else None)"

definition parse_zone :: "string \<Rightarrow> (int \<times> string) option" where
  "parse_zone s =
     (if s = [] then None
      else if hd s = CHR ''Z'' then Some (0, tl s)
      else if length s < 6 \<or> s ! 3 \<noteq> CHR '':'' then None
      else
        Option.bind (two_digit (take 2 (drop 1 s))) (\<lambda>(hr, _).
        Option.bind (two_digit (take 2 (drop 4 s))) (\<lambda>(mm, _).
        Option.bind (signed_zone (hd s) hr mm) (\<lambda>z. Some (z, drop 6 s)))))"

definition parse_rfc3339 :: "string \<Rightarrow> gotime option" where
  "parse_rfc3339 s =
     Option.bind (parse_civil CHR ''T'' s) (\<lambda>(t, s).
     Option.bind (parse_zone s) (\<lambda>(z, s).
     if s = [] then Some (t\<lparr>t_zone := z\<rparr>) else None))"

definition parse_datetime :: "string \<Rightarrow> gotime option" where
  "parse_datetime s =
     Option.bind (parse_civil CHR '' '' s) (\<lambda>(t, s). if s = [] then Some t else None)"

subsection \<open>Writing\<close>

definition rfc3339_zone :: "int \<Rightarrow> string" where
  "rfc3339_zone z =
     (if z = 0 then ''Z''
      else (if z < 0 then CHR ''-'' else CHR ''+'') # pad 2 (nat \<bar>z\<bar> div 60) @ '':'' @ pad 2 (nat \<bar>z\<bar> mod 60))"

definition format_rfc3339 :: "gotime \<Rightarrow> string" where
  "format_rfc3339 t =
     pad_year (t_year t) @ ''-'' @ pad 2 (t_month t) @ ''-'' @ pad 2 (t_day t) @ ''T'' @
     pad 2 (t_hour t) @ '':'' @ pad 2 (t_minute t) @ '':'' @ pad 2 (t_second t) @ rfc3339_zone (t_zone t)"

subsection \<open>What is written reads back\<close>

text \<open>The times that RFC 3339 can write: a year of four digits, a zone within a day.\<close>

definition writable_time :: "gotime \<Rightarrow> bool" where
  "writable_time t \<longleftrightarrow>
     0 \<le> t_year t \<and> t_year t < 10000 \<and> 1 \<le> t_month t \<and> t_month t \<le> 12 \<and>
     1 \<le> t_day t \<and> t_day t \<le> days_in (t_month t) (nat (t_year t)) \<and> t_hour t < 24 \<and>
     t_minute t < 60 \<and> t_second t < 60 \<and> \<bar>t_zone t\<bar> < 1440"

lemma pad_digits: "list_all is_digit (pad w n)"
  using utoa_digits [of n] by (auto simp: pad_def list_all_iff is_digit_def code_def)

lemma pad_value: "digits_val (pad w n) = n"
proof -
  have "digits_val (replicate k CHR ''0'' @ s) = digits_val s" for k s
    by (induction k) (simp_all add: digits_val_def digit_val_def code_def)
  then show ?thesis by (simp add: pad_def)
qed

lemma length_utoa: "n < 10 ^ Suc k \<Longrightarrow> length (utoa n) \<le> Suc k"
proof (induction k arbitrary: n)
  case 0
  then show ?case by (subst utoa.simps) simp
next
  case (Suc k)
  have "n div 10 < 10 ^ Suc k" using Suc.prems by (simp add: less_mult_imp_div_less mult.commute)
  from Suc.IH [OF this] show ?case by (subst utoa.simps) simp
qed

lemma length_pad: "n < 10 ^ Suc k \<Longrightarrow> length (pad (Suc k) n) = Suc k"
  using length_utoa [of n k] by (simp add: pad_def)

lemma pad_two:
  assumes "n < 100"
  shows "\<exists>a b. pad 2 n = [a, b] \<and> is_digit a \<and> is_digit b \<and> digit_val a * 10 + digit_val b = n"
proof -
  have "length (pad 2 n) = 2" using length_pad [of n 1] assms by (simp add: numeral_2_eq_2)
  then obtain a b where ab: "pad 2 n = [a, b]"
    by (metis One_nat_def Suc_1 length_0_conv length_Suc_conv)
  have "digits_val [a, b] = n" using pad_value [of 2 n] ab by simp
  with ab pad_digits [of 2 n] show ?thesis by (auto simp: digits_val_def)
qed

lemma two_digit_pad: "n < 100 \<Longrightarrow> two_digit (pad 2 n @ s) = Some (n, s)"
  using pad_two [of n] by (auto simp: two_digit_def)

lemma one_or_two_digits_pad: "n < 100 \<Longrightarrow> one_or_two_digits (pad 2 n @ s) = Some (n, s)"
  using pad_two [of n] by (auto simp: one_or_two_digits_def)

lemma four_digits_pad: "n < 10000 \<Longrightarrow> four_digits (pad 4 n @ s) = Some (n, s)"
proof -
  assume "n < 10000"
  have four: "Suc 3 = 4" by simp
  have len: "length (pad 4 n) = 4"
    using length_pad [of n 3, unfolded four] \<open>n < 10000\<close> by simp
  then show ?thesis
    using pad_digits [of 4 n] pad_value [of 4 n] by (simp add: four_digits_def)
qed

lemma skip_char_Cons: "c \<noteq> CHR '' '' \<Longrightarrow> skip_char c (c # s) = Some s"
  by (simp add: skip_char_def)

lemma skip_fraction_zone: "skip_fraction (rfc3339_zone z) = (0, rfc3339_zone z)"
  by (simp add: skip_fraction_def rfc3339_zone_def split: list.splits)

lemma parse_zone_written:
  assumes "\<bar>z\<bar> < 1440"
  shows "parse_zone (rfc3339_zone z) = Some (z, [])"
proof (cases "z = 0")
  case True
  then show ?thesis by (simp add: parse_zone_def rfc3339_zone_def)
next
  case False
  define hr where "hr = nat \<bar>z\<bar> div 60"
  define mm where "mm = nat \<bar>z\<bar> mod 60"
  have less: "hr < 24" "mm < 60" using assms by (auto simp: hr_def mm_def)
  have sum: "int (hr * 60 + mm) = \<bar>z\<bar>" unfolding hr_def mm_def by (subst div_mult_mod_eq) simp
  obtain a b c d where h: "pad 2 hr = [a, b]" "two_digit [a, b] = Some (hr, [])"
    and m: "pad 2 mm = [c, d]" "two_digit [c, d] = Some (mm, [])"
    using pad_two [of hr] pad_two [of mm] less by (auto simp: two_digit_def)
  have zone: "rfc3339_zone z = (if z < 0 then CHR ''-'' else CHR ''+'') # [a, b] @ CHR '':'' # [c, d]"
    using False h(1) m(1) by (simp add: rfc3339_zone_def hr_def [symmetric] mm_def [symmetric])
  have "parse_zone (s # [a, b] @ CHR '':'' # [c, d]) = map_option (\<lambda>z. (z, [])) (signed_zone s hr mm)"
    if "s \<noteq> CHR ''Z''" for s
    using that h(2) m(2) by (cases "signed_zone s hr mm") (simp_all add: parse_zone_def eval_nat_numeral)
  moreover have "signed_zone (if z < 0 then CHR ''-'' else CHR ''+'') hr mm = Some z"
    using less unfolding signed_zone_def sum by simp
  ultimately show ?thesis by (simp add: zone)
qed

lemma parse_civil_written:
  assumes "y < 10000" and "mo \<noteq> 0" and "mo \<le> 12" and "1 \<le> d" and "d \<le> days_in mo y" and "h < 24"
    and "mi < 60" and "s < 60"
  shows "parse_civil CHR ''T'' (pad 4 y @ ''-'' @ pad 2 mo @ ''-'' @ pad 2 d @ ''T'' @ pad 2 h @ '':'' @
      pad 2 mi @ '':'' @ pad 2 s @ rfc3339_zone z) =
    Some (\<lparr>t_year = int y, t_month = mo, t_day = d, t_hour = h, t_minute = mi, t_second = s, t_nano = 0,
      t_zone = 0\<rparr>, rfc3339_zone z)"
proof -
  have "days_in mo y < 100" by (simp add: days_in_def)
  with assms have less: "mo < 100" "d < 100" "h < 100" "mi < 100" "s < 100" by simp_all
  have guards: "(mo = 0 \<or> 12 < mo) = False" "(d < 1 \<or> days_in mo y < d) = False" "(24 \<le> h) = False"
    "(60 \<le> mi) = False" "(60 \<le> s) = False"
    using assms by auto
  have lit: "''-'' @ r = CHR ''-'' # r" "''T'' @ r = CHR ''T'' # r" "'':'' @ r = CHR '':'' # r" for r by simp_all
  note skips = skip_char_Cons [of "CHR ''-''"] skip_char_Cons [of "CHR ''T''"] skip_char_Cons [of "CHR '':''"]
  note steps = bind.bind_lunit prod.case if_False guards lit
    four_digits_pad [OF assms(1)] two_digit_pad [OF less(1)] two_digit_pad [OF less(2)]
    one_or_two_digits_pad [OF less(3)] two_digit_pad [OF less(4)] two_digit_pad [OF less(5)] skip_fraction_zone
  show ?thesis unfolding parse_civil_def by (simp only: steps skips char.inject simp_thms) 
qed

lemma parse_format_rfc3339:
  assumes "writable_time t"
  shows "parse_rfc3339 (format_rfc3339 t) = Some (t\<lparr>t_nano := 0\<rparr>)"
proof -
  define y where "y = nat (t_year t)"
  from assms have y: "t_year t = int y" "\<not> int y < 0" by (simp_all add: writable_time_def y_def)
  have w: "y < 10000" "t_month t \<noteq> 0" "t_month t \<le> 12" "1 \<le> t_day t" "t_day t \<le> days_in (t_month t) y"
    "t_hour t < 24" "t_minute t < 60" "t_second t < 60" "\<bar>t_zone t\<bar> < 1440"
    using assms by (auto simp: writable_time_def y_def)
  have "format_rfc3339 t = pad 4 y @ ''-'' @ pad 2 (t_month t) @ ''-'' @ pad 2 (t_day t) @ ''T'' @
      pad 2 (t_hour t) @ '':'' @ pad 2 (t_minute t) @ '':'' @ pad 2 (t_second t) @ rfc3339_zone (t_zone t)"
    by (simp only: format_rfc3339_def pad_year_def y nat_int if_False)
  with parse_civil_written [OF w(1-8)] y(1) show ?thesis
    by (simp add: parse_rfc3339_def parse_zone_written [OF w(9)])
qed

text \<open>What the writer writes has no space at either end, and is not empty.\<close>

lemma format_rfc3339_bounds:
  "format_rfc3339 t \<noteq> []"
  by (simp add: format_rfc3339_def)

end
