(* ===== verification/Web_Forms.thy ===== *)
theory Web_Forms
  imports Web_Widgets Go_Time Go_Utf8
begin

text \<open>
  \<open>forms/field.go\<close> and \<open>forms/form.go\<close>: the fields of a form with their validation, the form that binds
  submitted data, cleans it and collects errors, and its HTML. \<open>url.Values\<close> is a map to lists of strings.
  The map of errors is the list of its messages with the names they are filed under.
\<close>

subsection \<open>Fields\<close>

datatype field_kind =
  CharField | TextField | IntegerField | BoolField | EmailField | DateTimeField | ChoiceField

record form_field =
  ff_name :: string
  ff_label :: string
  ff_required :: bool
  ff_help :: string
  ff_widget :: "widget option"
  ff_kind :: field_kind
  ff_max_length :: int
  ff_choices :: "(string \<times> string) list"

text \<open>\<open>emailPattern\<close>: one at-sign between two texts without space, a dot inside the second.\<close>

definition email_char :: "char \<Rightarrow> bool" where
  "email_char c \<longleftrightarrow> c \<noteq> CHR ''@'' \<and> code c \<notin> {9, 10, 12, 13, 32}"

definition email_match :: "string \<Rightarrow> bool" where
  "email_match s =
     (case Split s CHR ''@'' of
        [a, d] \<Rightarrow>
          a \<noteq> [] \<and> list_all email_char a \<and> list_all email_char d \<and>
          list_ex (\<lambda>i. d ! i = CHR ''.'') [1..<length d - 1]
      | _ \<Rightarrow> False)"

definition clean :: "form_field \<Rightarrow> string \<Rightarrow> string + goval" where
  "clean f raw =
     (if ff_kind f = BoolField then Inr (VBool (is_truthy raw))
      else
        (let value = TrimSpace raw in
         if value = [] then (if ff_required f then Inl ''This field is required.'' else Inr (VString []))
         else
           (case ff_kind f of
              IntegerField \<Rightarrow>
                (case parse_int64 value of None \<Rightarrow> Inl ''Enter a whole number.'' | Some n \<Rightarrow> Inr (VInt I64 n))
            | EmailField \<Rightarrow>
                (if email_match value then Inr (VString value) else Inl ''Enter a valid email address.'')
            | ChoiceField \<Rightarrow>
                (if value \<in> fst ` set (ff_choices f) then Inr (VString value) else Inl ''Select a valid choice.'')
            | DateTimeField \<Rightarrow>
                (case parse_rfc3339 value of
                   Some t \<Rightarrow> Inr (VTime t)
                 | None \<Rightarrow>
                     (case parse_datetime value of
                        Some t \<Rightarrow> Inr (VTime t)
                      | None \<Rightarrow> Inl ''Enter a valid date/time.''))
            | BoolField \<Rightarrow> Inr (VBool (is_truthy raw))
            | _ \<Rightarrow>
                (if 0 < ff_max_length f \<and> ff_max_length f < int (rune_count value)
                 then Inl (''Ensure this value has at most '' @ itoa (ff_max_length f) @ '' characters.'')
                 else Inr (VString value)))))"

definition default_widget :: "form_field \<Rightarrow> widget" where
  "default_widget f =
     (case ff_widget f of
        Some w \<Rightarrow> w
      | None \<Rightarrow>
          (case ff_kind f of
             TextField \<Rightarrow> Textarea
           | IntegerField \<Rightarrow> NumberInput
           | BoolField \<Rightarrow> CheckboxInput
           | EmailField \<Rightarrow> EmailInput
           | ChoiceField \<Rightarrow> Select (ff_choices f)
           | _ \<Rightarrow> TextInput))"

subsection \<open>Forms\<close>

type_synonym url_values = "string \<rightharpoonup> string list"

record form =
  fm_fields :: "form_field list"
  fm_data :: "url_values option"
  fm_errors :: "(string \<times> string) list"
  fm_cleaned :: "string \<rightharpoonup> goval"
  fm_non_field :: "string list"
  fm_bound :: bool

definition new_form :: "form_field list \<Rightarrow> form" where
  "new_form fs = \<lparr>fm_fields = fs, fm_data = None, fm_errors = [], fm_cleaned = Map.empty,
     fm_non_field = [], fm_bound = False\<rparr>"

definition bind_form :: "url_values \<Rightarrow> form \<Rightarrow> form" where
  "bind_form data f = f\<lparr>fm_data := Some data, fm_bound := True\<rparr>"

text \<open>\<open>url.Values.Get\<close>, which a nil map answers as an empty one.\<close>

definition values_get :: "url_values \<Rightarrow> string \<Rightarrow> string" where
  "values_get data name = (case data name of Some (v # vs) \<Rightarrow> v | _ \<Rightarrow> [])"

definition form_data :: "form \<Rightarrow> url_values" where
  "form_data f = (case fm_data f of None \<Rightarrow> Map.empty | Some d \<Rightarrow> d)"

definition raw_value :: "form \<Rightarrow> form_field \<Rightarrow> string" where
  "raw_value f field =
     (if ff_kind field = BoolField then
        (case form_data f (ff_name field) of
           Some vs \<Rightarrow> (let v = values_get (form_data f) (ff_name field) in if v = [] then ''on'' else v)
         | None \<Rightarrow> [])
      else values_get (form_data f) (ff_name field))"

definition clean_field :: "form_field \<Rightarrow> form \<Rightarrow> form" where
  "clean_field field f =
     (case clean field (raw_value f field) of
        Inl msg \<Rightarrow> f\<lparr>fm_errors := fm_errors f @ [(ff_name field, msg)]\<rparr>
      | Inr val \<Rightarrow> f\<lparr>fm_cleaned := (fm_cleaned f)(ff_name field \<mapsto> val)\<rparr>)"

definition is_valid :: "form \<Rightarrow> bool \<times> form" where
  "is_valid f =
     (let f1 = fold clean_field (fm_fields f)
                 (f\<lparr>fm_errors := map (\<lambda>msg. ([], msg)) (fm_non_field f), fm_cleaned := Map.empty\<rparr>)
      in (fm_errors f1 = [], f1))"

definition add_error :: "string \<Rightarrow> string \<Rightarrow> form \<Rightarrow> form" where
  "add_error field msg f =
     (let f1 = (if field = [] then f\<lparr>fm_non_field := fm_non_field f @ [msg]\<rparr> else f)
      in f1\<lparr>fm_errors := fm_errors f1 @ [(field, msg)]\<rparr>)"

definition errors_of :: "form \<Rightarrow> string \<Rightarrow> string list" where
  "errors_of f name = map snd (filter (\<lambda>e. fst e = name) (fm_errors f))"

definition empty_choice_label :: string where
  "empty_choice_label = ''---------''"

definition with_choices :: "(string \<times> string) list \<Rightarrow> form_field \<Rightarrow> form_field" where
  "with_choices choices field =
     (let withEmpty = ([], empty_choice_label) # choices;
          field = field\<lparr>ff_choices := withEmpty\<rparr>
      in (case ff_widget field of
            Some (Select cs) \<Rightarrow> field\<lparr>ff_widget := Some (Select withEmpty)\<rparr>
          | _ \<Rightarrow> field))"

fun set_choices_in :: "string \<Rightarrow> (string \<times> string) list \<Rightarrow> form_field list \<Rightarrow> form_field list" where
  "set_choices_in name choices [] = []"
| "set_choices_in name choices (field # fs) =
     (if ff_name field \<noteq> name then field # set_choices_in name choices fs
      else with_choices choices field # fs)"

definition set_choices :: "string \<Rightarrow> (string \<times> string) list \<Rightarrow> form \<Rightarrow> form" where
  "set_choices name choices f = f\<lparr>fm_fields := set_choices_in name choices (fm_fields f)\<rparr>"

definition bound_value :: "form \<Rightarrow> string \<Rightarrow> string" where
  "bound_value f name = (case fm_data f of None \<Rightarrow> [] | Some d \<Rightarrow> values_get d name)"

subsection \<open>Rendering\<close>

definition render_non_field :: "string \<Rightarrow> string" where
  "render_non_field msg = ''<p '' @ attr ''class'' ''errornote'' @ ''>'' @ html_escape msg @ ''</p>''"

definition render_error :: "string \<Rightarrow> string" where
  "render_error msg = ''<span '' @ attr ''class'' ''error'' @ ''>'' @ html_escape msg @ ''</span>''"

definition field_label :: "form_field \<Rightarrow> string" where
  "field_label field = (if ff_label field = [] then ff_name field else ff_label field)"

definition render_field :: "form \<Rightarrow> form_field \<Rightarrow> string" where
  "render_field f field =
     ''<p><label>'' @ html_escape (field_label field) @ ''</label>'' @
     render_widget (default_widget field) (ff_name field) (bound_value f (ff_name field)) [] @
     concat (map render_error (errors_of f (ff_name field))) @ ''</p>''"

definition render_form :: "form \<Rightarrow> string" where
  "render_form f =
     concat (map render_non_field (errors_of f [])) @ concat (map (render_field f) (fm_fields f))"

subsection \<open>What a form reads as\<close>

definition element :: "string list \<Rightarrow> string \<Rightarrow> html_token list \<Rightarrow> html_token list" where
  "element open close toks = Tag open # toks @ [Tag [close]]"

definition field_tokens :: "form \<Rightarrow> form_field \<Rightarrow> html_token list" where
  "field_tokens f field =
     element [''p''] ''/p''
       (element [''label''] ''/label'' (text_tokens (field_label field)) @
        widget_tokens (default_widget field) (ff_name field) (bound_value f (ff_name field)) @
        concat (map (\<lambda>msg. element [''span class='', ''error'', []] ''/span'' (text_tokens msg))
                  (errors_of f (ff_name field))))"

definition form_tokens :: "form \<Rightarrow> html_token list" where
  "form_tokens f =
     concat (map (\<lambda>msg. element [''p class='', ''errornote'', []] ''/p'' (text_tokens msg)) (errors_of f [])) @
     concat (map (field_tokens f) (fm_fields f))"

lemma reads_element:
  assumes "reads_as open [Tag toks]" and "plain_markup close"
  shows "reads_as (open @ html_escape s @ ''<'' @ close @ ''>'') (element toks close (text_tokens s))"
proof -
  have "reads_as (CHR ''<'' # close @ ''>'') [Tag [close]]" using reads_close [OF assms(2)] by simp
  from reads_as_append [OF assms(1) reads_as_text [OF this]] show ?thesis by (simp add: element_def)
qed

lemma reads_class:
  "plain_markup p \<Longrightarrow> html_escape v = v \<Longrightarrow> reads_as (''<'' @ (p @ [dquote] @ v @ [dquote]) @ ''>'') [Tag [p, v, []]]"
  using reads_tag_body [of "[(p, v)]" "[]"] by (simp add: tag_body_def plain_markup_def)

lemma escape_classes: "html_escape ''errornote'' = ''errornote''" "html_escape ''error'' = ''error''"
  by code_simp+

lemma reads_non_field:
  "reads_as (render_non_field msg) (element [''p class='', ''errornote'', []] ''/p'' (text_tokens msg))"
  using reads_element [OF reads_class [of "''p class=''" "''errornote''"], of "''/p''" msg]
  by (simp add: plain_markup_def escape_classes render_non_field_def attr_def)

lemma reads_error:
  "reads_as (render_error msg) (element [''span class='', ''error'', []] ''/span'' (text_tokens msg))"
  using reads_element [OF reads_class [of "''span class=''" "''error''"], of "''/span''" msg]
  by (simp add: plain_markup_def escape_classes render_error_def attr_def)

lemma reads_field: "reads_as (render_field f field) (field_tokens f field)"
proof -
  have "reads_as (''<label>'' @ html_escape s @ ''</label>'') (element [''label''] ''/label'' (text_tokens s))" for s
    using reads_element [of "''<label>''" "[''label'']" "''/label''" s] reads_close [of "''label''"]
    by (simp add: plain_markup_def)
  note label = this
  have p: "reads_as ''<p>'' [Tag [''p'']]" "reads_as ''</p>'' [Tag [''/p'']]"
    using reads_close [of "''p''"] reads_close [of "''/p''"] by (simp_all add: plain_markup_def)
  have errs: "reads_as (concat (map render_error ms))
      (concat (map (\<lambda>msg. element [''span class='', ''error'', []] ''/span'' (text_tokens msg)) ms))" for ms
    by (rule reads_as_concat) (simp add: reads_error)
  from reads_as_append [OF p(1) reads_as_append [OF label reads_as_append [OF reads_widget
        reads_as_append [OF errs p(2)]]]]
  show ?thesis by (simp add: render_field_def field_tokens_def element_def)
qed

text \<open>C29: The HTML of a form reads back as its fields: a paragraph for each with its label, its control with
  name and bound value, and its error messages, after the messages of the form, whatever text they hold.
  No submitted value, label, choice or message can add a tag or leave its place.\<close>

theorem rendered_form_reads_back: "read_html (render_form f) = form_tokens f"
proof -
  have "reads_as (concat (map render_non_field ms))
      (concat (map (\<lambda>msg. element [''p class='', ''errornote'', []] ''/p'' (text_tokens msg)) ms))" for ms
    by (rule reads_as_concat) (simp add: reads_non_field)
  moreover have "reads_as (concat (map (render_field f) fs)) (concat (map (field_tokens f) fs))" for fs
    by (rule reads_as_concat) (simp add: reads_field)
  ultimately have "reads_as (render_form f) (form_tokens f)"
    by (simp add: render_form_def form_tokens_def reads_as_append)
  then show ?thesis by (simp add: reads_as_def) (metis append_Nil2 read_html.simps(1))
qed

end
