(* ===== verification/Web_ModelForms.thy ===== *)
theory Web_ModelForms
  imports Web_Forms
begin

text \<open>
  \<open>forms/modelform.go\<close> and \<open>forms/modelform_options.go\<close>: the form derived from a model, the same form bound
  to the values of an instance, and storing the cleaned values of a form in an instance. Storing a value
  of the wrong kind by reflection panics, which is the error \<open>ReflectPanic\<close>.
\<close>

subsection \<open>Options\<close>

record form_config =
  fc_only :: "string list"
  fc_exclude :: "string set"
  fc_labels :: "string \<rightharpoonup> string"
  fc_widgets :: "string \<rightharpoonup> widget"
  fc_help_texts :: "string \<rightharpoonup> string"
  fc_required :: "string \<rightharpoonup> bool"

type_synonym form_option = "form_config \<Rightarrow> form_config"

definition with_fields :: "string list \<Rightarrow> form_option" where
  "with_fields names c = c\<lparr>fc_only := fc_only c @ names\<rparr>"

definition with_exclude :: "string list \<Rightarrow> form_option" where
  "with_exclude names c = c\<lparr>fc_exclude := fc_exclude c \<union> set names\<rparr>"

definition with_label :: "string \<Rightarrow> string \<Rightarrow> form_option" where
  "with_label name lab c = c\<lparr>fc_labels := (fc_labels c)(name \<mapsto> lab)\<rparr>"

definition with_widget :: "string \<Rightarrow> widget \<Rightarrow> form_option" where
  "with_widget name w c = c\<lparr>fc_widgets := (fc_widgets c)(name \<mapsto> w)\<rparr>"

definition with_help_text :: "string \<Rightarrow> string \<Rightarrow> form_option" where
  "with_help_text name help c = c\<lparr>fc_help_texts := (fc_help_texts c)(name \<mapsto> help)\<rparr>"

definition with_required :: "string \<Rightarrow> bool \<Rightarrow> form_option" where
  "with_required name required c = c\<lparr>fc_required := (fc_required c)(name \<mapsto> required)\<rparr>"

definition new_form_config :: "form_option list \<Rightarrow> form_config" where
  "new_form_config opts = fold (\<lambda>opt c. opt c) opts
     \<lparr>fc_only = [], fc_exclude = {}, fc_labels = Map.empty, fc_widgets = Map.empty, fc_help_texts = Map.empty,
      fc_required = Map.empty\<rparr>"

definition included_names :: "form_config \<Rightarrow> string list \<Rightarrow> string list" where
  "included_names c allNames =
     filter (\<lambda>name. name \<notin> fc_exclude c) (if fc_only c \<noteq> [] then fc_only c else allNames)"

definition apply_config :: "form_config \<Rightarrow> form_field \<Rightarrow> form_field" where
  "apply_config c f =
     (let name = ff_name f;
          f = (case fc_labels c name of None \<Rightarrow> f | Some lab \<Rightarrow> f\<lparr>ff_label := lab\<rparr>);
          f = (case fc_widgets c name of None \<Rightarrow> f | Some w \<Rightarrow> f\<lparr>ff_widget := Some w\<rparr>);
          f = (case fc_help_texts c name of None \<Rightarrow> f | Some help \<Rightarrow> f\<lparr>ff_help := help\<rparr>)
      in (case fc_required c name of None \<Rightarrow> f | Some req \<Rightarrow> f\<lparr>ff_required := req\<rparr>))"

subsection \<open>Labels\<close>

definition cut_before :: "char \<Rightarrow> char \<Rightarrow> string \<Rightarrow> bool" where
  "cut_before prev cur rest \<longleftrightarrow>
     is_upper cur \<and>
     (is_lower prev \<or> (is_upper prev \<and> (case rest of [] \<Rightarrow> False | c # _ \<Rightarrow> is_lower c)))"

fun split_words :: "string \<Rightarrow> char \<Rightarrow> string \<Rightarrow> string list" where
  "split_words word prev [] = [word]"
| "split_words word prev (cur # rest) =
     (if cut_before prev cur rest then word # split_words [cur] cur rest
      else split_words (word @ [cur]) cur rest)"

definition split_identifier :: "string \<Rightarrow> string list" where
  "split_identifier s = (case s of [] \<Rightarrow> [] | c # rest \<Rightarrow> split_words [c] c rest)"

definition is_acronym :: "string \<Rightarrow> bool" where
  "is_acronym w \<longleftrightarrow> w \<noteq> [] \<and> list_all is_upper w"

definition humanize :: "string \<Rightarrow> string" where
  "humanize name =
     (case split_identifier name of
        [] \<Rightarrow> name
      | w # ws \<Rightarrow>
          (if is_acronym w then w else map upper_char (take 1 w) @ ToLower (drop 1 w)) @
          concat (map (\<lambda>w. '' '' @ (if is_acronym w then w else ToLower w)) ws))"

subsection \<open>The form of a model\<close>

definition to_form_choices :: "choice list \<Rightarrow> (string \<times> string) list" where
  "to_form_choices cs = map (\<lambda>c. (c_value c, c_label c)) cs"

definition plain_field :: "field \<Rightarrow> field_kind \<Rightarrow> widget \<Rightarrow> form_field" where
  "plain_field mf k w = \<lparr>ff_name = f_name mf, ff_label = humanize (f_name mf), ff_required = \<not> f_null mf,
     ff_help = [], ff_widget = Some w, ff_kind = k, ff_max_length = 0, ff_choices = []\<rparr>"

definition form_field_for :: "field \<Rightarrow> form_field option" where
  "form_field_for mf =
     (if f_auto_now mf \<or> f_auto_now_add mf then None
      else if f_rel mf \<noteq> None then Some (plain_field mf ChoiceField (Select []))
      else
        (case f_kind mf of
           KindAuto \<Rightarrow> None
         | KindChar \<Rightarrow>
             (if f_choices mf \<noteq> [] then
                (let choices = to_form_choices (f_choices mf)
                 in Some ((plain_field mf ChoiceField (Select choices))\<lparr>ff_choices := choices\<rparr>))
              else Some ((plain_field mf CharField TextInput)\<lparr>ff_max_length := f_max_length mf\<rparr>))
         | KindText \<Rightarrow> Some (plain_field mf TextField Textarea)
         | KindInt \<Rightarrow> Some (plain_field mf IntegerField NumberInput)
         | KindBool \<Rightarrow> Some ((plain_field mf BoolField CheckboxInput)\<lparr>ff_required := False\<rparr>)
         | KindDateTime \<Rightarrow> Some (plain_field mf DateTimeField TextInput)))"

definition model_form_fields :: "model \<Rightarrow> form_option list \<Rightarrow> form_field list" where
  "model_form_fields m opts =
     (let cfg = new_form_config opts;
          made = List.map_filter form_field_for (m_fields m);
          built = map_of (rev (map (\<lambda>ff. (ff_name ff, ff)) made));
          order = map ff_name made
      in map (apply_config cfg) (List.map_filter built (included_names cfg order)))"

definition from_model :: "model \<Rightarrow> form_option list \<Rightarrow> form" where
  "from_model m opts = new_form (model_form_fields m opts)"

subsection \<open>The form of an instance\<close>

text \<open>\<open>time.Time.IsZero\<close>: the first instant of the year 1 in UTC, in any zone.\<close>

definition time_is_zero :: "gotime \<Rightarrow> bool" where
  "time_is_zero t \<longleftrightarrow>
     t_nano t = 0 \<and> t_second t = 0 \<and>
     (if 0 \<le> t_zone t
      then t_year t = 1 \<and> t_month t = 1 \<and> t_day t = 1 \<and> int (t_hour t * 60 + t_minute t) = t_zone t
      else t_year t = 0 \<and> t_month t = 12 \<and> t_day t = 31 \<and> int (t_hour t * 60 + t_minute t) = 1440 + t_zone t)"

definition stringify_value :: "field \<Rightarrow> goval \<Rightarrow> string option" where
  "stringify_value mf v =
     (if f_rel mf \<noteq> None then (if fk_pk v = 0 then None else Some (itoa (fk_pk v)))
      else
        (case v of
           VString s \<Rightarrow> Some s
         | VInt k n \<Rightarrow> Some (itoa n)
         | VUint k n \<Rightarrow> Some (itoa n)
         | VBool b \<Rightarrow> if b then Some ''true'' else None
         | VTime t \<Rightarrow> if time_is_zero t then None else Some (format_rfc3339 t)
         | _ \<Rightarrow> None))"

definition struct_data :: "model \<Rightarrow> struct_val \<Rightarrow> form_field \<Rightarrow> url_values \<Rightarrow> url_values" where
  "struct_data m obj field data =
     (case field_by_name m (ff_name field) of
        None \<Rightarrow> data
      | Some mf \<Rightarrow>
          (case stringify_value mf (obj ! f_index mf) of
             None \<Rightarrow> data
           | Some s \<Rightarrow> data(f_name mf \<mapsto> [s])))"

definition from_struct :: "model \<Rightarrow> struct_val \<Rightarrow> form_option list \<Rightarrow> form" where
  "from_struct m obj opts =
     (let f = from_model m opts in bind_form (fold (struct_data m obj) (fm_fields f) Map.empty) f)"

subsection \<open>Storing cleaned values\<close>

datatype populate_error =
    NotAValidId string
  | BadFKValue goval
  | CannotAssignInt string
  | UnsupportedCleaned string goval
  | ReflectPanic string

definition fk_pk_from_cleaned :: "goval \<Rightarrow> populate_error + int" where
  "fk_pk_from_cleaned val =
     (case val of
        VInt k n \<Rightarrow> if k = I64 then Inr n else Inl (BadFKValue val)
      | VString s \<Rightarrow>
          (if TrimSpace s = [] then Inr 0
           else (case parse_int64 s of None \<Rightarrow> Inl (NotAValidId s) | Some n \<Rightarrow> Inr n))
      | _ \<Rightarrow> Inl (BadFKValue val))"

definition set_scalar :: "string \<Rightarrow> goval \<Rightarrow> goval \<Rightarrow> populate_error + goval" where
  "set_scalar name fv val =
     (case val of
        VString s \<Rightarrow> (case fv of VString _ \<Rightarrow> Inr (VString s) | _ \<Rightarrow> Inl (ReflectPanic name))
      | VInt I64 n \<Rightarrow>
          (case fv of
             VInt k _ \<Rightarrow> Inr (VInt k (wrap_int k n))
           | VUint k _ \<Rightarrow> Inr (VUint k (wrap_uint k n))
           | _ \<Rightarrow> Inl (CannotAssignInt name))
      | VBool b \<Rightarrow> (case fv of VBool _ \<Rightarrow> Inr (VBool b) | _ \<Rightarrow> Inl (ReflectPanic name))
      | VTime t \<Rightarrow> (case fv of VTime _ \<Rightarrow> Inr (VTime t) | _ \<Rightarrow> Inl (ReflectPanic name))
      | _ \<Rightarrow> Inl (UnsupportedCleaned name val))"

definition populate_field :: "(string \<rightharpoonup> goval) \<Rightarrow> struct_val \<Rightarrow> field \<Rightarrow> populate_error + struct_val" where
  "populate_field cleaned obj mf =
     (case cleaned (f_name mf) of
        None \<Rightarrow> Inr obj
      | Some val \<Rightarrow>
          (let i = f_index mf in
           if f_rel mf \<noteq> None
           then bind_err (fk_pk_from_cleaned val) (\<lambda>pk. Inr (obj[i := fk_set_pk pk (obj ! i)]))
           else bind_err (set_scalar (f_name mf) (obj ! i) val) (\<lambda>v. Inr (obj[i := v]))))"

definition populate_struct :: "model \<Rightarrow> (string \<rightharpoonup> goval) \<Rightarrow> struct_val \<Rightarrow> populate_error + struct_val" where
  "populate_struct m cleaned dest = loop_err (populate_field cleaned) dest (m_fields m)"

subsection \<open>What a valid form holds\<close>

lemma clean_field_data [simp]:
  "fm_data (clean_field fld f) = fm_data f" "fm_fields (clean_field fld f) = fm_fields f"
  by (simp_all add: clean_field_def split: sum.splits)

lemma raw_value_cong: "fm_data g = fm_data f \<Longrightarrow> raw_value g fld = raw_value f fld"
proof -
  assume "fm_data g = fm_data f"
  then have "form_data g = form_data f" by (simp add: form_data_def)
  then show ?thesis by (simp only: raw_value_def)
qed

lemma fold_clean_field:
  assumes "fm_errors (fold clean_field fs f) = []"
  shows "fm_errors f = [] \<and>
    (\<forall>fld \<in> set fs. \<exists>v. clean fld (raw_value f fld) = Inr v) \<and>
    (\<forall>name v. fm_cleaned (fold clean_field fs f) name = Some v \<longrightarrow>
       fm_cleaned f name = Some v \<and> name \<notin> ff_name ` set fs \<or>
       (\<exists>fld \<in> set fs. ff_name fld = name \<and> clean fld (raw_value f fld) = Inr v)) \<and>
    (\<forall>name. fm_cleaned (fold clean_field fs f) name \<noteq> None \<longleftrightarrow> fm_cleaned f name \<noteq> None \<or> name \<in> ff_name ` set fs)"
  using assms
proof (induction fs arbitrary: f)
  case Nil
  then show ?case by simp
next
  case (Cons fld fs)
  let ?g = "clean_field fld f"
  have raw: "raw_value ?g x = raw_value f x" for x by (rule raw_value_cong) simp
  from Cons.prems have "fm_errors (fold clean_field fs ?g) = []" by simp
  note ih = Cons.IH [OF this, unfolded raw]
  then have "fm_errors ?g = []" by blast
  then obtain v where v: "clean fld (raw_value f fld) = Inr v" and f: "fm_errors f = []"
    by (auto simp: clean_field_def split: sum.splits)
  then have g: "fm_cleaned ?g = (fm_cleaned f)(ff_name fld \<mapsto> v)" by (simp add: clean_field_def)
  show ?case
  proof (intro conjI allI impI ballI)
    show "fm_errors f = []" by (rule f)
    show "\<exists>v. clean x (raw_value f x) = Inr v" if "x \<in> set (fld # fs)" for x
      using that v ih by auto
    show "fm_cleaned f name = Some w \<and> name \<notin> ff_name ` set (fld # fs) \<or>
        (\<exists>x \<in> set (fld # fs). ff_name x = name \<and> clean x (raw_value f x) = Inr w)"
      if "fm_cleaned (fold clean_field (fld # fs) f) name = Some w" for name w
    proof -
      from that ih have "fm_cleaned ?g name = Some w \<and> name \<notin> ff_name ` set fs \<or>
          (\<exists>x \<in> set fs. ff_name x = name \<and> clean x (raw_value f x) = Inr w)" by simp
      with v g show ?thesis by (auto split: if_splits)
    qed
    show "fm_cleaned (fold clean_field (fld # fs) f) name \<noteq> None \<longleftrightarrow>
        fm_cleaned f name \<noteq> None \<or> name \<in> ff_name ` set (fld # fs)" for name
    proof -
      have "fm_cleaned (fold clean_field fs ?g) name \<noteq> None \<longleftrightarrow> fm_cleaned ?g name \<noteq> None \<or> name \<in> ff_name ` set fs"
        using ih by blast
      with g show ?thesis by (auto split: if_splits)
    qed
  qed
qed

lemma valid_form:
  assumes "is_valid f = (True, f')"
  shows "fm_cleaned f' name = Some v \<Longrightarrow>
      \<exists>fld \<in> set (fm_fields f). ff_name fld = name \<and> clean fld (raw_value f fld) = Inr v"
    and "fm_cleaned f' name \<noteq> None \<longleftrightarrow> name \<in> ff_name ` set (fm_fields f)"
proof -
  let ?f = "f\<lparr>fm_errors := map (\<lambda>msg. ([], msg)) (fm_non_field f), fm_cleaned := Map.empty\<rparr>"
  have raw: "raw_value ?f x = raw_value f x" for x by (rule raw_value_cong) simp
  from assms have e: "fm_errors (fold clean_field (fm_fields f) ?f) = []"
    and f': "f' = fold clean_field (fm_fields f) ?f"
    by (auto simp: is_valid_def Let_def)
  note all = fold_clean_field [OF e, unfolded raw, folded f']
  from all have sound: "fm_cleaned f' name = Some v \<longrightarrow> fm_cleaned ?f name = Some v \<and> name \<notin> ff_name ` set (fm_fields f) \<or>
      (\<exists>fld \<in> set (fm_fields f). ff_name fld = name \<and> clean fld (raw_value f fld) = Inr v)" by blast
  show "\<exists>fld \<in> set (fm_fields f). ff_name fld = name \<and> clean fld (raw_value f fld) = Inr v"
    if "fm_cleaned f' name = Some v" using sound that by simp
  from all have "fm_cleaned f' name \<noteq> None \<longleftrightarrow> fm_cleaned ?f name \<noteq> None \<or> name \<in> ff_name ` set (fm_fields f)" by blast
  then show "fm_cleaned f' name \<noteq> None \<longleftrightarrow> name \<in> ff_name ` set (fm_fields f)" by simp
qed

subsection \<open>The fields of a model's form\<close>

lemma apply_config_simps [simp]:
  "ff_name (apply_config c f) = ff_name f" "ff_kind (apply_config c f) = ff_kind f"
  "ff_max_length (apply_config c f) = ff_max_length f" "ff_choices (apply_config c f) = ff_choices f"
  by (simp_all add: apply_config_def Let_def split: option.splits)

lemma with_choices_simps [simp]:
  "ff_name (with_choices cs f) = ff_name f" "ff_kind (with_choices cs f) = ff_kind f"
  "ff_max_length (with_choices cs f) = ff_max_length f" "ff_required (with_choices cs f) = ff_required f"
  by (simp_all add: with_choices_def Let_def split: option.splits widget.splits)

lemma form_field_for_name: "form_field_for mf = Some ff \<Longrightarrow> ff_name ff = f_name mf"
  by (auto simp: form_field_for_def plain_field_def Let_def split: if_splits kind.splits)

text \<open>A field of the form comes from the field of the model with its name.\<close>

definition from_field :: "field \<Rightarrow> form_field \<Rightarrow> bool" where
  "from_field mf fld \<longleftrightarrow> (\<exists>ff. form_field_for mf = Some ff \<and> ff_name fld = ff_name ff \<and> ff_kind fld = ff_kind ff)"

lemma model_form_fields_from:
  assumes "fld \<in> set (model_form_fields m opts)"
  shows "\<exists>mf \<in> set (m_fields m). f_name mf = ff_name fld \<and> from_field mf fld"
proof -
  let ?made = "List.map_filter form_field_for (m_fields m)"
  from assms obtain ff name where fld: "fld = apply_config (new_form_config opts) ff"
    and "map_of (rev (map (\<lambda>ff. (ff_name ff, ff)) ?made)) name = Some ff"
    by (auto simp: model_form_fields_def Let_def List.map_filter_def)
  then have "ff \<in> set ?made" by (auto dest!: map_of_SomeD)
  then obtain mf where mf: "mf \<in> set (m_fields m)" "form_field_for mf = Some ff"
    by (auto simp: List.map_filter_def)
  then show ?thesis
    using form_field_for_name [OF mf(2)] by (auto simp: from_field_def fld)
qed

lemma set_choices_in_from:
  assumes "\<forall>fld \<in> set fs. \<exists>mf \<in> ms. f_name mf = ff_name fld \<and> from_field mf fld"
  shows "\<forall>fld \<in> set (set_choices_in name cs fs). \<exists>mf \<in> ms. f_name mf = ff_name fld \<and> from_field mf fld"
  using assms by (induction name cs fs rule: set_choices_in.induct) (auto simp: from_field_def)

lemma set_choices_in_names: "map ff_name (set_choices_in name cs fs) = map ff_name fs"
  by (induction name cs fs rule: set_choices_in.induct) auto

lemma set_choices_data [simp]: "fm_data (set_choices name cs f) = fm_data f"
  by (simp add: set_choices_def)

text \<open>The options of the foreign keys filled in, one field after the other.\<close>

definition fill_choices :: "(string \<times> (string \<times> string) list) list \<Rightarrow> form \<Rightarrow> form" where
  "fill_choices cs f = fold (\<lambda>(name, choices). set_choices name choices) cs f"

lemma fill_choices_simps:
  "fm_data (fill_choices cs f) = fm_data f"
  "map ff_name (fm_fields (fill_choices cs f)) = map ff_name (fm_fields f)"
  by (induction cs arbitrary: f) (auto simp: fill_choices_def set_choices_def set_choices_in_names)

lemma fill_choices_from:
  "\<forall>fld \<in> set (fm_fields f). \<exists>mf \<in> ms. f_name mf = ff_name fld \<and> from_field mf fld \<Longrightarrow>
   \<forall>fld \<in> set (fm_fields (fill_choices cs f)). \<exists>mf \<in> ms. f_name mf = ff_name fld \<and> from_field mf fld"
proof (induction cs arbitrary: f)
  case (Cons c cs)
  obtain name choices where c: "c = (name, choices)" by (cases c)
  from Cons.IH [of "set_choices name choices f"] Cons.prems set_choices_in_from [OF Cons.prems]
  show ?case by (simp add: c fill_choices_def set_choices_def)
qed (simp add: fill_choices_def)

subsection \<open>The data of an instance\<close>

lemma model_names:
  assumes "model_wf m"
  shows "mf \<in> set (m_fields m) \<Longrightarrow> field_by_name m (f_name mf) = Some mf"
    and "field_by_name m name = Some mf \<Longrightarrow> mf \<in> set (m_fields m) \<and> f_name mf = name"
proof -
  have n: "m_by_name m n = Some i \<longleftrightarrow> i < length (m_fields m) \<and> f_name (m_fields m ! i) = n" for n i
    using assms unfolding model_wf_def by blast
  show "field_by_name m (f_name mf) = Some mf" if mf: "mf \<in> set (m_fields m)"
  proof -
    from mf obtain i where i: "i < length (m_fields m)" "mf = m_fields m ! i" by (auto simp: in_set_conv_nth)
    with n have "m_by_name m (f_name mf) = Some i" by simp
    with i show ?thesis by (simp add: field_by_name_def)
  qed
  show "field_by_name m name = Some mf \<Longrightarrow> mf \<in> set (m_fields m) \<and> f_name mf = name"
    using n by (auto simp: field_by_name_def)
qed

lemma struct_data_value:
  assumes "model_wf m" and "mf \<in> set (m_fields m)"
  shows "fold (struct_data m obj) fs data (f_name mf) =
    (if f_name mf \<in> ff_name ` set fs then
       (case stringify_value mf (obj ! f_index mf) of None \<Rightarrow> data (f_name mf) | Some s \<Rightarrow> Some [s])
     else data (f_name mf))"
proof (induction fs arbitrary: data)
  case (Cons fld fs)
  have "struct_data m obj fld data (f_name mf) =
      (if ff_name fld = f_name mf then
         (case stringify_value mf (obj ! f_index mf) of None \<Rightarrow> data (f_name mf) | Some s \<Rightarrow> Some [s])
       else data (f_name mf))"
    using model_names [OF assms(1)] assms(2)
    by (auto simp: struct_data_def split: option.splits)
  with Cons show ?case by (auto split: option.splits)
qed simp

text \<open>What the data of an instance says of an included field.\<close>

lemma from_struct_data:
  assumes "model_wf m" and "mf \<in> set (m_fields m)" and "f = fill_choices cs (from_struct m obj opts)"
    and "fld \<in> set (fm_fields f)" and "ff_name fld = f_name mf"
  shows "form_data f (ff_name fld) = map_option (\<lambda>s. [s]) (stringify_value mf (obj ! f_index mf))"
proof -
  let ?g = "from_struct m obj opts"
  have "ff_name ` set (fm_fields f) = ff_name ` set (model_form_fields m opts)"
    using fill_choices_simps(2) [of cs ?g] unfolding assms(3)
    by (simp add: from_struct_def Let_def bind_form_def from_model_def new_form_def) (metis list.set_map)
  with assms(4,5) have "f_name mf \<in> ff_name ` set (model_form_fields m opts)" by (metis imageI)
  with struct_data_value [OF assms(1,2), of obj "model_form_fields m opts" Map.empty] assms(5)
  show ?thesis
    by (simp add: form_data_def assms(3) fill_choices_simps(1))
      (simp add: from_struct_def Let_def bind_form_def from_model_def new_form_def split: option.splits)
qed

subsection \<open>Texts that survive a form\<close>

lemma TrimSpace_id: "s = [] \<or> (\<not> is_space (hd s) \<and> \<not> is_space (last s)) \<Longrightarrow> TrimSpace s = s"
proof (cases "s = []")
  case False
  assume "s = [] \<or> (\<not> is_space (hd s) \<and> \<not> is_space (last s))"
  with False have "dropWhile is_space s = s" "dropWhile is_space (rev s) = rev s"
    by (auto simp: dropWhile_eq_self_iff hd_rev)
  then show ?thesis by (simp add: TrimSpace_def)
qed (simp add: TrimSpace_def)

lemma TrimSpace_Nil [simp]: "TrimSpace [] = []"
  by (simp add: TrimSpace_def)

lemma digit_not_space: "is_digit c \<Longrightarrow> \<not> is_space c"
  by (auto simp: is_digit_def is_space_def)

lemma utoa_ends: "is_digit (last (utoa n))" "is_digit (hd (utoa n))"
  using utoa_digits [of n] utoa_nonempty [of n]
  by (simp_all add: list_all_iff del: utoa_nonempty)

lemma TrimSpace_itoa: "TrimSpace (itoa n) = itoa n"
proof (rule TrimSpace_id)
  have "\<not> is_space CHR ''-''" by code_simp
  then show "itoa n = [] \<or> \<not> is_space (hd (itoa n)) \<and> \<not> is_space (last (itoa n))"
    using utoa_ends digit_not_space by (simp add: itoa_def)
qed

lemma itoa_nonempty: "itoa n \<noteq> []"
  by (simp add: itoa_def)

lemma pad_ends: "pad w n \<noteq> []" "is_digit (last (pad w n))" "is_digit (hd (pad w n))"
proof -
  show ne: "pad w n \<noteq> []" by (simp add: pad_def)
  with pad_digits [of w n] show "is_digit (last (pad w n))" "is_digit (hd (pad w n))"
    by (simp_all add: list_all_iff)
qed

lemma TrimSpace_format:
  assumes "0 \<le> t_year t"
  shows "TrimSpace (format_rfc3339 t) = format_rfc3339 t"
proof (rule TrimSpace_id)
  have "last (format_rfc3339 t) = last (rfc3339_zone (t_zone t))"
    by (simp add: format_rfc3339_def rfc3339_zone_def)
  moreover have "\<not> is_space (last (rfc3339_zone z))" for z
    using digit_not_space pad_ends by (simp add: rfc3339_zone_def) (simp add: is_space_def code_def)
  moreover have "hd (format_rfc3339 t) = hd (pad 4 (nat (t_year t)))"
    using assms pad_ends(1) by (simp add: format_rfc3339_def pad_year_def)
  ultimately show "format_rfc3339 t = [] \<or> \<not> is_space (hd (format_rfc3339 t)) \<and> \<not> is_space (last (format_rfc3339 t))"
    using digit_not_space pad_ends by simp
qed

subsection \<open>Properties\<close>

text \<open>
  The values that a form can show and read back: texts without space at their ends, unsigned numbers below
  \<open>2 ^ 63\<close>, times with a zone within a day and no fraction of a second, other than the zero time.
\<close>

definition survives :: "goval \<Rightarrow> bool" where
  "survives v \<longleftrightarrow>
     (case v of
        VString s \<Rightarrow> TrimSpace s = s
      | VUint k n \<Rightarrow> n < 2 ^ 63
      | VTime t \<Rightarrow> writable_time t \<and> t_nano t = 0 \<and> \<not> time_is_zero t
      | _ \<Rightarrow> True)"

lemma from_field_kind:
  assumes "from_field mf fld"
  shows "ff_kind fld =
    (if f_rel mf \<noteq> None then ChoiceField
     else case f_kind mf of KindChar \<Rightarrow> (if f_choices mf \<noteq> [] then ChoiceField else CharField)
       | KindText \<Rightarrow> TextField | KindInt \<Rightarrow> IntegerField | KindBool \<Rightarrow> BoolField | _ \<Rightarrow> DateTimeField) \<and>
    (f_rel mf = None \<longrightarrow> f_kind mf \<noteq> KindAuto)"
  using assms
  by (auto simp: from_field_def form_field_for_def plain_field_def Let_def split: if_splits kind.splits)

lemma raw_value_of:
  assumes "form_data f (ff_name fld) = map_option (\<lambda>s. [s]) r"
  shows "raw_value f fld =
    (case r of None \<Rightarrow> [] | Some s \<Rightarrow> if ff_kind fld = BoolField \<and> s = [] then ''on'' else s)"
  using assms by (cases r) (simp_all add: raw_value_def values_get_def Let_def)

lemma clean_blank: "clean fld [] = Inr w \<Longrightarrow> ff_kind fld \<noteq> BoolField \<Longrightarrow> w = VString []"
  by (auto simp: clean_def TrimSpace_def split: if_splits)

lemma clean_text:
  "clean fld s = Inr w \<Longrightarrow> TrimSpace s = s \<Longrightarrow> ff_kind fld \<in> {CharField, TextField, ChoiceField} \<Longrightarrow> w = VString s"
  by (auto simp: clean_def Let_def split: if_splits)

lemma clean_integer:
  "clean fld (itoa n) = Inr w \<Longrightarrow> int64_range n \<Longrightarrow> ff_kind fld = IntegerField \<Longrightarrow> w = VInt I64 n"
  by (simp add: clean_def Let_def TrimSpace_itoa itoa_nonempty parse_int64_itoa)

lemma clean_time:
  assumes "clean fld (format_rfc3339 t) = Inr w" and "writable_time t" and "ff_kind fld = DateTimeField"
  shows "w = VTime (t\<lparr>t_nano := 0\<rparr>)"
proof -
  have "0 \<le> t_year t" using assms(2) by (simp add: writable_time_def)
  with assms show ?thesis
    by (simp add: clean_def Let_def TrimSpace_format format_rfc3339_bounds parse_format_rfc3339)
qed

lemma truthy: "is_truthy ''true''" "\<not> is_truthy []"
  by code_simp+

text \<open>One field: what the form cleans is what the instance had.\<close>

lemma relation_roundtrip:
  assumes "from_field mf fld" and "has_type v t" and "kind_fits t mf" and "f_rel mf \<noteq> None"
    and data: "form_data f (ff_name fld) = map_option (\<lambda>s. [s]) (stringify_value mf v)"
    and clean: "clean fld (raw_value f fld) = Inr w"
  shows "\<exists>pk. fk_pk_from_cleaned w = Inr pk \<and> fk_set_pk pk v = unloaded v"
proof -
  note raw = raw_value_of [OF data]
  obtain r where "t = TFK r" using assms(3,4) by (auto simp: kind_fits_def split: gotype.splits)
  with assms(2) obtain pk ob where v: "v = VFK pk ob" "int64_range pk"
    by (auto simp: has_type_def split: goval.splits)
  have k: "ff_kind fld = ChoiceField" using from_field_kind [OF assms(1)] assms(4) by simp
  have "w = VString (if pk = 0 then [] else itoa pk)"
  proof (cases "pk = 0")
    case True
    then have "raw_value f fld = []" using assms(4) by (simp add: raw stringify_value_def v k)
    with True clean clean_blank [of fld w] k show ?thesis by simp
  next
    case False
    then have "raw_value f fld = itoa pk" using assms(4) by (simp add: raw stringify_value_def v k)
    with False clean clean_text [of fld "itoa pk" w] k TrimSpace_itoa show ?thesis by simp
  qed
  then have "fk_pk_from_cleaned w = Inr pk"
    using v(2) by (simp add: fk_pk_from_cleaned_def TrimSpace_itoa itoa_nonempty parse_int64_itoa)
  with v show ?thesis by (simp add: fk_set_pk_def unloaded_def)
qed

lemma scalar_roundtrip:
  assumes "from_field mf fld" and "has_type v t" and "kind_fits t mf" and "survives v" and True: "f_rel mf = None"
    and data: "form_data f (ff_name fld) = map_option (\<lambda>s. [s]) (stringify_value mf v)"
    and clean: "clean fld (raw_value f fld) = Inr w"
  shows "set_scalar name v w = Inr v"
proof -
  note kind = from_field_kind [OF assms(1)]
  note raw = raw_value_of [OF data]
  show ?thesis
  proof (cases t)
    case TString
    with assms(2) obtain s where v: "v = VString s" by (auto simp: has_type_def split: goval.splits)
    with TString assms(3) kind True have k: "ff_kind fld \<in> {CharField, TextField, ChoiceField}"
      by (auto simp: kind_fits_def)
    with True have "raw_value f fld = s" by (auto simp: raw stringify_value_def v)
    with clean clean_text [of fld s w] k assms(4) v True show ?thesis
      by (simp add: survives_def set_scalar_def)
  next
    case (TInt ik)
    with assms(2) obtain n where v: "v = VInt ik n" "wrap_int ik n = n" by (auto simp: has_type_def split: goval.splits)
    with TInt assms(3) kind True have k: "ff_kind fld = IntegerField" by (auto simp: kind_fits_def)
    with True have "raw_value f fld = itoa n" by (simp add: raw stringify_value_def v)
    with clean clean_integer [of fld n w] k int64_wrap [OF v(2)] v True show ?thesis by (simp add: set_scalar_def)
  next
    case (TUint ik)
    with assms(2) obtain n where v: "v = VUint ik n" "wrap_uint ik n = n" by (auto simp: has_type_def split: goval.splits)
    with TUint assms(3) kind True have k: "ff_kind fld = IntegerField" by (auto simp: kind_fits_def)
    with True have "raw_value f fld = itoa n" by (simp add: raw stringify_value_def v)
    moreover have "int64_range n"
      using assms(4) wrap_uint_range [of ik n] v by (simp add: survives_def int64_range_def)
    ultimately show ?thesis using clean clean_integer [of fld n w] k v True by (simp add: set_scalar_def)
  next
    case TBool
    with assms(2) obtain b where v: "v = VBool b" by (auto simp: has_type_def split: goval.splits)
    with TBool assms(3) kind True have k: "ff_kind fld = BoolField" by (auto simp: kind_fits_def)
    with True clean truthy show ?thesis
      by (cases b) (auto simp: raw stringify_value_def v clean_def set_scalar_def)
  next
    case TTime
    with assms(2) obtain x where v: "v = VTime x" by (auto simp: has_type_def split: goval.splits)
    with TTime assms(3) kind True have k: "ff_kind fld = DateTimeField" by (auto simp: kind_fits_def)
    from v assms(4) have x: "writable_time x" "t_nano x = 0" "\<not> time_is_zero x" by (simp_all add: survives_def)
    with True have "raw_value f fld = format_rfc3339 x" by (simp add: raw stringify_value_def v k)
    with clean clean_time [of fld x w] k x v True show ?thesis by (simp add: set_scalar_def)
  qed (use assms(3) in \<open>simp_all add: kind_fits_def True\<close>)
qed

lemma loop_err_progress:
  assumes "\<And>s x. x \<in> set xs \<Longrightarrow> P s \<Longrightarrow> \<exists>s'. f s x = Inr s' \<and> P s'" and "P s"
  shows "\<exists>t. loop_err f s xs = Inr t \<and> P t"
  using assms
proof (induction xs arbitrary: s)
  case (Cons x xs)
  then obtain s' where "f s x = Inr s'" "P s'" by (meson list.set_intros(1))
  with Cons show ?case by auto
qed simp

lemma unloaded_other: "f_rel mf = None \<Longrightarrow> kind_fits t mf \<Longrightarrow> has_type v t \<Longrightarrow> unloaded w = unloaded v \<longleftrightarrow> w = v"
  by (cases t) (auto simp: kind_fits_def has_type_def unloaded_def split: goval.splits)



subsection \<open>What is stored of a number, and of a blank field\<close>

lemma populate_loop:
  assumes "loop_err (populate_field cleaned) obj ms = Inr obj'" and "distinct (map f_index ms)"
    and "\<forall>mf \<in> set ms. f_index mf < length obj"
  shows "length obj' = length obj \<and> (\<forall>i. i \<notin> f_index ` set ms \<longrightarrow> obj' ! i = obj ! i) \<and>
    (\<forall>mf \<in> set ms. \<forall>w. f_rel mf = None \<longrightarrow> cleaned (f_name mf) = Some w \<longrightarrow>
       set_scalar (f_name mf) (obj ! f_index mf) w = Inr (obj' ! f_index mf))"
  using assms
proof (induction ms arbitrary: obj)
  case (Cons mf ms)
  from Cons.prems(1) obtain o1 where o1: "populate_field cleaned obj mf = Inr o1"
    and rest: "loop_err (populate_field cleaned) o1 ms = Inr obj'"
    by (auto split: sum.splits)
  have i: "f_index mf < length obj" using Cons.prems(3) by simp
  have step: "length o1 = length obj \<and> (\<forall>i. i \<noteq> f_index mf \<longrightarrow> o1 ! i = obj ! i) \<and>
      (\<forall>w. f_rel mf = None \<longrightarrow> cleaned (f_name mf) = Some w \<longrightarrow>
         set_scalar (f_name mf) (obj ! f_index mf) w = Inr (o1 ! f_index mf))"
    using o1 i by (auto simp: populate_field_def Let_def bind_err_Inr_iff split: option.splits if_splits)
  have "\<forall>mf \<in> set ms. f_index mf < length o1" using Cons.prems(3) step by simp
  note ih = Cons.IH [OF rest _ this]
  from Cons.prems(2) have d: "distinct (map f_index ms)" "f_index mf \<notin> f_index ` set ms" by simp_all
  have other: "\<forall>mf' \<in> set ms. o1 ! f_index mf' = obj ! f_index mf'"
    using step d(2) by (metis image_eqI)
  from ih [OF d(1)] step d(2) other show ?case by simp
qed simp

lemma populate_scalar:
  assumes "populate_struct m cleaned obj = Inr obj'" and "model_fits layout m" and "instance_of obj layout"
    and "mf \<in> set (m_fields m)" and "f_rel mf = None" and "cleaned (f_name mf) = Some w"
  shows "set_scalar (f_name mf) (obj ! f_index mf) w = Inr (obj' ! f_index mf)"
proof -
  have "length obj = length layout" using assms(3) by (auto simp: instance_of_def list_all2_lengthD)
  with populate_loop [OF assms(1) [unfolded populate_struct_def]] assms(2,4-6) show ?thesis
    by (auto simp: model_fits_def)
qed

text \<open>The cleaned value of an included field, in the form of a model bound to data.\<close>

lemma model_form_cleaned:
  assumes "model_wf m" and "mf \<in> set (m_fields m)" and "f = bind_form data (from_model m opts)"
    and "f_name mf \<in> ff_name ` set (fm_fields f)" and "is_valid f = (True, f')"
  shows "\<exists>fld w. fm_cleaned f' (f_name mf) = Some w \<and> from_field mf fld \<and> ff_name fld = f_name mf \<and>
    clean fld (raw_value f fld) = Inr w"
proof -
  from valid_form(2) [OF assms(5)] assms(4) obtain w where w: "fm_cleaned f' (f_name mf) = Some w" by auto
  from valid_form(1) [OF assms(5) w] obtain fld where
    fld: "fld \<in> set (fm_fields f)" "ff_name fld = f_name mf" "clean fld (raw_value f fld) = Inr w" by blast
  then have "fld \<in> set (model_form_fields m opts)" by (simp add: assms(3) bind_form_def from_model_def new_form_def)
  from model_form_fields_from [OF this] fld(2) obtain mf' where
    mf': "mf' \<in> set (m_fields m)" "f_name mf' = f_name mf" "from_field mf' fld" by auto
  have "mf' = mf"
    using model_names(1) [OF assms(1) assms(2)] model_names(1) [OF assms(1) mf'(1)] mf'(2) by simp
  with w fld mf'(3) show ?thesis by blast
qed


text \<open>A number or a time that need not be given passes validation when it is left blank, and storing the
  form then panics: the cleaned value is the empty text, which reflection cannot store in such a field.\<close>

theorem blank_optional_field_panics:
  assumes "model_wf m" and "model_fits layout m" and "instance_of obj layout"
    and "mf \<in> set (m_fields m)" and "f_rel mf = None" and "f_kind mf = KindInt \<or> f_kind mf = KindDateTime"
    and "f = bind_form data (from_model m opts)" and "f_name mf \<in> ff_name ` set (fm_fields f)"
    and "TrimSpace (values_get data (f_name mf)) = []" and "is_valid f = (True, f')"
  shows "populate_field (fm_cleaned f') obj mf = Inl (ReflectPanic (f_name mf)) \<and>
    (\<nexists>obj'. populate_struct m (fm_cleaned f') obj = Inr obj')"
proof -
  from model_form_cleaned [OF assms(1,4,7,8,10)] obtain fld w where
    w: "fm_cleaned f' (f_name mf) = Some w" "from_field mf fld" "ff_name fld = f_name mf"
    "clean fld (raw_value f fld) = Inr w" by blast
  have kind: "ff_kind fld \<noteq> BoolField" using from_field_kind [OF w(2)] assms(5,6) by auto
  then have "raw_value f fld = values_get data (f_name mf)"
    by (simp add: raw_value_def assms(7) form_data_def bind_form_def w(3))
  with w(4) kind assms(9) have "w = VString []" by (auto simp: clean_def Let_def split: if_splits)
  have i: "f_index mf < length layout" "kind_fits (layout ! f_index mf) mf" using assms(2,4) by (auto simp: model_fits_def)
  have "has_type (obj ! f_index mf) (layout ! f_index mf)" using assms(3) i(1) by (rule instance_of_nth)
  with i(2) assms(6) have "\<forall>s. obj ! f_index mf \<noteq> VString s"
    by (auto simp: has_type_def kind_fits_def split: gotype.splits)
  then have "set_scalar (f_name mf) (obj ! f_index mf) w = Inl (ReflectPanic (f_name mf))"
    using \<open>w = VString []\<close> by (auto simp: set_scalar_def split: goval.splits)
  note panic = this
  have "False" if "populate_struct m (fm_cleaned f') obj = Inr obj'" for obj'
    using populate_scalar [OF that assms(2-5) w(1)] panic by simp
  with w(1) assms(5) panic show ?thesis by (auto simp: populate_field_def Let_def)
qed

text \<open>A struct with an 8-bit number and an optional time, for the witnesses.\<close>

definition event_struct :: struct_type where
  "event_struct = \<lparr>st_type = RType ''app'' ''Event'',
     st_fields = [
       \<lparr>sf_name = ''ID'', sf_exported = True, sf_type = TInt I64, sf_tag = []\<rparr>,
       \<lparr>sf_name = ''Seats'', sf_exported = True, sf_type = TInt I8, sf_tag = []\<rparr>,
       \<lparr>sf_name = ''Due'', sf_exported = True, sf_type = TTime, sf_tag = ''null''\<rparr>],
     st_meta = None, st_choices = None\<rparr>"

definition seats_field :: field where
  "seats_field = id_field\<lparr>f_name := ''Seats'', f_column := ''seats'', f_index := 1\<rparr>"

definition due_field :: field where
  "due_field = id_field\<lparr>f_name := ''Due'', f_column := ''due'', f_kind := KindDateTime, f_null := True, f_index := 2\<rparr>"

definition event_model :: model where
  "event_model = \<lparr>m_name = ''Event'', m_table = ''event'', m_fields = [promote id_field, seats_field, due_field],
     m_pk = Some 0, m_by_name = Map.empty(''ID'' \<mapsto> 0, ''Seats'' \<mapsto> 1, ''Due'' \<mapsto> 2),
     m_by_column = Map.empty(''id'' \<mapsto> 0, ''seats'' \<mapsto> 1, ''due'' \<mapsto> 2), m_go_type = RType ''app'' ''Event''\<rparr>"

lemma collect_event: "collect_fields event_struct = Inr [id_field, seats_field, due_field]"
  by code_simp

lemma build_event: "build_model event_struct = Inr event_model"
proof -
  have tn: "table_name event_struct = ''event''" by code_simp
  have st: "rt_name (st_type event_struct) = ''Event''" "st_choices event_struct = None"
    "st_type event_struct = RType ''app'' ''Event''"
    by (simp_all add: event_struct_def)
  have f: "f_name seats_field = ''Seats''" "f_column seats_field = ''seats''" "f_name due_field = ''Due''"
    "f_column due_field = ''due''" "\<not> f_primary_key seats_field" "\<not> f_primary_key due_field"
    by (simp_all add: seats_field_def due_field_def id_field_def)
  show ?thesis
    by (simp add: build_model_def collect_event resolve_pk_def find_pk_def field_constants f
        Let_def index_fields_def index_field_def apply_choices_def event_model_def tn st upt_rec eval_nat_numeral)
qed

lemma event_facts:
  "model_wf event_model" "model_fits (struct_layout event_struct) event_model"
proof -
  have go: "go_struct event_struct" by (simp add: go_struct_def event_struct_def)
  show "model_wf event_model" using build_model_wf [OF build_event go] by blast
  show "model_fits (struct_layout event_struct) event_model" by (rule build_model_fits [OF build_event go])
qed

definition event_data :: "string \<Rightarrow> url_values" where
  "event_data seats = [''Seats'' \<mapsto> [seats], ''Due'' \<mapsto> [''2024-05-01T10:00:00Z'']]"

definition new_event :: struct_val where
  "new_event = [VInt I64 0, VInt I8 0, VTime zero_time]"


theorem blank_optional_field_panics_witness:
  "\<exists>f'. is_valid (bind_form [''Seats'' \<mapsto> [''7'']] (from_model event_model [])) = (True, f') \<and>
     populate_field (fm_cleaned f') new_event due_field = Inl (ReflectPanic ''Due'')"
proof -
  let ?d = "[''Seats'' \<mapsto> [''7'']]" and ?f = "bind_form [''Seats'' \<mapsto> [''7'']] (from_model event_model [])"
  have inst: "instance_of new_event (struct_layout event_struct)" by code_simp
  have mf: "due_field \<in> set (m_fields event_model)" "f_rel due_field = None" "f_name due_field = ''Due''"
    "f_kind due_field = KindInt \<or> f_kind due_field = KindDateTime"
    by (simp_all add: event_model_def due_field_def id_field_def)
  have inc: "f_name due_field \<in> ff_name ` set (fm_fields ?f)" by code_simp
  have dat: "TrimSpace (values_get ?d (f_name due_field)) = []" by code_simp
  have "fst (is_valid ?f) = True" by code_simp
  then obtain f' where v: "is_valid ?f = (True, f')" by (metis prod.collapse)
  from blank_optional_field_panics [OF event_facts inst mf(1,2,4) refl inc dat v] v mf(3) show ?thesis by auto
qed

end
