(* ===== verification/Orm_Signals.thy ===== *)
theory Orm_Signals
  imports Go_Values
begin

text \<open>
  \<open>orm/signals.go\<close>: the process-global registry of signal handlers. A handler is a value of any type
  here; firing runs them in order over a state, on the object the signal is about, which a handler may
  change. The lock makes every operation atomic, so operations are functions on the registry.
\<close>

datatype signal_kind = PreSave | PostSave | PreDelete | PostDelete

record 'h handler_entry =
  he_id :: int
  he_fn :: 'h

text \<open>A missing inner map and a missing key both read as an empty slice.\<close>

record 'h signal_registry =
  sr_next_id :: int
  sr_handlers :: "rtype \<Rightarrow> signal_kind \<Rightarrow> 'h handler_entry list"

definition new_signals :: "'h signal_registry" where
  "new_signals = \<lparr>sr_next_id = 0, sr_handlers = (\<lambda>t k. [])\<rparr>"

definition set_handlers ::
  "rtype \<Rightarrow> signal_kind \<Rightarrow> 'h handler_entry list \<Rightarrow> 'h signal_registry \<Rightarrow> 'h signal_registry"
where
  "set_handlers t k es r =
     r\<lparr>sr_handlers := (sr_handlers r)(t := (sr_handlers r t)(k := es))\<rparr>"

text \<open>\<open>register\<close> returns the id that its cancel function removes.\<close>

definition register_signal ::
  "rtype \<Rightarrow> signal_kind \<Rightarrow> 'h \<Rightarrow> 'h signal_registry \<Rightarrow> 'h signal_registry \<times> int"
where
  "register_signal t k fn r =
     (let i = wrap_int I64 (sr_next_id r + 1);
          r1 = r\<lparr>sr_next_id := i\<rparr>
      in (set_handlers t k (sr_handlers r t k @ [\<lparr>he_id = i, he_fn = fn\<rparr>]) r1, i))"

fun remove_entry :: "int \<Rightarrow> 'h handler_entry list \<Rightarrow> 'h handler_entry list" where
  "remove_entry i [] = []"
| "remove_entry i (e # es) = (if he_id e = i then es else e # remove_entry i es)"

definition remove_signal ::
  "rtype \<Rightarrow> signal_kind \<Rightarrow> int \<Rightarrow> 'h signal_registry \<Rightarrow> 'h signal_registry"
where
  "remove_signal t k i r = set_handlers t k (remove_entry i (sr_handlers r t k)) r"

definition snapshot :: "'h signal_registry \<Rightarrow> rtype \<Rightarrow> signal_kind \<Rightarrow> 'h handler_entry list" where
  "snapshot r t k = sr_handlers r t k"

definition has_signal :: "'h signal_registry \<Rightarrow> rtype \<Rightarrow> signal_kind \<Rightarrow> bool" where
  "has_signal r t k \<longleftrightarrow> length (sr_handlers r t k) > 0"

definition has_delete_handlers :: "'h signal_registry \<Rightarrow> rtype \<Rightarrow> bool" where
  "has_delete_handlers r t \<longleftrightarrow> has_signal r t PreDelete \<or> has_signal r t PostDelete"

text \<open>The registrations a caller makes, by kind.\<close>

definition on_signal ::
  "signal_kind \<Rightarrow> rtype \<Rightarrow> 'h \<Rightarrow> 'h signal_registry \<Rightarrow> 'h signal_registry \<times> int"
where
  "on_signal k t fn r = register_signal t k fn r"

definition OnPreSave :: "rtype \<Rightarrow> 'h \<Rightarrow> 'h signal_registry \<Rightarrow> 'h signal_registry \<times> int" where
  "OnPreSave = on_signal PreSave"

definition OnPostSave :: "rtype \<Rightarrow> 'h \<Rightarrow> 'h signal_registry \<Rightarrow> 'h signal_registry \<times> int" where
  "OnPostSave = on_signal PostSave"

definition OnPreDelete :: "rtype \<Rightarrow> 'h \<Rightarrow> 'h signal_registry \<Rightarrow> 'h signal_registry \<times> int" where
  "OnPreDelete = on_signal PreDelete"

definition OnPostDelete :: "rtype \<Rightarrow> 'h \<Rightarrow> 'h signal_registry \<Rightarrow> 'h signal_registry \<times> int" where
  "OnPostDelete = on_signal PostDelete"

text \<open>Handlers over a state, and firing: the first error stops it.\<close>

type_synonym 's handler = "struct_val \<Rightarrow> 's \<Rightarrow> (string option \<times> struct_val) \<times> 's"

fun run_handlers ::
  "'s handler handler_entry list \<Rightarrow> struct_val \<Rightarrow> 's \<Rightarrow> (string option \<times> struct_val) \<times> 's"
where
  "run_handlers [] obj s = ((None, obj), s)"
| "run_handlers (e # es) obj s =
     (case he_fn e obj s of
        ((Some err, obj1), s1) \<Rightarrow> ((Some err, obj1), s1)
      | ((None, obj1), s1) \<Rightarrow> run_handlers es obj1 s1)"

definition fire ::
  "'s handler signal_registry \<Rightarrow> rtype \<Rightarrow> signal_kind \<Rightarrow> struct_val \<Rightarrow> 's \<Rightarrow>
     (string option \<times> struct_val) \<times> 's"
where
  "fire r t k obj s = run_handlers (snapshot r t k) obj s"

subsection \<open>Identifiers\<close>

text \<open>
  Every id in use was given out, and no two registrations share one. Ids are counted in 64 bits, so
  the invariant is kept as long as the counter is not at its end.
\<close>

definition signals_wf :: "'h signal_registry \<Rightarrow> bool" where
  "signals_wf r \<longleftrightarrow>
     0 \<le> sr_next_id r \<and>
     (\<forall>t k. distinct (map he_id (sr_handlers r t k)) \<and>
        (\<forall>e \<in> set (sr_handlers r t k). 0 < he_id e \<and> he_id e \<le> sr_next_id r)) \<and>
     (\<forall>t k t' k'. (t, k) \<noteq> (t', k') \<longrightarrow>
        he_id ` set (sr_handlers r t k) \<inter> he_id ` set (sr_handlers r t' k') = {})"

lemma sr_handlers_set [simp]:
  "sr_handlers (set_handlers t k es r) t' k' = (if t' = t \<and> k' = k then es else sr_handlers r t' k')"
  by (simp add: set_handlers_def)

lemma sr_next_id_set [simp]: "sr_next_id (set_handlers t k es r) = sr_next_id r"
  by (simp add: set_handlers_def)

lemma set_handlers_set [simp]: "set_handlers t k es (set_handlers t k es' r) = set_handlers t k es r"
  by (simp add: set_handlers_def)

lemma remove_entry_filter:
  "distinct (map he_id es) \<Longrightarrow> remove_entry i es = filter (\<lambda>e. he_id e \<noteq> i) es"
  by (induction es) (auto simp: filter_key_absent)

lemma signals_wf_distinct: "signals_wf r \<Longrightarrow> distinct (map he_id (sr_handlers r t k))"
  by (simp add: signals_wf_def)

lemma set_remove_entry: "set (remove_entry i es) \<subseteq> set es"
  by (induction es) auto

lemma distinct_remove_entry: "distinct (map he_id es) \<Longrightarrow> distinct (map he_id (remove_entry i es))"
  by (simp add: remove_entry_filter distinct_map_filter)

lemma new_signals_wf: "signals_wf new_signals"
  by (simp add: signals_wf_def new_signals_def)

lemma next_id:
  assumes "0 \<le> n" and "n < 2 ^ 63 - 1"
  shows "wrap_int I64 (n + 1) = n + 1"
  using assms by (intro wrap_int_id) simp_all

lemma remove_signal_wf:
  assumes "signals_wf r"
  shows "signals_wf (remove_signal t k i r)"
proof -
  have sub: "set (sr_handlers (remove_signal t k i r) t' k') \<subseteq> set (sr_handlers r t' k')" for t' k'
    using set_remove_entry [of i "sr_handlers r t k"] by (simp add: remove_signal_def)
  have "distinct (map he_id (sr_handlers (remove_signal t k i r) t' k'))" for t' k'
    using assms by (simp add: remove_signal_def signals_wf_def distinct_remove_entry)
  moreover have "0 < he_id e \<and> he_id e \<le> sr_next_id (remove_signal t k i r)"
    if "e \<in> set (sr_handlers (remove_signal t k i r) t' k')" for e t' k'
  proof -
    from that sub have "e \<in> set (sr_handlers r t' k')" by blast
    with assms show ?thesis by (simp add: signals_wf_def remove_signal_def)
  qed
  moreover have "he_id ` set (sr_handlers (remove_signal t k i r) t1 k1) \<inter>
      he_id ` set (sr_handlers (remove_signal t k i r) t2 k2) = {}" if "(t1, k1) \<noteq> (t2, k2)" for t1 k1 t2 k2
  proof -
    have "he_id ` set (sr_handlers r t1 k1) \<inter> he_id ` set (sr_handlers r t2 k2) = {}"
      using assms that unfolding signals_wf_def by blast
    with sub [of t1 k1] sub [of t2 k2] show ?thesis by blast
  qed
  moreover have "0 \<le> sr_next_id (remove_signal t k i r)"
    using assms by (simp add: signals_wf_def remove_signal_def)
  ultimately show ?thesis unfolding signals_wf_def by blast
qed

lemma register_signal_wf:
  assumes "signals_wf r" and "sr_next_id r < 2 ^ 63 - 1"
  shows "signals_wf (fst (register_signal t k fn r)) \<and>
    snd (register_signal t k fn r) \<notin> he_id ` set (sr_handlers r t' k')"
proof -
  define i where "i = sr_next_id r + 1"
  have n: "0 \<le> sr_next_id r" using assms(1) by (simp add: signals_wf_def)
  have reg: "register_signal t k fn r =
      (set_handlers t k (sr_handlers r t k @ [\<lparr>he_id = i, he_fn = fn\<rparr>]) (r\<lparr>sr_next_id := i\<rparr>), i)"
    using next_id [OF n assms(2)] by (simp add: register_signal_def Let_def i_def)
  have fresh: "i \<notin> he_id ` set (sr_handlers r t' k')" for t' k'
    using assms(1) by (force simp: signals_wf_def i_def)
  have ids: "0 < he_id e \<and> he_id e \<le> i" if "e \<in> set (sr_handlers r t' k')" for e t' k'
    using assms(1) that by (force simp: signals_wf_def i_def)
  have disj: "he_id ` set (sr_handlers r t1 k1) \<inter> he_id ` set (sr_handlers r t2 k2) = {}"
    if "(t1, k1) \<noteq> (t2, k2)" for t1 k1 t2 k2
    using assms(1) that unfolding signals_wf_def by blast
  have "signals_wf (fst (register_signal t k fn r))"
    using assms(1) fresh ids n disj unfolding reg signals_wf_def
    by (auto simp: i_def)
  with fresh show ?thesis by (simp add: reg)
qed

subsection \<open>Properties\<close>

text \<open>The registration a cancel function was returned for is the only one it removes: every other
  handler, of this and of every other type and kind, stays, in order. Cancelling right after
  registering restores all handlers, and cancelling twice is the same as once.\<close>

theorem cancel_removes_one_registration:
  assumes "signals_wf r" and "sr_next_id r < 2 ^ 63 - 1"
    and "register_signal t k fn r = (r1, i)"
  shows "signals_wf r1 \<and> sr_handlers r1 t k = sr_handlers r t k @ [\<lparr>he_id = i, he_fn = fn\<rparr>] \<and>
    sr_handlers (remove_signal t k i r1) = sr_handlers r \<and>
    remove_signal t k i (remove_signal t k i r1) = remove_signal t k i r1 \<and>
    (signals_wf r2 \<longrightarrow> sr_handlers (remove_signal t k i r2) t' k' =
       (if t' = t \<and> k' = k then filter (\<lambda>e. he_id e \<noteq> i) (sr_handlers r2 t k) else sr_handlers r2 t' k'))"
proof -
  from register_signal_wf [OF assms(1,2), of t k fn] assms(3)
  have wf: "signals_wf r1" and fresh: "i \<notin> he_id ` set (sr_handlers r t k)" by auto
  from assms(3) have r1: "sr_handlers r1 t' k' =
      (if t' = t \<and> k' = k then sr_handlers r t k @ [\<lparr>he_id = i, he_fn = fn\<rparr>] else sr_handlers r t' k')" for t' k'
    by (auto simp: register_signal_def Let_def)
  have "remove_entry i (sr_handlers r1 t k) = sr_handlers r t k"
    using remove_entry_filter [OF signals_wf_distinct [OF wf, of t k], of i] fresh by (simp add: r1 filter_key_absent)
  then have "sr_handlers (remove_signal t k i r1) = sr_handlers r"
    by (simp add: remove_signal_def fun_eq_iff r1)
  moreover have "remove_signal t k i (remove_signal t k i r1) = remove_signal t k i r1"
    using signals_wf_distinct [OF wf] by (simp add: remove_signal_def remove_entry_filter distinct_map_filter)
  moreover have "sr_handlers (remove_signal t k i r2) t' k' =
       (if t' = t \<and> k' = k then filter (\<lambda>e. he_id e \<noteq> i) (sr_handlers r2 t k) else sr_handlers r2 t' k')"
    if "signals_wf r2"
    using remove_entry_filter [OF signals_wf_distinct [OF that, of t k], of i] by (simp add: remove_signal_def)
  ultimately show ?thesis
    using wf by (simp add: r1)
qed

theorem cancel_removes_one_registration_witness:
  "sr_handlers (remove_signal (RType ''blog'' ''Post'') PreSave 1
     (fst (register_signal (RType ''blog'' ''Post'') PreSave ''h'' new_signals))) = sr_handlers new_signals"
proof -
  have "register_signal (RType ''blog'' ''Post'') PreSave ''h'' new_signals =
      (fst (register_signal (RType ''blog'' ''Post'') PreSave ''h'' new_signals), 1)"
    by (simp add: register_signal_def new_signals_def Let_def wrap_int_id)
  moreover have "sr_next_id new_signals < 2 ^ 63 - 1" by (simp add: new_signals_def)
  ultimately show ?thesis
    using cancel_removes_one_registration [OF new_signals_wf, of "RType ''blog'' ''Post''" PreSave "''h''"] by blast
qed

end
