(* ===== verification/Orm_Execute.thy ===== *)
theory Orm_Execute
  imports Orm_Rows Orm_Signals
begin

text \<open>
  \<open>orm/execute.go\<close> and \<open>orm/rows.go\<close>: the terminals of a query set. Each takes the state of the
  database connection and returns it; a record, \<open>env\<close>, holds what they read: the handle with its
  connection and clock, the layouts of the struct types, and the registered signal handlers, which
  work on the same state. Handlers do not change the registry while a terminal runs.
\<close>

record 's env =
  en_db :: orm_db
  en_driver :: "'s driver"
  en_now :: gotime
  en_layouts :: layouts
  en_signals :: "'s handler signal_registry"

text \<open>\<open>DbError op name e\<close> is \<open>"orm: <op> <name>: <e>"\<close>.\<close>

datatype exec_error =
    CompileError query_error
  | DbError string string string
  | ScanFailed string scan_error
  | RowsFailed string rows_error
  | NoRows string
  | DoesNotExist
  | MultipleObjectsReturned
  | HandlerError string
  | BadUpdatePairs
  | AutoPkKind string gotype
  | NoPrimaryKeyFor string
  | NilPanic

definition create_table_terminal ::
  "'s env \<Rightarrow> go_ctx \<Rightarrow> model \<Rightarrow> 's \<Rightarrow> (exec_error + unit) \<times> 's" where
  "create_table_terminal en c m s =
     (case d_create_table_sql (db_dialect (en_db en)) (reg_models (db_registry (en_db en))) m of
        None \<Rightarrow> (Inl NilPanic, s)
      | Some ddl \<Rightarrow>
          (case conn_exec (en_driver en) c ddl [] s of
             (Inl e, s1) \<Rightarrow> (Inl (DbError ''create table'' (m_table m) e), s1)
           | (Inr r, s1) \<Rightarrow> (Inr (), s1)))"

text \<open>The model of a query set without error; the panic of a nil model otherwise.\<close>

definition on_query ::
  "queryset \<Rightarrow> 's \<Rightarrow> (model \<Rightarrow> (exec_error + 'a) \<times> 's) \<Rightarrow> (exec_error + 'a) \<times> 's" where
  "on_query q s k =
     (case q_err q of
        Some e \<Rightarrow> (Inl (CompileError e), s)
      | None \<Rightarrow> (case q_model q of None \<Rightarrow> (Inl NilPanic, s) | Some m \<Rightarrow> k m))"

definition all_rows :: "'s env \<Rightarrow> go_ctx \<Rightarrow> queryset \<Rightarrow> 's \<Rightarrow> (exec_error + struct_val list) \<times> 's" where
  "all_rows en c q s = on_query q s (\<lambda>m.
     case (if q_select_related q \<noteq> []
           then resolve_select_related (reg_models (db_registry (en_db en))) m (q_select_related q)
           else Inr []) of
       Inl e \<Rightarrow> (Inl (CompileError e), s)
     | Inr rels \<Rightarrow>
         (case compile_select (en_db en) q of
            Inl e \<Rightarrow> (Inl (CompileError e), s)
          | Inr (sql, args) \<Rightarrow>
              (case conn_query (en_driver en) c sql args s of
                 (Inl e, s1) \<Rightarrow> (Inl (DbError ''query'' (m_name m) e), s1)
               | (Inr rows, s1) \<Rightarrow>
                   (map_inl (RowsFailed (m_name m))
                      (if rels \<noteq> [] then scan_rows_joined (en_layouts en) m rels rows
                       else scan_rows (en_layouts en (m_go_type m)) m rows), s1))))"

definition get_row ::
  "'s env \<Rightarrow> go_ctx \<Rightarrow> goval list \<Rightarrow> queryset \<Rightarrow> 's \<Rightarrow> (exec_error + struct_val) \<times> 's" where
  "get_row en c pairs q s =
     (case q_err q of
        Some e \<Rightarrow> (Inl (CompileError e), s)
      | None \<Rightarrow>
          (case all_rows en c (Limit 2 (Filter pairs q)) s of
             (Inl e, s1) \<Rightarrow> (Inl e, s1)
           | (Inr rows, s1) \<Rightarrow>
               (case rows of
                  [] \<Rightarrow> (Inl DoesNotExist, s1)
                | [row] \<Rightarrow> (Inr row, s1)
                | _ \<Rightarrow> (Inl MultipleObjectsReturned, s1))))"

text \<open>\<open>QueryRowContext(...).Scan(&v)\<close>: the first row, one column.\<close>

definition query_one ::
  "'s env \<Rightarrow> go_ctx \<Rightarrow> string \<Rightarrow> string \<Rightarrow> gotype \<Rightarrow> string \<Rightarrow> goval list \<Rightarrow> 's \<Rightarrow> (exec_error + goval) \<times> 's"
where
  "query_one en c op name t sql args s =
     (case conn_query (en_driver en) c sql args s of
        (Inl e, s1) \<Rightarrow> (Inl (DbError op name e), s1)
      | (Inr q, s1) \<Rightarrow>
          (case qr_rows q of
             [] \<Rightarrow> (case qr_err q of
                      Some e \<Rightarrow> (Inl (DbError op name e), s1)
                    | None \<Rightarrow> (Inl (NoRows op), s1))
           | row # _ \<Rightarrow>
               (case row of
                  [v] \<Rightarrow> (map_inl (ScanFailed op) (scan_value t v), s1)
                | _ \<Rightarrow> (Inl (ScanFailed op (WrongColumns (length row) 1)), s1))))"

definition count_rows :: "'s env \<Rightarrow> go_ctx \<Rightarrow> queryset \<Rightarrow> 's \<Rightarrow> (exec_error + goval) \<times> 's" where
  "count_rows en c q s = on_query q s (\<lambda>m.
     case compile_count (en_db en) q of
       Inl e \<Rightarrow> (Inl (CompileError e), s)
     | Inr (sql, args) \<Rightarrow> query_one en c ''count'' (m_name m) (TInt I64) sql args s)"

definition exists_row :: "'s env \<Rightarrow> go_ctx \<Rightarrow> queryset \<Rightarrow> 's \<Rightarrow> (exec_error + goval) \<times> 's" where
  "exists_row en c q s = on_query q s (\<lambda>m.
     case compile_exists (en_db en) q of
       Inl e \<Rightarrow> (Inl (CompileError e), s)
     | Inr (sql, args) \<Rightarrow> query_one en c ''exists'' (m_name m) TBool sql args s)"

subsection \<open>Create\<close>

definition set_default_value :: "gotype \<Rightarrow> goval \<Rightarrow> goval \<Rightarrow> goval" where
  "set_default_value t fv def =
     (case def of
        VInt k d \<Rightarrow>
          if k = I64 then
            (case t of
               TInt k' \<Rightarrow> VInt k' (wrap_int k' d)
             | TUint k' \<Rightarrow> VUint k' (wrap_uint k' d)
             | _ \<Rightarrow> fv)
          else fv
      | VBool b \<Rightarrow> VBool b
      | VString s \<Rightarrow> VString s
      | _ \<Rightarrow> fv)"

definition apply_default :: "gotype list \<Rightarrow> field \<Rightarrow> struct_val \<Rightarrow> struct_val" where
  "apply_default layout f obj =
     (let i = f_index f in
      if f_has_default f \<and> obj ! i = zero_val (layout ! i)
      then obj[i := set_default_value (layout ! i) (obj ! i) (f_default f)] else obj)"

definition apply_defaults :: "gotype list \<Rightarrow> field list \<Rightarrow> struct_val \<Rightarrow> struct_val" where
  "apply_defaults layout fs obj = fold (apply_default layout) fs obj"

definition stamp_on_create :: "gotime \<Rightarrow> field \<Rightarrow> struct_val \<Rightarrow> struct_val" where
  "stamp_on_create now f obj =
     (if f_kind f \<noteq> KindDateTime \<or> \<not> f_auto_now f \<and> \<not> f_auto_now_add f then obj
      else obj[f_index f := VTime now])"

definition apply_auto_now_on_create :: "gotime \<Rightarrow> field list \<Rightarrow> struct_val \<Rightarrow> struct_val" where
  "apply_auto_now_on_create now fs obj = fold (stamp_on_create now) fs obj"

definition write_back_auto_pk :: "gotype \<Rightarrow> int \<Rightarrow> string \<Rightarrow> exec_error + goval" where
  "write_back_auto_pk t i name =
     (case t of
        TInt k \<Rightarrow> Inr (VInt k (wrap_int k i))
      | TUint k \<Rightarrow> Inr (VUint k (wrap_uint k i))
      | _ \<Rightarrow> Inl (AutoPkKind name t))"

text \<open>Whether the key is assigned by the database, and the fields of the INSERT.\<close>

definition auto_pk :: "model \<Rightarrow> field option" where
  "auto_pk m =
     (case primary_key m of
        None \<Rightarrow> None
      | Some pk \<Rightarrow> if f_kind pk = KindAuto then Some pk else None)"

definition insert_fields :: "model \<Rightarrow> field list" where
  "insert_fields m =
     map (\<lambda>i. m_fields m ! i)
       (filter (\<lambda>i. \<not> (auto_pk m \<noteq> None \<and> m_pk m = Some i)) [0..<length (m_fields m)])"

definition insert_sql :: "dialect \<Rightarrow> model \<Rightarrow> string" where
  "insert_sql d m =
     ''INSERT INTO '' @ d_quote d (m_table m) @ '' ('' @
     Join (map (\<lambda>f. d_quote d (f_column f)) (insert_fields m)) '', '' @ '') VALUES ('' @
     Join (map (d_placeholder d) [1..<Suc (length (insert_fields m))]) '', '' @ '')''"

definition insert_args :: "model \<Rightarrow> struct_val \<Rightarrow> goval list" where
  "insert_args m obj = map (\<lambda>f. obj ! f_index f) (insert_fields m)"

text \<open>The fields the INSERT reads: the object after the defaults and the time stamps.\<close>

definition prepare_row :: "'s env \<Rightarrow> model \<Rightarrow> struct_val \<Rightarrow> struct_val" where
  "prepare_row en m obj =
     apply_auto_now_on_create (en_now en) (m_fields m)
       (apply_defaults (en_layouts en (m_go_type m)) (m_fields m) obj)"

text \<open>The INSERT itself: the id the database assigned, when the key is its.\<close>

definition insert_row ::
  "'s env \<Rightarrow> go_ctx \<Rightarrow> model \<Rightarrow> struct_val \<Rightarrow> 's \<Rightarrow> (exec_error + int option) \<times> 's"
where
  "insert_row en c m obj s =
     (let d = db_dialect (en_db en); query = insert_sql d m; args = insert_args m obj
      in case auto_pk m of
           Some pk \<Rightarrow>
             if d_supports_returning d then
               (case query_one en c ''insert'' (m_name m) (TInt I64)
                       (query @ '' RETURNING '' @ d_quote d (f_column pk)) args s of
                  (Inl e, s1) \<Rightarrow> (Inl e, s1)
                | (Inr v, s1) \<Rightarrow> (case v of VInt k i \<Rightarrow> (Inr (Some i), s1) | _ \<Rightarrow> (Inl NilPanic, s1)))
             else
               (case conn_exec (en_driver en) c query args s of
                  (Inl e, s1) \<Rightarrow> (Inl (DbError ''insert'' (m_name m) e), s1)
                | (Inr r, s1) \<Rightarrow>
                    (case er_last_insert_id r of
                       Inl e \<Rightarrow> (Inl (DbError ''insert'' (m_name m) (''last insert id: '' @ e)), s1)
                     | Inr i \<Rightarrow> (Inr (Some i), s1)))
         | None \<Rightarrow>
             (case conn_exec (en_driver en) c query args s of
                (Inl e, s1) \<Rightarrow> (Inl (DbError ''insert'' (m_name m) e), s1)
              | (Inr r, s1) \<Rightarrow> (Inr None, s1)))"

definition write_back ::
  "'s env \<Rightarrow> model \<Rightarrow> int option \<Rightarrow> struct_val \<Rightarrow> exec_error + struct_val" where
  "write_back en m assigned obj =
     (case (assigned, auto_pk m) of
        (Some i, Some pk) \<Rightarrow>
          bind_err (write_back_auto_pk (en_layouts en (m_go_type m) ! f_index pk) i (m_name m))
            (\<lambda>v. Inr (obj[f_index pk := v]))
      | _ \<Rightarrow> Inr obj)"

text \<open>\<open>Create\<close> returns, with its error, the object it was given a pointer to.\<close>

definition create_row ::
  "'s env \<Rightarrow> go_ctx \<Rightarrow> queryset \<Rightarrow> struct_val \<Rightarrow> 's \<Rightarrow> (exec_error option \<times> struct_val) \<times> 's"
where
  "create_row en c q obj s =
     (case q_err q of
        Some e \<Rightarrow> ((Some (CompileError e), obj), s)
      | None \<Rightarrow>
          (case q_model q of
             None \<Rightarrow> ((Some NilPanic, obj), s)
           | Some m \<Rightarrow>
               (case fire (en_signals en) (m_go_type m) PreSave obj s of
                  ((Some e, obj1), s1) \<Rightarrow> ((Some (HandlerError e), obj1), s1)
                | ((None, obj1), s1) \<Rightarrow>
                    (let obj2 = prepare_row en m obj1
                     in case insert_row en c m obj2 s1 of
                          (Inl e, s2) \<Rightarrow> ((Some e, obj2), s2)
                        | (Inr assigned, s2) \<Rightarrow>
                            (case write_back en m assigned obj2 of
                               Inl e \<Rightarrow> ((Some e, obj2), s2)
                             | Inr obj3 \<Rightarrow>
                                 (case fire (en_signals en) (m_go_type m) PostSave obj3 s2 of
                                    ((err, obj4), s3) \<Rightarrow>
                                      ((map_option HandlerError err, obj4), s3)))))))"

subsection \<open>Update\<close>

fun assignments :: "goval list \<Rightarrow> exec_error + (string \<times> goval) list" where
  "assignments [] = Inr []"
| "assignments [x] = Inl BadUpdatePairs"
| "assignments (k # v # rest) =
     (case k of
        VString col \<Rightarrow> bind_err (assignments rest) (\<lambda>assigns. Inr ((col, v) # assigns))
      | _ \<Rightarrow> Inl BadUpdatePairs)"

definition assigns_has_column :: "(string \<times> goval) list \<Rightarrow> string \<Rightarrow> bool" where
  "assigns_has_column assigns column \<longleftrightarrow> column \<in> fst ` set assigns"

definition inject_auto_now :: "gotime \<Rightarrow> field \<Rightarrow> (string \<times> goval) list \<Rightarrow> (string \<times> goval) list" where
  "inject_auto_now now f assigns =
     (if f_auto_now f \<and> \<not> assigns_has_column assigns (f_column f)
      then assigns @ [(f_column f, VTime now)] else assigns)"

definition with_auto_now :: "gotime \<Rightarrow> field list \<Rightarrow> (string \<times> goval) list \<Rightarrow> (string \<times> goval) list" where
  "with_auto_now now fs assigns = fold (inject_auto_now now) fs assigns"

text \<open>A statement whose result is the number of rows it affected.\<close>

definition exec_affected ::
  "'s env \<Rightarrow> go_ctx \<Rightarrow> string \<Rightarrow> string \<Rightarrow> string \<Rightarrow> goval list \<Rightarrow> 's \<Rightarrow> (exec_error + int) \<times> 's"
where
  "exec_affected en c op name sql args s =
     (case conn_exec (en_driver en) c sql args s of
        (Inl e, s1) \<Rightarrow> (Inl (DbError op name e), s1)
      | (Inr r, s1) \<Rightarrow>
          (case er_rows_affected r of
             Inl e \<Rightarrow> (Inl (DbError op name (''rows affected: '' @ e)), s1)
           | Inr n \<Rightarrow> (Inr n, s1)))"

definition update_rows ::
  "'s env \<Rightarrow> go_ctx \<Rightarrow> goval list \<Rightarrow> queryset \<Rightarrow> 's \<Rightarrow> (exec_error + int) \<times> 's"
where
  "update_rows en c pairs q s = on_query q s (\<lambda>m.
     case assignments pairs of
       Inl e \<Rightarrow> (Inl e, s)
     | Inr assigns \<Rightarrow>
         (case compile_update (en_db en) q (with_auto_now (en_now en) (m_fields m) assigns) of
            Inl e \<Rightarrow> (Inl (CompileError e), s)
          | Inr (sql, args) \<Rightarrow> exec_affected en c ''update'' (m_name m) sql args s))"

subsection \<open>Delete\<close>

definition delete_rows :: "'s env \<Rightarrow> go_ctx \<Rightarrow> queryset \<Rightarrow> 's \<Rightarrow> (exec_error + int) \<times> 's" where
  "delete_rows en c q s = on_query q s (\<lambda>m.
     case compile_delete (en_db en) q of
       Inl e \<Rightarrow> (Inl (CompileError e), s)
     | Inr (sql, args) \<Rightarrow> exec_affected en c ''delete'' (m_name m) sql args s)"

text \<open>Firing a signal for each row; handlers see, and may change, the row they are given.\<close>

fun fire_each ::
  "'s env \<Rightarrow> rtype \<Rightarrow> signal_kind \<Rightarrow> struct_val list \<Rightarrow> 's \<Rightarrow> (exec_error + struct_val list) \<times> 's"
where
  "fire_each en t k [] s = (Inr [], s)"
| "fire_each en t k (row # rows) s =
     (case fire (en_signals en) t k row s of
        ((Some e, row1), s1) \<Rightarrow> (Inl (HandlerError e), s1)
      | ((None, row1), s1) \<Rightarrow>
          (case fire_each en t k rows s1 of
             (Inl e, s2) \<Rightarrow> (Inl e, s2)
           | (Inr rows1, s2) \<Rightarrow> (Inr (row1 # rows1), s2)))"

definition delete_with_signals :: "'s env \<Rightarrow> go_ctx \<Rightarrow> queryset \<Rightarrow> 's \<Rightarrow> (exec_error + int) \<times> 's" where
  "delete_with_signals en c q s = on_query q s (\<lambda>m.
     case all_rows en c q s of
       (Inl e, s1) \<Rightarrow> (Inl e, s1)
     | (Inr rows, s1) \<Rightarrow>
         (case fire_each en (m_go_type m) PreDelete rows s1 of
            (Inl e, s2) \<Rightarrow> (Inl e, s2)
          | (Inr rows1, s2) \<Rightarrow>
              (case delete_rows en c q s2 of
                 (Inl e, s3) \<Rightarrow> (Inl e, s3)
               | (Inr affected, s3) \<Rightarrow>
                   (case fire_each en (m_go_type m) PostDelete rows1 s3 of
                      (Inl e, s4) \<Rightarrow> (Inl e, s4)
                    | (Inr rows2, s4) \<Rightarrow> (Inr affected, s4)))))"

definition delete_terminal :: "'s env \<Rightarrow> go_ctx \<Rightarrow> queryset \<Rightarrow> 's \<Rightarrow> (exec_error + int) \<times> 's" where
  "delete_terminal en c q s = on_query q s (\<lambda>m.
     if has_delete_handlers (en_signals en) (m_go_type m)
     then delete_with_signals en c q s else delete_rows en c q s)"

subsection \<open>Labelled rows\<close>

definition labeled_rows_sql :: "dialect \<Rightarrow> model \<Rightarrow> field \<Rightarrow> string" where
  "labeled_rows_sql d m pk =
     ''SELECT '' @ Join (map (d_quote d) (columns m)) '', '' @ '' FROM '' @ d_quote d (m_table m) @
     '' ORDER BY '' @ d_quote d (f_column pk)"

definition labeled_rows ::
  "'s env \<Rightarrow> go_ctx \<Rightarrow> (instance_val \<Rightarrow> string) option \<Rightarrow> model \<Rightarrow> 's \<Rightarrow>
     (exec_error + (string \<times> string) list) \<times> 's"
where
  "labeled_rows en c str m s =
     (case primary_key m of
        None \<Rightarrow> (Inl (NoPrimaryKeyFor (m_name m)), s)
      | Some pk \<Rightarrow>
          (case conn_query (en_driver en) c (labeled_rows_sql (db_dialect (en_db en)) m pk) [] s of
             (Inl e, s1) \<Rightarrow> (Inl (DbError ''labeled rows'' (m_name m) e), s1)
           | (Inr q, s1) \<Rightarrow>
               (map_inl (RowsFailed (m_name m))
                  (bind_err (scan_rows (en_layouts en (m_go_type m)) m q) (\<lambda>objs.
                     Inr (map (\<lambda>obj. (sprint (obj ! f_index pk), label str m (StructInstance obj))) objs))),
                s1)))"

subsection \<open>The INSERT binds its arguments\<close>

context sql_dialect
begin

lemma insert_sql_reads:
  assumes "ends_number rest" and "list_all plain_char rest"
  shows "params 1 (insert_sql d m @ rest) = [1..<Suc (length (insert_fields m))]"
proof -
  have cols: "params k (Join (map (\<lambda>f. d_quote d (f_column f)) (insert_fields m)) '', '' @ r) = params k r" for k r
    using params_Join_columns [of k "map f_column (insert_fields m)" r] by (simp add: comp_def)
  have "params 1 (insert_sql d m @ rest) =
      params (Suc 0) (Join (map (d_placeholder d) [Suc 0..<Suc (0 + length (insert_fields m))]) '', '' @ CHR '')'' # rest)"
    by (simp add: insert_sql_def read_simps cols)
  also have "\<dots> = [Suc 0..<Suc (length (insert_fields m))]"
    using params_plain_append [OF assms(2), of _ "[]"]
    by (subst params_Join_Suc) (simp_all add: read_simps params_Nil ends_number_def)
  finally show ?thesis by simp
qed

lemma insert_returning_reads:
  "params 1 (insert_sql d m @ '' RETURNING '' @ d_quote d c) = [1..<Suc (length (insert_fields m))]"
proof -
  have cols: "params k (Join (map (\<lambda>f. d_quote d (f_column f)) (insert_fields m)) '', '' @ r) = params k r" for k r
    using params_Join_columns [of k "map f_column (insert_fields m)" r] by (simp add: comp_def)
  have q: "params k (d_quote d c) = []" for k
    using params_quote [of k c "[]"] by (simp add: params_Nil)
  show ?thesis
    by (simp add: insert_sql_def read_simps cols q params_Join_Suc [of _ 0, simplified] ends_number_def)
qed

end

subsection \<open>The object that is inserted\<close>

text \<open>Both loops of \<open>Create\<close> over the fields change the value of each field on its own.\<close>

definition default_of :: "gotype \<Rightarrow> field \<Rightarrow> goval \<Rightarrow> goval" where
  "default_of t f v = (if f_has_default f \<and> v = zero_val t then set_default_value t v (f_default f) else v)"

definition stamp_of :: "gotime \<Rightarrow> field \<Rightarrow> goval \<Rightarrow> goval" where
  "stamp_of now f v = (if f_kind f = KindDateTime \<and> (f_auto_now f \<or> f_auto_now_add f) then VTime now else v)"

definition update_at :: "(field \<Rightarrow> goval \<Rightarrow> goval) \<Rightarrow> field \<Rightarrow> struct_val \<Rightarrow> struct_val" where
  "update_at h f obj = obj[f_index f := h f (obj ! f_index f)]"

lemma apply_default_update_at:
  "apply_default layout = update_at (\<lambda>f. default_of (layout ! f_index f) f)"
  by (simp add: fun_eq_iff apply_default_def update_at_def default_of_def Let_def)

lemma stamp_on_create_update_at: "stamp_on_create now = update_at (stamp_of now)"
  by (auto simp: fun_eq_iff stamp_on_create_def update_at_def stamp_of_def)

lemma length_fold_update_at [simp]: "length (fold (update_at h) fs obj) = length obj"
  by (induction fs arbitrary: obj) (simp_all add: update_at_def)

lemma fold_update_at_other: "i \<notin> f_index ` set fs \<Longrightarrow> fold (update_at h) fs obj ! i = obj ! i"
  by (induction fs arbitrary: obj) (auto simp: update_at_def)

lemma fold_update_at_nth:
  "distinct (map f_index fs) \<Longrightarrow> f \<in> set fs \<Longrightarrow> f_index f < length obj \<Longrightarrow>
     fold (update_at h) fs obj ! f_index f = h f (obj ! f_index f)"
proof (induction fs arbitrary: obj)
  case (Cons g gs)
  show ?case
  proof (cases "f = g")
    case True
    with Cons.prems fold_update_at_other [of "f_index g" gs h "update_at h g obj"] show ?thesis
      by (simp add: update_at_def [of h g])
  next
    case False
    with Cons.prems have "f \<in> set gs" "f_index f \<noteq> f_index g" by (auto simp: image_iff)
    with Cons show ?thesis by (simp add: update_at_def [of h g])
  qed
qed simp

text \<open>The value that \<open>Create\<close> inserts for a field.\<close>

definition prepared :: "gotime \<Rightarrow> gotype list \<Rightarrow> field \<Rightarrow> goval \<Rightarrow> goval" where
  "prepared now layout f v = stamp_of now f (default_of (layout ! f_index f) f v)"

lemma length_prepare_row [simp]: "length (prepare_row en m obj) = length obj"
  by (simp add: prepare_row_def apply_auto_now_on_create_def apply_defaults_def
      apply_default_update_at stamp_on_create_update_at)

lemma prepare_row_nth:
  assumes "distinct (map f_index (m_fields m))" and "f \<in> set (m_fields m)" and "f_index f < length obj"
  shows "prepare_row en m obj ! f_index f =
    prepared (en_now en) (en_layouts en (m_go_type m)) f (obj ! f_index f)"
  using assms
  by (simp add: prepare_row_def apply_auto_now_on_create_def apply_defaults_def
      apply_default_update_at stamp_on_create_update_at fold_update_at_nth prepared_def)

lemma prepare_row_other:
  "i \<notin> f_index ` set (m_fields m) \<Longrightarrow> prepare_row en m obj ! i = obj ! i"
  by (simp add: prepare_row_def apply_auto_now_on_create_def apply_defaults_def
      apply_default_update_at stamp_on_create_update_at fold_update_at_other)

lemma default_of_type:
  assumes "has_type v t" and "kind_fits t f" and "f_has_default f \<longrightarrow> default_typed (f_kind f) (f_default f)"
  shows "has_type (default_of t f v) t"
proof (cases "f_has_default f \<and> v = zero_val t")
  case True
  with assms show ?thesis
    by (cases t; cases "f_kind f") (auto simp: default_of_def kind_fits_def default_typed_def set_default_value_def)
qed (use assms(1) in \<open>auto simp: default_of_def\<close>)

lemma stamp_of_type: "has_type v t \<Longrightarrow> kind_fits t f \<Longrightarrow> has_type (stamp_of now f v) t"
  by (cases t) (auto simp: stamp_of_def kind_fits_def)

lemma model_wf_default_typed:
  assumes "model_wf m" and "f \<in> set (m_fields m)"
  shows "f_has_default f \<longrightarrow> default_typed (f_kind f) (f_default f)"
proof -
  from assms(2) obtain i where i: "i < length (m_fields m)" "f = m_fields m ! i"
    by (auto simp: in_set_conv_nth)
  from assms(1) obtain pk where "pk_wf (m_fields m) pk" "fields_wf (m_fields m) pk"
    by (auto simp: model_wf_def)
  with i show ?thesis
    by (cases "i = pk") (auto simp: pk_wf_def fields_wf_def field_wf_def scalar_wf_def)
qed

lemma prepare_row_type:
  assumes "instance_of obj (en_layouts en (m_go_type m))" and "model_fits (en_layouts en (m_go_type m)) m"
    and "model_wf m"
  shows "instance_of (prepare_row en m obj) (en_layouts en (m_go_type m))"
proof -
  let ?L = "en_layouts en (m_go_type m)"
  have len: "length obj = length ?L" using assms(1) by (simp add: instance_of_def list_all2_lengthD)
  have "has_type (prepare_row en m obj ! i) (?L ! i)" if "i < length ?L" for i
  proof (cases "i \<in> f_index ` set (m_fields m)")
    case True
    then obtain f where f: "f \<in> set (m_fields m)" "i = f_index f" by auto
    with assms(2) have k: "kind_fits (?L ! i) f" by (simp add: model_fits_def)
    have "has_type (obj ! i) (?L ! i)" using assms(1) that by (rule instance_of_nth)
    with f k len that assms(2) model_wf_default_typed [OF assms(3)] show ?thesis
      by (simp add: prepare_row_nth model_fits_def prepared_def stamp_of_type default_of_type)
  qed (use assms(1) that in \<open>simp add: prepare_row_other instance_of_nth\<close>)
  with len show ?thesis by (simp add: instance_of_def list_all2_conv_all_nth)
qed

text \<open>Writing the key back changes no column that was inserted.\<close>

lemma set_insert_fields: "f \<in> set (insert_fields m) \<Longrightarrow> f \<in> set (m_fields m)"
  by (auto simp: insert_fields_def)

lemma insert_fields_not_auto:
  assumes "distinct (map f_index (m_fields m))" and "auto_pk m = Some pk" and "model_wf m"
    and "f \<in> set (insert_fields m)"
  shows "f_index f \<noteq> f_index pk"
proof -
  from assms(3) obtain k where k: "m_pk m = Some k" "k < length (m_fields m)"
    by (auto simp: model_wf_def pk_wf_def)
  with assms(2) have pk: "pk = m_fields m ! k"
    by (auto simp: auto_pk_def primary_key_def split: if_splits)
  from assms(2,4) k obtain i where i: "i < length (m_fields m)" "i \<noteq> k" "f = m_fields m ! i"
    by (auto simp: insert_fields_def)
  show ?thesis
    using distinct_map_nth_eq [OF assms(1) i(1) k(2)] i(2,3) pk by auto
qed

lemma insert_row_cong:
  "(\<And>f. f \<in> set (insert_fields m) \<Longrightarrow> obj ! f_index f = obj' ! f_index f) \<Longrightarrow>
     insert_row en c m obj s = insert_row en c m obj' s"
  by (simp add: insert_row_def insert_args_def cong: map_cong)

lemma auto_pk_in_fields: "auto_pk m = Some pk \<Longrightarrow> model_wf m \<Longrightarrow> pk \<in> set (m_fields m)"
  by (auto simp: auto_pk_def primary_key_def model_wf_def pk_wf_def split: if_splits)

lemma write_back_auto_pk_type: "write_back_auto_pk t i name = Inr v \<Longrightarrow> has_type v t"
  by (auto simp: write_back_auto_pk_def split: gotype.splits)

lemma write_back_Inr:
  assumes "write_back en m assigned obj = Inr obj'" and "model_fits (en_layouts en (m_go_type m)) m"
    and "model_wf m" and "instance_of obj (en_layouts en (m_go_type m))"
  shows "instance_of obj' (en_layouts en (m_go_type m)) \<and>
    (\<forall>f \<in> set (insert_fields m). obj' ! f_index f = obj ! f_index f)"
proof (cases "assigned = None \<or> auto_pk m = None")
  case True
  with assms(1,4) show ?thesis by (auto simp: write_back_def split: option.splits)
next
  case False
  then obtain i pk where i: "assigned = Some i" "auto_pk m = Some pk" by auto
  with assms(1) obtain v where
    v: "write_back_auto_pk (en_layouts en (m_go_type m) ! f_index pk) i (m_name m) = Inr v"
    and obj': "obj' = obj[f_index pk := v]"
    by (auto simp: write_back_def bind_err_Inr_iff)
  have "f_index pk < length (en_layouts en (m_go_type m))"
    using auto_pk_in_fields [OF i(2) assms(3)] assms(2) by (simp add: model_fits_def)
  with write_back_auto_pk_type [OF v] assms(4) have "instance_of obj' (en_layouts en (m_go_type m))"
    by (simp add: obj' instance_of_update)
  moreover have "obj' ! f_index f = obj ! f_index f" if "f \<in> set (insert_fields m)" for f
    using insert_fields_not_auto [OF _ i(2) assms(3) that] assms(2) by (simp add: obj' model_fits_def)
  ultimately show ?thesis by blast
qed

subsection \<open>Time stamps of an update\<close>

lemma with_auto_now_closed_form:
  "distinct (map f_column fs) \<Longrightarrow>
   with_auto_now now fs assigns =
     assigns @ map (\<lambda>f. (f_column f, VTime now))
       (filter (\<lambda>f. f_auto_now f \<and> f_column f \<notin> fst ` set assigns) fs)"
proof (induction fs arbitrary: assigns)
  case (Cons f fs)
  have "filter (\<lambda>g. f_auto_now g \<and> f_column g \<notin> insert (f_column f) (fst ` set assigns)) fs =
      filter (\<lambda>g. f_auto_now g \<and> f_column g \<notin> fst ` set assigns) fs"
    using Cons.prems by (intro filter_cong) (auto simp: image_iff)
  with Cons show ?case
    by (simp add: with_auto_now_def inject_auto_now_def assigns_has_column_def)
qed (simp add: with_auto_now_def)

subsection \<open>The rows of a query\<close>

lemma resolve_rel_in_layout:
  assumes "resolve_rel (reg_models r) m name = Inr rel" and "registry_wf r" and "resolved r"
    and "m \<in> set (reg_models r)" and "in_layout layout m"
  shows "rel_in_layout layout rel"
proof -
  from assms(1) obtain f fr i where f: "field_by_name m name = Some f" "f_rel f = Some fr"
    and i: "rel_target fr = Some i"
    and rel: "jr_field rel = f" "jr_target rel = reg_models r ! i"
    by (auto simp: resolve_rel_def split: option.splits if_splits)
  from assms(2,4) have "model_wf m" by (simp add: registry_wf_def)
  with f(1) have fm: "f \<in> set (m_fields m)" by (auto simp: field_by_name_def model_wf_def)
  with assms(3,4) f(2) i have "i < length (reg_models r)" unfolding resolved_def by fastforce
  with assms(2) have "model_wf (jr_target rel)" by (simp add: rel registry_wf_def)
  with assms(5) fm show ?thesis by (simp add: rel_in_layout_def rel in_layout_def)
qed

lemma resolve_select_related_in_layout:
  assumes "resolve_select_related (reg_models r) m names = Inr rels" and "registry_wf r" and "resolved r"
    and "m \<in> set (reg_models r)" and "in_layout layout m"
  shows "\<forall>rel \<in> set rels. rel_in_layout layout rel"
proof
  fix rel
  assume "rel \<in> set rels"
  from collect_err_set [OF assms(1) [unfolded resolve_select_related_def] this]
  show "rel_in_layout layout rel" using resolve_rel_in_layout [OF _ assms(2-5)] by blast
qed

text \<open>What a query set without error does, and the rows \<open>All\<close> returns.\<close>

lemma on_query_Inr:
  "on_query q s k = (Inr x, s') \<longleftrightarrow> q_err q = None \<and> (\<exists>m. q_model q = Some m \<and> k m = (Inr x, s'))"
  by (auto simp: on_query_def split: option.splits)

lemma all_rows_Inr:
  assumes "all_rows en c q s = (Inr objs, s')"
  obtains m rels sql args rows where "q_err q = None" and "q_model q = Some m"
    and "rels = [] \<and> q_select_related q = [] \<or>
      resolve_select_related (reg_models (db_registry (en_db en))) m (q_select_related q) = Inr rels"
    and "compile_select (en_db en) q = Inr (sql, args)"
    and "conn_query (en_driver en) c sql args s = (Inr rows, s')"
    and "scan_rows_joined (en_layouts en) m rels rows = Inr objs \<or>
      scan_rows (en_layouts en (m_go_type m)) m rows = Inr objs"
  using assms unfolding all_rows_def on_query_Inr
  by (elim conjE exE) (auto split: sum.splits prod.splits if_splits)

text \<open>What the drivers promise: rows of driver values.\<close>

definition driver_ok :: "'s driver \<Rightarrow> bool" where
  "driver_ok drv \<longleftrightarrow>
     (\<forall>tx sql args s rows s'. drv_query drv tx sql args s = (Inr rows, s') \<longrightarrow> driver_rows rows)"

subsection \<open>Statements without their slice\<close>

lemma Limit_simps [simp]:
  "q_err (Limit n q) = q_err q" "q_model (Limit n q) = q_model q" "q_wheres (Limit n q) = q_wheres q"
  by (simp_all add: Limit_def)

lemma compile_delete_Limit [simp]: "compile_delete db (Limit n q) = compile_delete db q"
  unfolding compile_delete_def with_model_def Limit_simps by (rule refl)

text \<open>A limit does not reach the DELETE.\<close>

lemma delete_ignores_limit: "delete_rows en c (Limit n q) s = delete_rows en c q s"
  unfolding delete_rows_def on_query_def Limit_simps compile_delete_Limit by (rule refl)

text \<open>A driver for the witnesses: it logs the statements, and answers queries with given rows.\<close>

definition log_driver :: "goval list list \<Rightarrow> (string \<times> goval list) list driver" where
  "log_driver rows = \<lparr>drv_begin = (\<lambda>s. (None, s)), drv_commit = (\<lambda>s. (None, s)), drv_rollback = (\<lambda>s. s),
     drv_exec = (\<lambda>tx sql args s. (Inr \<lparr>er_last_insert_id = Inr 7, er_rows_affected = Inr 1\<rparr>, s @ [(sql, args)])),
     drv_query = (\<lambda>tx sql args s. (Inr \<lparr>qr_rows = rows, qr_err = None\<rparr>, s @ [(sql, args)]))\<rparr>"

definition blog_layouts :: layouts where
  "blog_layouts t = (if t = RType ''blog'' ''Post'' then struct_layout post_struct else struct_layout author_struct)"

definition blog_env :: "goval list list \<Rightarrow> (string \<times> goval list) list env" where
  "blog_env rows = \<lparr>en_db = blog_db, en_driver = log_driver rows, en_now = zero_time,
     en_layouts = blog_layouts, en_signals = new_signals\<rparr>"

lemma log_driver_ok: "\<forall>row \<in> set rows. \<forall>v \<in> set row. driver_value v \<Longrightarrow> driver_ok (log_driver rows)"
  by (auto simp: driver_ok_def log_driver_def driver_rows_def)

definition post_all :: queryset where
  "post_all = new_query blog_db (RType ''blog'' ''Post'')"

definition linked_post :: model where
  "linked_post = post_model (Some 0)"

lemma linked_registry_facts: "registry_wf linked_registry" "resolved linked_registry"
  by (rule resolve_keeps_wf [OF resolve_blog blog_registry_wf])
    (rule resolve_resolved [OF resolve_blog blog_registry_wf])

lemma linked_post_in: "linked_post \<in> set (reg_models linked_registry)"
  by (simp add: linked_post_def linked_registry_def registry_of_models_def)

lemma linked_post_wf: "model_wf linked_post"
  using linked_registry_facts(1) linked_post_in by (simp add: registry_wf_def)

lemma post_all_query: "q_err post_all = None" "q_model post_all = Some linked_post"
  by (simp_all add: post_all_def new_query_def blog_db_def linked_registry_def registry_of_models_def
      model_of_def linked_post_def Let_def)

lemma linked_post_fits:
  "model_fits (en_layouts (blog_env rows) (m_go_type linked_post)) linked_post"
proof -
  have "model_fits (struct_layout post_struct) linked_post" by code_simp
  then show ?thesis by (simp add: blog_env_def blog_layouts_def linked_post_def post_model_def)
qed

lemma no_handlers: "fire (en_signals (blog_env rows)) t k obj s = ((None, obj), s)"
  by (simp add: blog_env_def fire_def snapshot_def new_signals_def)

subsection \<open>Properties\<close>

text \<open>The INSERT of \<open>Create\<close>, with or without RETURNING, binds with its placeholders exactly the values
  of the inserted fields, in their order, each once, on both dialects.\<close>

theorem insert_binds_arguments:
  assumes "db_dialect db = sqlite \<or> db_dialect db = postgres"
  shows "dialect_params db 1 (insert_sql (db_dialect db) m) = [1..<Suc (length (insert_args m obj))] \<and>
    dialect_params db 1 (insert_sql (db_dialect db) m @ '' RETURNING '' @ d_quote (db_dialect db) c) =
      [1..<Suc (length (insert_args m obj))]"
  using assms
proof (cases rule: dialect_params_cases)
  case 1
  with lite.insert_returning_reads [of m c] lite.insert_sql_reads [of "[]" m] show ?thesis
    by (simp add: insert_args_def ends_number_def del: One_nat_def)
next
  case 2
  with pg.insert_returning_reads [of m c] pg.insert_sql_reads [of "[]" m] show ?thesis
    by (simp add: insert_args_def ends_number_def del: One_nat_def)
qed

theorem insert_binds_arguments_witness:
  "dialect_params blog_db 1 (insert_sql (db_dialect blog_db) (post_model None)) = [1..<3]"
proof -
  have "length (insert_args (post_model None) [VInt I64 0, VString ''Hello'', VFK 3 None]) = 2" by code_simp
  with insert_binds_arguments [OF blog_db_dialect, of "post_model None" "[VInt I64 0, VString ''Hello'', VFK 3 None]"]
  show ?thesis by (simp add: eval_nat_numeral)
qed

text \<open>C27: The statements of Update, Count, Delete, Exists and Create read on both dialects as the database reads
  them: their placeholders bind exactly the arguments they are sent with, in order, each once, whatever the
  names and the values are; an UPDATE binds the assigned values first, an INSERT the inserted ones, with or
  without RETURNING.\<close>

theorem statements_bind_arguments:
  assumes "db_dialect db = sqlite \<or> db_dialect db = postgres"
  shows "(compile_update db q assigns = Inr (sql, args) \<longrightarrow>
      dialect_params db 1 sql = [1..<Suc (length args)] \<and> take (length assigns) args = map snd assigns) \<and>
    (compile_count db q = Inr (sql', args') \<or> compile_delete db q = Inr (sql', args') \<or>
       compile_exists db q = Inr (sql', args') \<longrightarrow> dialect_params db 1 sql' = [1..<Suc (length args')]) \<and>
    dialect_params db 1 (insert_sql (db_dialect db) m) = [1..<Suc (length (insert_args m obj))] \<and>
    dialect_params db 1 (insert_sql (db_dialect db) m @ '' RETURNING '' @ d_quote (db_dialect db) c) =
      [1..<Suc (length (insert_args m obj))]"
  using update_binds_arguments [OF _ assms] count_delete_exists_bind_arguments [OF _ assms]
    insert_binds_arguments [OF assms] by blast

theorem statements_bind_arguments_witness:
  "dialect_params blog_db 1 (fst (projr (compile_update blog_db post_query [(''title'', VString ''x'')]))) = [1..<5] \<and>
   dialect_params blog_db 1 (fst (projr (compile_delete blog_db post_query))) = [1..<4] \<and>
   dialect_params blog_db 1 (insert_sql (db_dialect blog_db) (post_model None)) = [1..<3]"
proof -
  have len: "length (snd (projr (compile_update blog_db post_query [(''title'', VString ''x'')]))) = 4"
    "length (snd (projr (compile_delete blog_db post_query))) = 3"
    "length (insert_args (post_model None) [VInt I64 0, VString ''Hello'', VFK 3 None]) = 2"
    by code_simp+
  have "dialect_params blog_db 1 (fst (projr (compile_update blog_db post_query [(''title'', VString ''x'')]))) =
      [1..<Suc (length (snd (projr (compile_update blog_db post_query [(''title'', VString ''x'')]))))]"
    using statements_bind_arguments [OF blog_db_dialect] Inr_projr_split [OF post_update] by blast
  moreover have "dialect_params blog_db 1 (fst (projr (compile_delete blog_db post_query))) =
      [1..<Suc (length (snd (projr (compile_delete blog_db post_query))))]"
    using statements_bind_arguments [OF blog_db_dialect] Inr_projr_split [OF post_delete] by blast
  moreover have "dialect_params blog_db 1 (insert_sql (db_dialect blog_db) (post_model None)) =
      [1..<Suc (length (insert_args (post_model None) [VInt I64 0, VString ''Hello'', VFK 3 None]))]"
    using statements_bind_arguments [OF blog_db_dialect] by blast
  ultimately show ?thesis by (simp add: len eval_nat_numeral)
qed

text \<open>C16: Create runs the \<open>PreSave\<close> handlers first, and a handler's error ends it with nothing else done. A
  Create that succeeds has run exactly one INSERT, of the object \<open>obj3\<close> that the \<open>PostSave\<close> handlers then
  see: its columns hold the values the caller and the handlers set, or the declared default where that
  was zero, or the time of the handle for a time-stamped column; the object stays an instance of its type.\<close>

theorem create_inserts_prepared_object:
  assumes "q_err q = None" and "q_model q = Some m" and "model_wf m"
    and "model_fits (en_layouts en (m_go_type m)) m"
    and "fire (en_signals en) (m_go_type m) PreSave obj s = ((e, obj1), s1)"
    and "instance_of obj1 (en_layouts en (m_go_type m))"
  shows "case e of
      Some err \<Rightarrow> create_row en c q obj s = ((Some (HandlerError err), obj1), s1)
    | None \<Rightarrow> create_row en c q obj s = ((None, obj'), s') \<longrightarrow>
        (\<exists>obj3 i s2. insert_row en c m obj3 s1 = (Inr i, s2) \<and>
           fire (en_signals en) (m_go_type m) PostSave obj3 s2 = ((None, obj'), s') \<and>
           instance_of obj3 (en_layouts en (m_go_type m)) \<and>
           (\<forall>f \<in> set (insert_fields m). obj3 ! f_index f =
              prepared (en_now en) (en_layouts en (m_go_type m)) f (obj1 ! f_index f)))"
proof (cases e)
  case None
  let ?L = "en_layouts en (m_go_type m)"
  let ?obj2 = "prepare_row en m obj1"
  have t2: "instance_of ?obj2 ?L" using assms(6,4,3) by (rule prepare_row_type)
  have len: "length obj1 = length ?L" using assms(6) by (simp add: instance_of_def list_all2_lengthD)
  have "\<exists>obj3 i s2. insert_row en c m obj3 s1 = (Inr i, s2) \<and>
           fire (en_signals en) (m_go_type m) PostSave obj3 s2 = ((None, obj'), s') \<and>
           instance_of obj3 ?L \<and>
           (\<forall>f \<in> set (insert_fields m). obj3 ! f_index f = prepared (en_now en) ?L f (obj1 ! f_index f))"
    if run: "create_row en c q obj s = ((None, obj'), s')"
  proof -
    from run None assms(1,2,5) obtain i s2 obj3 where
      ins: "insert_row en c m ?obj2 s1 = (Inr i, s2)"
      and wb: "write_back en m i ?obj2 = Inr obj3"
      and post: "fire (en_signals en) (m_go_type m) PostSave obj3 s2 = ((None, obj'), s')"
      by (auto simp: create_row_def Let_def split: sum.splits prod.splits)
    from write_back_Inr [OF wb assms(4,3) t2] have t3: "instance_of obj3 ?L"
      and same: "\<And>f. f \<in> set (insert_fields m) \<Longrightarrow> obj3 ! f_index f = ?obj2 ! f_index f" by auto
    have "insert_row en c m obj3 s1 = insert_row en c m ?obj2 s1" by (rule insert_row_cong) (rule same)
    with ins have "insert_row en c m obj3 s1 = (Inr i, s2)" by simp
    moreover have "obj3 ! f_index f = prepared (en_now en) ?L f (obj1 ! f_index f)"
      if "f \<in> set (insert_fields m)" for f
      using same [OF that] prepare_row_nth [of m f obj1 en] set_insert_fields [OF that] assms(4) len
      by (simp add: model_fits_def)
    ultimately show ?thesis using post t3 by blast
  qed
  with None show ?thesis by simp
qed (use assms(1,2,5) in \<open>simp add: create_row_def\<close>)

text \<open>A post that is created: its key comes from the database.\<close>

definition created_post :: "(exec_error option \<times> struct_val) \<times> (string \<times> goval list) list" where
  "created_post = create_row (blog_env [[VInt I64 7]]) background post_all
     [VInt I64 0, VString ''Hello'', VFK 3 None] []"

theorem create_inserts_prepared_object_witness:
  "\<exists>obj3 i s2. insert_row (blog_env [[VInt I64 7]]) background linked_post obj3 [] = (Inr i, s2) \<and>
     instance_of obj3 (struct_layout post_struct) \<and> snd (fst created_post) = [VInt I64 7, VString ''Hello'', VFK 3 None]"
proof -
  let ?obj = "[VInt I64 0, VString ''Hello'', VFK 3 None]" and ?en = "blog_env [[VInt I64 7]]"
  have layout: "en_layouts ?en (m_go_type linked_post) = struct_layout post_struct"
    by (simp add: blog_env_def blog_layouts_def linked_post_def post_model_def)
  have "Option.is_none (fst (fst created_post)) \<and> snd (fst created_post) = [VInt I64 7, VString ''Hello'', VFK 3 None]"
    by code_simp
  then have eq: "snd (fst created_post) = [VInt I64 7, VString ''Hello'', VFK 3 None]"
    and run: "created_post = ((None, [VInt I64 7, VString ''Hello'', VFK 3 None]), snd created_post)"
    by (simp_all add: Option.is_none_def prod_eq_iff)
  have inst: "instance_of ?obj (struct_layout post_struct)" by code_simp
  note prepared = create_inserts_prepared_object [OF post_all_query linked_post_wf linked_post_fits no_handlers,
      where obj = ?obj and s = "[]" and rows1 = "[[VInt I64 7]]"]
  have "\<exists>obj3 i s2. insert_row ?en background linked_post obj3 [] = (Inr i, s2) \<and>
      instance_of obj3 (struct_layout post_struct)"
    using prepared [unfolded layout, OF inst, of background, folded created_post_def] run
    by (simp only: option.case) blast
  with eq show ?thesis by blast
qed

text \<open>The assignments of an Update are the caller's, unchanged and in order, followed by the current
  time for every \<open>auto_now\<close> column the caller did not assign: an explicit value wins, and no column is
  assigned twice.\<close>

theorem update_touches_auto_now:
  assumes "model_wf m" and "q_err q = None" and "q_model q = Some m"
    and "assignments pairs = Inr assigns"
  shows "with_auto_now (en_now en) (m_fields m) assigns = assigns @ map (\<lambda>f. (f_column f, VTime (en_now en)))
      (filter (\<lambda>f. f_auto_now f \<and> f_column f \<notin> fst ` set assigns) (m_fields m)) \<and>
    update_rows en c pairs q s =
      (case compile_update (en_db en) q (with_auto_now (en_now en) (m_fields m) assigns) of
         Inl e \<Rightarrow> (Inl (CompileError e), s)
       | Inr (sql, args) \<Rightarrow> exec_affected en c ''update'' (m_name m) sql args s) \<and>
    (distinct (map fst assigns) \<longrightarrow> distinct (map fst (with_auto_now (en_now en) (m_fields m) assigns)))"
proof -
  have d: "distinct (map f_column (m_fields m))"
    using model_wf_distinct_columns [OF assms(1)] by (simp add: columns_def)
  then have "distinct (map f_column (filter P (m_fields m)))" for P by (rule distinct_map_filter)
  then show ?thesis
    using assms by (auto simp: with_auto_now_closed_form [OF d] update_rows_def on_query_def comp_def image_iff)
qed

text \<open>Every object that All returns, joined or not, is an instance of the struct type of the model: one
  value of its type for each field, integers within their width.\<close>

theorem all_returns_instances:
  assumes "all_rows en c q s = (Inr objs, s')" and "q_model q = Some m" and "obj \<in> set objs"
    and "registry_wf (db_registry (en_db en))" and "resolved (db_registry (en_db en))"
    and "m \<in> set (reg_models (db_registry (en_db en)))"
    and "model_fits (en_layouts en (m_go_type m)) m" and "driver_ok (en_driver en)"
  shows "instance_of obj (en_layouts en (m_go_type m))"
  using assms(1)
proof (rule all_rows_Inr)
  fix m' rels sql args rows
  assume m': "q_model q = Some m'"
    and rels: "rels = [] \<and> q_select_related q = [] \<or>
      resolve_select_related (reg_models (db_registry (en_db en))) m' (q_select_related q) = Inr rels"
    and rows: "conn_query (en_driver en) c sql args s = (Inr rows, s')"
    and scan: "scan_rows_joined (en_layouts en) m' rels rows = Inr objs \<or>
      scan_rows (en_layouts en (m_go_type m')) m' rows = Inr objs"
  have m: "m' = m" using m' assms(2) by simp
  have lay: "in_layout (en_layouts en (m_go_type m)) m" using assms(7) by (rule model_fits_in_layout)
  have drv: "driver_rows rows" using rows assms(8) unfolding conn_query_def driver_ok_def by blast
  have "\<forall>r \<in> set rels. rel_in_layout (en_layouts en (m_go_type m)) r"
    using rels resolve_select_related_in_layout [OF _ assms(4-6) lay] by (auto simp: m)
  with scan lay drv assms(3) show ?thesis
    unfolding m by (blast intro: scan_rows_joined_type scan_rows_type)
qed

text \<open>A model with an \<open>auto_now\<close> column.\<close>

definition stamped_post :: model where
  "stamped_post = linked_post\<lparr>m_fields := (m_fields linked_post)[1 :=
     (m_fields linked_post ! 1)\<lparr>f_kind := KindDateTime, f_auto_now := True\<rparr>]\<rparr>"

lemma list_update_cols:
  "f_column (fs[k := (fs ! k)\<lparr>f_kind := x, f_auto_now := b\<rparr>] ! i) = f_column (fs ! i)"
  "f_name (fs[k := (fs ! k)\<lparr>f_kind := x, f_auto_now := b\<rparr>] ! i) = f_name (fs ! i)"
  "f_primary_key (fs[k := (fs ! k)\<lparr>f_kind := x, f_auto_now := b\<rparr>] ! i) = f_primary_key (fs ! i)"
  by (cases "i = k \<and> k < length fs", auto simp: list_update_beyond not_less)+

lemma stamped_post_wf: "model_wf stamped_post"
proof -
  let ?f = "(m_fields linked_post ! 1)\<lparr>f_kind := KindDateTime, f_auto_now := True\<rparr>"
  have f: "field_wf ?f \<and> \<not> f_primary_key (m_fields linked_post ! 1)"
    by (simp add: linked_post_def post_model_def char_field_def id_field_def field_wf_def scalar_wf_def)
  have pk: "m_pk linked_post = Some 0" by (simp add: linked_post_def post_model_def)
  have cols: "f_column (m_fields stamped_post ! i) = f_column (m_fields linked_post ! i)"
    "f_name (m_fields stamped_post ! i) = f_name (m_fields linked_post ! i)"
    "f_primary_key (m_fields stamped_post ! i) = f_primary_key (m_fields linked_post ! i)" for i
    by (simp_all add: stamped_post_def list_update_cols)
  have "fields_wf (m_fields linked_post) 0" and pkw: "pk_wf (m_fields linked_post) 0"
    using linked_post_wf pk by (auto simp: model_wf_def)
  then have "fields_wf (m_fields stamped_post) 0"
    using f by (auto simp: fields_wf_def cols) (auto simp: stamped_post_def nth_list_update)
  moreover have "pk_wf (m_fields stamped_post) 0"
    using pkw by (auto simp: pk_wf_def cols) (auto simp: stamped_post_def)
  ultimately show ?thesis
    using linked_post_wf pk by (simp add: model_wf_def cols) (simp add: stamped_post_def)
qed

theorem update_touches_auto_now_witness:
  "with_auto_now zero_time (m_fields stamped_post) [(''author_id'', VInt I64 4)] =
     [(''author_id'', VInt I64 4), (''title'', VTime zero_time)]"
proof -
  have "assignments [VString ''author_id'', VInt I64 4] = Inr [(''author_id'', VInt I64 4)]" by simp
  from update_touches_auto_now [OF stamped_post_wf _ _ this, of "post_all\<lparr>q_model := Some stamped_post\<rparr>"
      "blog_env []"] post_all_query(1)
  have "with_auto_now zero_time (m_fields stamped_post) [(''author_id'', VInt I64 4)] =
      [(''author_id'', VInt I64 4)] @ map (\<lambda>f. (f_column f, VTime zero_time))
        (filter (\<lambda>f. f_auto_now f \<and> f_column f \<notin> fst ` set [(''author_id'', VInt I64 4)]) (m_fields stamped_post))"
    by (simp add: blog_env_def)
  then show ?thesis by code_simp
qed

text \<open>The rows a driver answers a query with, one of them with a foreign key as text.\<close>

definition post_rows :: "(exec_error + struct_val list) \<times> (string \<times> goval list) list" where
  "post_rows = all_rows (blog_env [[VInt I64 7, VString ''Hello'', VInt I64 3], [VInt I64 8, VBytes ''b'', VBytes ''4'']])
     background post_all []"

theorem all_returns_instances_witness:
  "fst post_rows = Inr [[VInt I64 7, VString ''Hello'', VFK 3 None], [VInt I64 8, VString ''b'', VFK 4 None]] \<and>
   instance_of [VInt I64 8, VString ''b'', VFK 4 None] (struct_layout post_struct)"
proof -
  let ?objs = "[[VInt I64 7, VString ''Hello'', VFK 3 None], [VInt I64 8, VString ''b'', VFK 4 None]]"
  let ?rows = "[[VInt I64 7, VString ''Hello'', VInt I64 3], [VInt I64 8, VBytes ''b'', VBytes ''4'']]"
  have "\<not> isl (fst post_rows) \<and> projr (fst post_rows) = ?objs" by code_simp
  then have run: "all_rows (blog_env ?rows) background post_all [] = (Inr ?objs, snd post_rows)"
    unfolding post_rows_def by (metis Inr_projr prod.collapse)
  have reg: "db_registry (en_db (blog_env ?rows)) = linked_registry" by (simp add: blog_env_def blog_db_def)
  have drv: "driver_ok (en_driver (blog_env ?rows))"
    unfolding blog_env_def env.simps by (rule log_driver_ok) code_simp
  have layout: "en_layouts (blog_env ?rows) (m_go_type linked_post) = struct_layout post_struct"
    by (simp add: blog_env_def blog_layouts_def linked_post_def post_model_def)
  have "instance_of [VInt I64 8, VString ''b'', VFK 4 None] (struct_layout post_struct)"
    using all_returns_instances [OF run post_all_query(2) _ _ _ _ linked_post_fits drv, unfolded reg layout,
        OF _ linked_registry_facts linked_post_in] by simp
  with run show ?thesis unfolding post_rows_def by (metis fst_conv)
qed

end
