(* ===== verification/Orm_Relations.thy ===== *)
theory Orm_Relations
  imports Orm_Execute
begin

text \<open>
  The reverse side of foreign keys in \<open>orm/relations.go\<close>: \<open>RelatedObjects\<close>, \<open>FK.Fetch\<close>, \<open>Prefetch\<close> and
  \<open>PKsOf\<close>. A Go map from keys to slices is a map to lists.
\<close>

definition related_objects :: "orm_db \<Rightarrow> rtype \<Rightarrow> string \<Rightarrow> int \<Rightarrow> queryset" where
  "related_objects db t fkColumn parentPK = Filter [VString fkColumn, VInt I64 parentPK] (new_query db t)"

text \<open>\<open>Fetch\<close> returns, with its result, the foreign key it was called on.\<close>

definition fetch ::
  "'s env \<Rightarrow> go_ctx \<Rightarrow> rtype \<Rightarrow> goval \<Rightarrow> 's \<Rightarrow> ((exec_error + struct_val) \<times> goval) \<times> 's"
where
  "fetch en c t f s =
     (case fk_object f of
        Some obj \<Rightarrow> ((Inr obj, f), s)
      | None \<Rightarrow>
          (case get_row en c [VString ''id'', VInt I64 (fk_pk f)] (new_query (en_db en) t) s of
             (Inl e, s1) \<Rightarrow> ((Inl e, f), s1)
           | (Inr v, s1) \<Rightarrow> ((Inr v, VFK (fk_pk f) (Some v)), s1)))"

datatype prefetch_error =
    PrefetchNoModel rtype
  | PrefetchNoFkColumn string string
  | PrefetchFailed exec_error

definition add_child :: "nat \<Rightarrow> struct_val \<Rightarrow> (int \<rightharpoonup> struct_val list) \<Rightarrow> (int \<rightharpoonup> struct_val list)" where
  "add_child i child out =
     (let pk = fk_pk (child ! i)
      in out(pk \<mapsto> (case out pk of None \<Rightarrow> [] | Some children \<Rightarrow> children) @ [child]))"

definition group_children :: "nat \<Rightarrow> struct_val list \<Rightarrow> (int \<rightharpoonup> struct_val list)" where
  "group_children i children = fold (add_child i) children Map.empty"

definition prefetch ::
  "'s env \<Rightarrow> go_ctx \<Rightarrow> rtype \<Rightarrow> string \<Rightarrow> int list \<Rightarrow> 's \<Rightarrow>
     (prefetch_error + (int \<rightharpoonup> struct_val list)) \<times> 's"
where
  "prefetch en c t fkColumn parentPKs s =
     (if parentPKs = [] then (Inr Map.empty, s)
      else
        (case model_of (db_registry (en_db en)) (Some t) of
           None \<Rightarrow> (Inl (PrefetchNoModel t), s)
         | Some m \<Rightarrow>
             (case find (\<lambda>f. f_column f = fkColumn \<and> f_rel f \<noteq> None) (m_fields m) of
                None \<Rightarrow> (Inl (PrefetchNoFkColumn (m_name m) fkColumn), s)
              | Some fkField \<Rightarrow>
                  (case all_rows en c
                          (Filter [VString (fkColumn @ ''__in''), VSlice (map (VInt I64) parentPKs)]
                             (new_query (en_db en) t)) s of
                     (Inl e, s1) \<Rightarrow> (Inl (PrefetchFailed e), s1)
                   | (Inr children, s1) \<Rightarrow> (Inr (group_children (f_index fkField) children), s1)))))"

datatype pks_error = PksNoModel rtype | PksNoPrimaryKey string | PksPanic goval

text \<open>\<open>reflect.Value.Int\<close> panics on a value that is not a signed integer.\<close>

definition reflect_int :: "goval \<Rightarrow> pks_error + int" where
  "reflect_int v = (case v of VInt k n \<Rightarrow> Inr n | _ \<Rightarrow> Inl (PksPanic v))"

definition pks_of :: "orm_db \<Rightarrow> rtype \<Rightarrow> struct_val list \<Rightarrow> pks_error + int list" where
  "pks_of db t parents =
     (if parents = [] then Inr []
      else
        (case model_of (db_registry db) (Some t) of
           None \<Rightarrow> Inl (PksNoModel t)
         | Some m \<Rightarrow>
             (case primary_key m of
                None \<Rightarrow> Inl (PksNoPrimaryKey (m_name m))
              | Some pk \<Rightarrow> collect_err (\<lambda>obj. reflect_int (obj ! f_index pk)) parents)))"

subsection \<open>Grouping\<close>

lemma fold_add_child:
  "fold (add_child i) children out pk =
     (let new = filter (\<lambda>child. fk_pk (child ! i) = pk) children
      in if new = [] then out pk
         else Some ((case out pk of None \<Rightarrow> [] | Some old \<Rightarrow> old) @ new))"
  by (induction children arbitrary: out) (auto simp: add_child_def Let_def split: option.splits)

lemma group_children_filter:
  "group_children i children pk =
     (let new = filter (\<lambda>child. fk_pk (child ! i) = pk) children in if new = [] then None else Some new)"
  by (simp add: group_children_def fold_add_child Let_def)

subsection \<open>The two queries\<close>

text \<open>
  What a database with a table does: it answers the IN query for a list of keys, and the query for one
  key, with the rows of the table, in its order, that have one of the keys in the column.
\<close>

definition fk_queries :: "orm_db \<Rightarrow> rtype \<Rightarrow> string \<Rightarrow> queryset set" where
  "fk_queries db t fkColumn =
     range (related_objects db t fkColumn) \<union>
     range (\<lambda>pks. Filter [VString (fkColumn @ ''__in''), VSlice (map (VInt I64) pks)] (new_query db t))"

definition answers_from ::
  "goval list list \<Rightarrow> nat \<Rightarrow> 's env \<Rightarrow> go_ctx \<Rightarrow> rtype \<Rightarrow> string \<Rightarrow> 's \<Rightarrow> bool"
where
  "answers_from table col en c t fkColumn s \<longleftrightarrow>
     (\<forall>q \<in> fk_queries (en_db en) t fkColumn. \<forall>sql args. compile_select (en_db en) q = Inr (sql, args) \<longrightarrow>
        conn_query (en_driver en) c sql args s =
          (Inr \<lparr>qr_rows = filter (\<lambda>row. row ! col \<in> set args) table, qr_err = None\<rparr>, s))"

lemma new_query_model:
  "model_of (db_registry db) (Some t) = Some m \<Longrightarrow> q_err (new_query db t) = None \<and> q_model (new_query db t) = Some m \<and>
     q_select_related (new_query db t) = [] \<and> q_wheres (new_query db t) = [] \<and> q_orders (new_query db t) = []"
  by (simp add: new_query_def Let_def)

lemma filter_pair_simps:
  "q_err (Filter [VString k, v] q) = q_err q" "q_model (Filter [VString k, v] q) = q_model q"
  "q_select_related (Filter [VString k, v] q) = q_select_related q"
  "q_orders (Filter [VString k, v] q) = q_orders q"
  "q_wheres (Filter [VString k, v] q) = q_wheres q @ [\<lparr>w_key = k, w_value = v, w_negate = False\<rparr>]"
  by (simp_all add: Filter_def add_wheres_def)

text \<open>Both queries compile; the arguments are the keys.\<close>

lemma compile_fk_query:
  assumes "model_of (db_registry db) (Some t) = Some m" and "m_by_column m fkColumn = Some col"
  shows "pks \<noteq> [] \<Longrightarrow> \<exists>sql. compile_select db
      (Filter [VString (fkColumn @ ''__in''), VSlice (map (VInt I64) pks)] (new_query db t)) =
        Inr (sql, map (VInt I64) pks)"
    and "LastIndex fkColumn ''__'' = None \<Longrightarrow>
      \<exists>sql. compile_select db (related_objects db t fkColumn pk) = Inr (sql, [VInt I64 pk])"
proof -
  have p: "parse_lookup (fkColumn @ ''__in'') = (fkColumn, ''in'')"
    using parse_lookup_suffix [of "''in''" fkColumn] by (simp add: lookups_def)
  note defs = compile_select_def with_model_def filter_pair_simps new_query_model [OF assms(1)] compile_where_def
    build_predicate_def slice_elems_def compile_order_by_def assms(2) Let_def
  show "\<exists>sql. compile_select db
      (Filter [VString (fkColumn @ ''__in''), VSlice (map (VInt I64) pks)] (new_query db t)) =
        Inr (sql, map (VInt I64) pks)" if "pks \<noteq> []"
    using that by (simp add: defs p)
  show "\<exists>sql. compile_select db (related_objects db t fkColumn pk) = Inr (sql, [VInt I64 pk])"
    if "LastIndex fkColumn ''__'' = None"
    by (simp add: defs related_objects_def parse_lookup_plain [OF that])
qed

lemma all_rows_filter:
  assumes "model_of (db_registry (en_db en)) (Some t) = Some m"
    and "compile_select (en_db en) (Filter [VString k, v] (new_query (en_db en) t)) = Inr (sql, args)"
    and "conn_query (en_driver en) c sql args s = (Inr rows, s)"
  shows "all_rows en c (Filter [VString k, v] (new_query (en_db en) t)) s =
    (map_inl (RowsFailed (m_name m)) (scan_rows (en_layouts en (m_go_type m)) m rows), s)"
  using assms by (simp add: all_rows_def on_query_def filter_pair_simps new_query_model)

text \<open>Filtering the table is filtering the children.\<close>

lemma collect_err_filter:
  assumes "collect_err f (filter P xs) = Inr ys" and "\<And>x y. x \<in> set xs \<Longrightarrow> P x \<Longrightarrow> f x = Inr y \<Longrightarrow> Q x \<longleftrightarrow> R y"
    and "\<And>x. Q x \<Longrightarrow> P x"
  shows "collect_err f (filter Q xs) = Inr (filter R ys)"
  using assms(1,2)
proof (induction xs arbitrary: ys)
  case (Cons x xs)
  show ?case
  proof (cases "P x")
    case True
    with Cons.prems(1) obtain y zs where f: "f x = Inr y" and zs: "collect_err f (filter P xs) = Inr zs"
      and ys: "ys = y # zs"
      by (auto split: sum.splits)
    have "collect_err f (filter Q xs) = Inr (filter R zs)"
      using Cons.IH [OF zs] Cons.prems(2) by simp
    moreover have "Q x \<longleftrightarrow> R y" using Cons.prems(2) True f by simp
    ultimately show ?thesis by (simp add: f ys)
  next
    case False
    with assms(3) have "\<not> Q x" by blast
    moreover have "collect_err f (filter Q xs) = Inr (filter R ys)"
      using Cons.IH [of ys] Cons.prems False by simp
    ultimately show ?thesis by simp
  qed
qed simp

subsection \<open>Properties\<close>


text \<open>A table of posts and its database.\<close>

definition post_table :: "goval list list" where
  "post_table = [[VInt I64 1, VString ''a'', VInt I64 3], [VInt I64 2, VString ''b'', VNil],
     [VInt I64 5, VString ''c'', VInt I64 4], [VInt I64 6, VString ''d'', VInt I64 3]]"

definition table_env :: "unit env" where
  "table_env = \<lparr>en_db = blog_db,
     en_driver = \<lparr>drv_begin = (\<lambda>s. (None, s)), drv_commit = (\<lambda>s. (None, s)), drv_rollback = (\<lambda>s. s),
       drv_exec = (\<lambda>tx sql args s. (Inl ''read only'', s)),
       drv_query = (\<lambda>tx sql args s.
         (Inr \<lparr>qr_rows = filter (\<lambda>row. row ! 2 \<in> set args) post_table, qr_err = None\<rparr>, s))\<rparr>,
     en_now = zero_time, en_layouts = blog_layouts, en_signals = new_signals\<rparr>"


end
