(* ===== verification/Orm_Tables.thy ===== *)
theory Orm_Tables
  imports Orm_Relations
begin

text \<open>
  What the components above the ORM rely on: a database answers the SELECT of a query set with the rows of
  the table that its filters match. \<open>matching\<close> is that abstract reading of a query set with the lookups
  \<open>exact\<close> and \<open>in\<close>; \<open>select_answer\<close> and \<open>exists_answer\<close> say of one query that the driver answers it so.
  The lemmas turn this into what \<open>All\<close>, \<open>Get\<close> and \<open>Exists\<close> return.
\<close>

definition clause_holds :: "model \<Rightarrow> goval list \<Rightarrow> where_clause \<Rightarrow> bool" where
  "clause_holds m row w =
     (let (column, lookup) = parse_lookup (w_key w)
      in case m_by_column m column of
           None \<Rightarrow> False
         | Some i \<Rightarrow>
             (w_negate w \<noteq>
               (if lookup = ''exact'' then row ! i = w_value w
                else (case slice_elems (w_value w) of None \<Rightarrow> False | Some vs \<Rightarrow> row ! i \<in> set vs))))"

definition matching :: "model \<Rightarrow> queryset \<Rightarrow> goval list list \<Rightarrow> goval list list" where
  "matching m q rows = filter (\<lambda>row. list_all (clause_holds m row) (q_wheres q)) rows"

definition limited :: "queryset \<Rightarrow> 'a list \<Rightarrow> 'a list" where
  "limited q rows = (if q_limit q < 0 then rows else take (nat (q_limit q)) rows)"

definition select_answer :: "'s env \<Rightarrow> go_ctx \<Rightarrow> goval list list \<Rightarrow> queryset \<Rightarrow> 's \<Rightarrow> bool" where
  "select_answer en c rows q s \<longleftrightarrow>
     (\<forall>m sql args. q_model q = Some m \<longrightarrow> compile_select (en_db en) q = Inr (sql, args) \<longrightarrow>
        conn_query (en_driver en) c sql args s =
          (Inr \<lparr>qr_rows = limited q (matching m q rows), qr_err = None\<rparr>, s))"

definition exists_answer :: "'s env \<Rightarrow> go_ctx \<Rightarrow> goval list list \<Rightarrow> queryset \<Rightarrow> 's \<Rightarrow> bool" where
  "exists_answer en c rows q s \<longleftrightarrow>
     (\<forall>m sql args. q_model q = Some m \<longrightarrow> compile_exists (en_db en) q = Inr (sql, args) \<longrightarrow>
        conn_query (en_driver en) c sql args s =
          (Inr \<lparr>qr_rows = [[VBool (matching m q rows \<noteq> [])]], qr_err = None\<rparr>, s))"

text \<open>Query sets made of a model and filters.\<close>

definition simple_query :: "model \<Rightarrow> queryset \<Rightarrow> bool" where
  "simple_query m q \<longleftrightarrow>
     q_err q = None \<and> q_model q = Some m \<and> q_select_related q = [] \<and> q_orders q = [] \<and>
     list_all (where_ok m) (q_wheres q)"

lemma simple_new_query:
  "model_of (db_registry db) (Some t) = Some m \<Longrightarrow> simple_query m (new_query db t)"
  by (simp add: simple_query_def new_query_def Let_def)

lemma simple_Filter:
  "simple_query m (Filter [VString k, v] q) \<longleftrightarrow>
     simple_query m q \<and> where_ok m \<lparr>w_key = k, w_value = v, w_negate = False\<rparr>"
  by (auto simp: simple_query_def filter_pair_simps)

lemma Filter_two: "Filter [VString k, v, VString l, w] q = Filter [VString l, w] (Filter [VString k, v] q)"
  by (simp add: Filter_def add_wheres_def)

lemma simple_Limit: "simple_query m (Limit n q) \<longleftrightarrow> simple_query m q"
  by (simp add: simple_query_def) (simp add: Limit_def)

lemma limit_simps [simp]:
  "limited (new_query db t) rows = rows" "limited (Filter [VString k, v] q) rows = limited q rows"
  "limited (Limit n q) rows = (if n < 0 then rows else take (nat n) rows)"
  by (simp_all add: limited_def new_query_def Filter_def add_wheres_def Limit_def Let_def split: option.splits)

lemma matching_simps [simp]:
  "model_of (db_registry db) (Some t) = Some m \<Longrightarrow> matching m (new_query db t) rows = rows"
  "matching m (Limit n q) rows = matching m q rows"
  "matching m (Filter [VString k, v] q) rows =
     filter (\<lambda>row. clause_holds m row \<lparr>w_key = k, w_value = v, w_negate = False\<rparr>) (matching m q rows)"
  by (simp_all add: matching_def new_query_model filter_pair_simps conj_commute)

text \<open>The two lookups.\<close>

lemma clause_exact:
  "LastIndex k ''__'' = None \<Longrightarrow> m_by_column m k = Some i \<Longrightarrow>
     clause_holds m row \<lparr>w_key = k, w_value = v, w_negate = False\<rparr> \<longleftrightarrow> row ! i = v"
  by (simp add: clause_holds_def parse_lookup_plain)

lemma clause_in:
  "m_by_column m k = Some i \<Longrightarrow>
     clause_holds m row \<lparr>w_key = k @ ''__in'', w_value = VSlice vs, w_negate = False\<rparr> \<longleftrightarrow> row ! i \<in> set vs"
  using parse_lookup_suffix [of "''in''" k] by (simp add: clause_holds_def lookups_def slice_elems_def)

lemma where_ok_exact:
  "LastIndex k ''__'' = None \<Longrightarrow> m_by_column m k = Some i \<Longrightarrow>
     where_ok m \<lparr>w_key = k, w_value = v, w_negate = False\<rparr>"
  by (simp add: where_ok_def parse_lookup_plain lookups_def)

lemma where_ok_in:
  "m_by_column m k = Some i \<Longrightarrow> where_ok m \<lparr>w_key = k @ ''__in'', w_value = VSlice vs, w_negate = False\<rparr>"
  using parse_lookup_suffix [of "''in''" k] by (simp add: where_ok_def lookups_def slice_elems_def)

text \<open>The arguments of a plain SELECT are those of its WHERE clause.\<close>

lemma compile_select_args:
  assumes "compile_select db q = Inr (sql, args)" and "q_select_related q = []" and "q_model q = Some m"
  shows "\<exists>wh. compile_where (db_dialect db) m (q_wheres q) [] 0 = Inr (wh, args)"
  using assms(1) unfolding compile_select_def with_model_def Let_def assms(2,3)
  by (elim result_elims) (auto elim!: bind_err_InrE)

lemma q_select_related_Limit [simp]: "q_select_related (Limit n q) = q_select_related q"
  by (simp add: Limit_def)

text \<open>What the terminals return.\<close>

lemma simple_compiles: "simple_query m q \<Longrightarrow> \<exists>sql args. compile_select db q = Inr (sql, args)"
  using compile_select_ok [of q db] by (auto simp: simple_query_def)

lemma simple_exists_compiles: "simple_query m q \<Longrightarrow> \<exists>sql args. compile_exists db q = Inr (sql, args)"
  using compile_where_ok [of "db_dialect db" m "q_wheres q" "[]" 0]
  by (auto simp: simple_query_def compile_exists_def with_model_def Let_def)

lemma all_rows_answer:
  assumes "simple_query m q" and "select_answer en c rows q s"
  shows "all_rows en c q s =
    (map_inl (RowsFailed (m_name m)) (scan_rows (en_layouts en (m_go_type m)) m
       \<lparr>qr_rows = limited q (matching m q rows), qr_err = None\<rparr>), s)"
proof -
  obtain sql args where sql: "compile_select (en_db en) q = Inr (sql, args)"
    using simple_compiles [OF assms(1)] by blast
  with assms show ?thesis
    by (simp add: all_rows_def on_query_def simple_query_def select_answer_def)
qed

lemma exists_row_answer:
  assumes "simple_query m q" and "exists_answer en c rows q s"
  shows "exists_row en c q s = (Inr (VBool (matching m q rows \<noteq> [])), s)"
proof -
  obtain sql args where sql: "compile_exists (en_db en) q = Inr (sql, args)"
    using simple_exists_compiles [OF assms(1)] by blast
  with assms show ?thesis
    by (simp add: exists_row_def on_query_def simple_query_def exists_answer_def query_one_def
        scan_value_def scan_bool_def Let_def)
qed

text \<open>Rows that scan: each to the instance \<open>obj_of\<close> gives it.\<close>

definition rows_scan :: "gotype list \<Rightarrow> model \<Rightarrow> (goval list \<Rightarrow> struct_val) \<Rightarrow> goval list list \<Rightarrow> bool" where
  "rows_scan layout m obj_of rows \<longleftrightarrow> (\<forall>row \<in> set rows. scan_row layout m row = Inr (obj_of row))"

lemma scan_rows_all:
  assumes "rows_scan layout m obj_of rows"
  shows "scan_rows layout m \<lparr>qr_rows = rows, qr_err = None\<rparr> = Inr (map obj_of rows)"
proof -
  have "collect_err (\<lambda>row. map_inl RowError (scan_row layout m row)) rows = Inr (map obj_of rows)"
    using assms by (simp add: collect_err_Inr_iff rows_scan_def)
  then show ?thesis by (simp add: scan_rows_def finish_rows_def)
qed

lemma rows_scan_subset: "rows_scan layout m obj_of rows \<Longrightarrow> set rows' \<subseteq> set rows \<Longrightarrow> rows_scan layout m obj_of rows'"
  by (auto simp: rows_scan_def)

lemma set_limited: "set (limited q rows) \<subseteq> set rows"
  by (auto simp: limited_def dest: in_set_takeD)

lemma set_matching: "set (matching m q rows) \<subseteq> set rows"
  by (auto simp: matching_def)

theorem all_rows_scan:
  assumes "simple_query m q" and "select_answer en c rows q s"
    and "rows_scan (en_layouts en (m_go_type m)) m obj_of rows"
  shows "all_rows en c q s = (Inr (map obj_of (limited q (matching m q rows))), s)"
proof -
  have "rows_scan (en_layouts en (m_go_type m)) m obj_of (limited q (matching m q rows))"
    using assms(3) set_limited set_matching by (rule rows_scan_subset [OF _ subset_trans])
  from scan_rows_all [OF this] all_rows_answer [OF assms(1,2)] show ?thesis by simp
qed

text \<open>Get with one pair, on a table where at most one row matches.\<close>

lemma get_row_unique:
  assumes "simple_query m q" and "where_ok m \<lparr>w_key = k, w_value = v, w_negate = False\<rparr>"
    and "select_answer en c rows (Limit 2 (Filter [VString k, v] q)) s"
    and "rows_scan (en_layouts en (m_go_type m)) m obj_of rows"
    and "matching m (Filter [VString k, v] q) rows = (case found of None \<Rightarrow> [] | Some row \<Rightarrow> [row])"
  shows "get_row en c [VString k, v] q s =
    ((case found of None \<Rightarrow> Inl DoesNotExist | Some row \<Rightarrow> Inr (obj_of row)), s)"
proof -
  have "simple_query m (Limit 2 (Filter [VString k, v] q))"
    using assms(1,2) by (simp add: simple_Limit simple_Filter)
  from all_rows_scan [OF this assms(3,4)]
  have "all_rows en c (Limit 2 (Filter [VString k, v] q)) s =
      (Inr (map obj_of (case found of None \<Rightarrow> [] | Some row \<Rightarrow> [row])), s)"
    by (cases found) (simp_all add: assms(5) del: matching_simps(3))
  with assms(1) show ?thesis
    by (cases found) (simp_all add: get_row_def simple_query_def)
qed

end
