(* ===== verification/Go_Base64.thy ===== *)
theory Go_Base64
  imports Go_Strings
begin

text \<open>
  The encodings of \<open>encoding/base64\<close> that the source uses: \<open>RawURLEncoding\<close> (no padding) for keys, tokens
  and signed cookies, \<open>StdEncoding\<close> (padded) for password hashes. As in Go, decoding skips line breaks
  and does not look at the unused bits of the last character.
\<close>

definition std_alphabet :: string where
  "std_alphabet = ''ABCDEFGHIJKLMNOPQRSTUVWXYZabcdefghijklmnopqrstuvwxyz0123456789+/''"

definition url_alphabet :: string where
  "url_alphabet = ''ABCDEFGHIJKLMNOPQRSTUVWXYZabcdefghijklmnopqrstuvwxyz0123456789-_''"

text \<open>Six bits, and back.\<close>

definition sextet :: "string \<Rightarrow> nat \<Rightarrow> char" where
  "sextet al n = al ! (n mod 64)"

definition sextet_val :: "string \<Rightarrow> char \<Rightarrow> nat option" where
  "sextet_val al c = find_index (\<lambda>d. d = c) al"

definition byte :: "nat \<Rightarrow> char" where
  "byte n = char_of (n mod 256)"

text \<open>The last group, of one or two bytes, is padded when there is a padding character.\<close>

fun encode64 :: "string \<Rightarrow> string \<Rightarrow> string \<Rightarrow> string" where
  "encode64 al p [] = []"
| "encode64 al p [a] = [sextet al (code a div 4), sextet al (code a mod 4 * 16)] @ p @ p"
| "encode64 al p [a, b] =
     [sextet al (code a div 4), sextet al (code a mod 4 * 16 + code b div 16),
      sextet al (code b mod 16 * 4)] @ p"
| "encode64 al p (a # b # c # s) =
     sextet al (code a div 4) # sextet al (code a mod 4 * 16 + code b div 16) #
     sextet al (code b mod 16 * 4 + code c div 64) # sextet al (code c mod 64) # encode64 al p s"

definition decode_pair :: "string \<Rightarrow> char \<Rightarrow> char \<Rightarrow> string option" where
  "decode_pair al w x =
     (case (sextet_val al w, sextet_val al x) of
        (Some m, Some n) \<Rightarrow> Some [byte (m * 4 + n div 16)]
      | _ \<Rightarrow> None)"

definition decode_triple :: "string \<Rightarrow> char \<Rightarrow> char \<Rightarrow> char \<Rightarrow> string option" where
  "decode_triple al w x y =
     (case (decode_pair al w x, sextet_val al x, sextet_val al y) of
        (Some s, Some n, Some k) \<Rightarrow> Some (s @ [byte (n mod 16 * 16 + k div 4)])
      | _ \<Rightarrow> None)"

definition decode_quad :: "string \<Rightarrow> char \<Rightarrow> char \<Rightarrow> char \<Rightarrow> char \<Rightarrow> string option" where
  "decode_quad al w x y z =
     (case (decode_triple al w x y, sextet_val al y, sextet_val al z) of
        (Some s, Some n, Some k) \<Rightarrow> Some (s @ [byte (n mod 4 * 64 + k)])
      | _ \<Rightarrow> None)"

definition append_decoded :: "string option \<Rightarrow> string option \<Rightarrow> string option" where
  "append_decoded s t = (case (s, t) of (Some u, Some v) \<Rightarrow> Some (u @ v) | _ \<Rightarrow> None)"

fun decode_raw :: "string \<Rightarrow> string \<Rightarrow> string option" where
  "decode_raw al [] = Some []"
| "decode_raw al [w] = None"
| "decode_raw al [w, x] = decode_pair al w x"
| "decode_raw al [w, x, y] = decode_triple al w x y"
| "decode_raw al (w # x # y # z # s) = append_decoded (decode_quad al w x y z) (decode_raw al s)"

fun decode_padded :: "string \<Rightarrow> string \<Rightarrow> string option" where
  "decode_padded al (w # x # y # z # s) =
     (if s = [] \<and> z = CHR ''='' then
        (if y = CHR ''='' then decode_pair al w x else decode_triple al w x y)
      else append_decoded (decode_quad al w x y z) (decode_padded al s))"
| "decode_padded al s = (if s = [] then Some [] else None)"

definition no_breaks :: "string \<Rightarrow> string" where
  "no_breaks s = filter (\<lambda>c. code c \<noteq> 10 \<and> code c \<noteq> 13) s"

definition url_encode64 :: "string \<Rightarrow> string" where
  "url_encode64 s = encode64 url_alphabet [] s"

definition url_decode64 :: "string \<Rightarrow> string option" where
  "url_decode64 s = decode_raw url_alphabet (no_breaks s)"

definition std_encode64 :: "string \<Rightarrow> string" where
  "std_encode64 s = encode64 std_alphabet ''='' s"

definition std_decode64 :: "string \<Rightarrow> string option" where
  "std_decode64 s = decode_padded std_alphabet (no_breaks s)"

subsection \<open>Decoding an encoding\<close>

definition alphabet :: "string \<Rightarrow> bool" where
  "alphabet al \<longleftrightarrow> length al = 64 \<and> distinct al \<and>
     list_all (\<lambda>c. code c \<noteq> 10 \<and> code c \<noteq> 13 \<and> c \<noteq> CHR ''='' \<and> c \<noteq> CHR ''.'' \<and> c \<noteq> CHR ''$'') al"

lemma alphabets: "alphabet std_alphabet" "alphabet url_alphabet"
  by (code_simp, code_simp)

lemma sextet_val_sextet: "alphabet al \<Longrightarrow> n < 64 \<Longrightarrow> sextet_val al (sextet al n) = Some n"
  by (auto simp: alphabet_def sextet_val_def sextet_def find_index_Some nth_eq_iff_index_eq)

lemma sextet_in: "alphabet al \<Longrightarrow> sextet al n \<in> set al"
  by (simp add: alphabet_def sextet_def)

lemma byte_code: "n = code a \<Longrightarrow> byte n = a"
  by (simp add: byte_def code_def)

lemma two_digits:
  "y < n \<Longrightarrow> (x * n + y) div n = x" "y < n \<Longrightarrow> (x * n + y) mod n = y" for n x y :: nat
  by simp_all

lemma high_bits: "code a div 4 < 64" "code a div 16 < 16" "code a div 64 < 4"
  using code_less [of a] by (simp_all add: less_mult_imp_div_less)

lemma two_digits_less: "x < m \<Longrightarrow> y < n \<Longrightarrow> x * n + y < m * n" for x y m n :: nat
proof -
  assume "x < m" and "y < n"
  then have "x * n + y < (x + 1) * n" and "(x + 1) * n \<le> m * n" by (simp, intro mult_le_mono1, simp)
  then show ?thesis by linarith
qed

lemma parts:
  "code a mod 4 * 16 < 64" "code b mod 16 * 4 < 64" "code c mod 64 < 64"
  "code a mod 4 * 16 + code b div 16 < 64" "code b mod 16 * 4 + code c div 64 < 64"
  using two_digits_less [of "code a mod 4" 4 "code b div 16" 16] two_digits_less [of "code a mod 4" 4 0 16]
    two_digits_less [of "code b mod 16" 16 "code c div 64" 4] two_digits_less [of "code b mod 16" 16 0 4]
    high_bits by simp_all

lemma joins:
  "code a div 4 * 4 + code a mod 4 * 16 div 16 = code a"
  "code a div 4 * 4 + (code a mod 4 * 16 + code b div 16) div 16 = code a"
  "(code a mod 4 * 16 + code b div 16) mod 16 * 16 + code b mod 16 * 4 div 4 = code b"
  "(code a mod 4 * 16 + code b div 16) mod 16 * 16 + (code b mod 16 * 4 + code c div 64) div 4 = code b"
  "(code b mod 16 * 4 + code c div 64) mod 4 * 64 + code c mod 64 = code c"
  by (simp_all only: two_digits high_bits nonzero_mult_div_cancel_right div_mult_mod_eq zero_neq_numeral
      not_False_eq_True)

lemma decode_pair_sextet:
  "alphabet al \<Longrightarrow> m < 64 \<Longrightarrow> n < 64 \<Longrightarrow>
    decode_pair al (sextet al m) (sextet al n) = Some [byte (m * 4 + n div 16)]"
  by (simp add: decode_pair_def sextet_val_sextet)

lemma decode_triple_sextet:
  "alphabet al \<Longrightarrow> m < 64 \<Longrightarrow> n < 64 \<Longrightarrow> k < 64 \<Longrightarrow>
    decode_triple al (sextet al m) (sextet al n) (sextet al k) =
      Some [byte (m * 4 + n div 16), byte (n mod 16 * 16 + k div 4)]"
  by (simp add: decode_triple_def decode_pair_sextet sextet_val_sextet)

lemma decode_quad_sextet:
  "alphabet al \<Longrightarrow> m < 64 \<Longrightarrow> n < 64 \<Longrightarrow> k < 64 \<Longrightarrow> l < 64 \<Longrightarrow>
    decode_quad al (sextet al m) (sextet al n) (sextet al k) (sextet al l) =
      Some [byte (m * 4 + n div 16), byte (n mod 16 * 16 + k div 4), byte (k mod 4 * 64 + l)]"
  by (simp add: decode_quad_def decode_triple_sextet sextet_val_sextet)

lemma decode_encode_group:
  assumes "alphabet al"
  shows "decode_pair al (sextet al (code a div 4)) (sextet al (code a mod 4 * 16)) = Some [a]"
    "decode_triple al (sextet al (code a div 4)) (sextet al (code a mod 4 * 16 + code b div 16))
       (sextet al (code b mod 16 * 4)) = Some [a, b]"
    "decode_quad al (sextet al (code a div 4)) (sextet al (code a mod 4 * 16 + code b div 16))
       (sextet al (code b mod 16 * 4 + code c div 64)) (sextet al (code c mod 64)) = Some [a, b, c]"
  by (simp_all only: decode_pair_sextet decode_triple_sextet decode_quad_sextet assms parts high_bits joins
      byte_code)

lemma decode_raw_encode: "alphabet al \<Longrightarrow> decode_raw al (encode64 al [] s) = Some s"
  by (induction al "[] :: string" s rule: encode64.induct)
    (simp_all add: decode_encode_group append_decoded_def)

lemma sextet_not_pad: "alphabet al \<Longrightarrow> sextet al n \<noteq> CHR ''=''"
  using sextet_in [of al n] by (auto simp: alphabet_def list_all_iff)

lemma decode_padded_encode: "alphabet al \<Longrightarrow> decode_padded al (encode64 al ''='' s) = Some s"
  by (induction al "''=''" s rule: encode64.induct)
    (simp_all add: decode_encode_group append_decoded_def sextet_not_pad)

lemma encode64_chars: "alphabet al \<Longrightarrow> set (encode64 al p s) \<subseteq> set al \<union> set p"
  by (induction al p s rule: encode64.induct) (auto simp: sextet_in)

lemma encode64_no_breaks:
  assumes "alphabet al" and "no_breaks p = p"
  shows "no_breaks (encode64 al p s) = encode64 al p s"
proof -
  have "code c \<noteq> 10 \<and> code c \<noteq> 13" if "c \<in> set (encode64 al p s)" for c
    using encode64_chars [OF assms(1), of p s] that assms
    by (auto simp: alphabet_def list_all_iff no_breaks_def filter_id_conv)
  then show ?thesis by (simp add: no_breaks_def filter_id_conv)
qed

lemma url_decode_encode [simp]: "url_decode64 (url_encode64 s) = Some s"
  using alphabets(2) by (simp add: url_decode64_def url_encode64_def encode64_no_breaks no_breaks_def [of "[]"]
      decode_raw_encode)

lemma std_decode_encode [simp]: "std_decode64 (std_encode64 s) = Some s"
proof -
  have "no_breaks ''='' = ''=''" by code_simp
  with alphabets(1) show ?thesis
    by (simp add: std_decode64_def std_encode64_def encode64_no_breaks decode_padded_encode)
qed

lemma url_encode64_no_dot: "CHR ''.'' \<notin> set (url_encode64 s)"
  using encode64_chars [OF alphabets(2), of "[]" s] alphabets(2)
  by (auto simp: url_encode64_def alphabet_def list_all_iff)

lemma std_encode64_no_dollar: "CHR ''$'' \<notin> set (std_encode64 s)"
  using encode64_chars [OF alphabets(1), of "''=''" s] alphabets(1)
  by (auto simp: std_encode64_def alphabet_def list_all_iff)

lemma url_encode64_inject [simp]: "url_encode64 s = url_encode64 t \<longleftrightarrow> s = t"
  by (metis url_decode_encode option.inject)

lemma url_encode64_nonempty: "s \<noteq> [] \<Longrightarrow> url_encode64 s \<noteq> []"
  by (metis url_encode64_inject url_encode64_def encode64.simps(1))

end
