(* ===== verification/Web_Http.thy ===== *)
theory Web_Http
  imports Go_Values
begin

text \<open>
  The part of \<open>net/http\<close> the source uses: a request with the fields handlers read, and a response with
  the rule that the header map is sent with the first \<open>WriteHeader\<close> or \<open>Write\<close>, after which changes to it
  have no effect and further status codes are ignored.
\<close>

record request =
  rq_method :: string
  rq_path :: string
  rq_host :: string
  rq_tls :: bool
  rq_header :: "string \<Rightarrow> string"
  rq_cookies :: "(string \<times> string) list"
  rq_form :: "(string \<times> string) list"

text \<open>\<open>Request.Cookie\<close> and \<open>PostFormValue\<close>: the first of the name; a missing value is empty.\<close>

definition request_cookie :: "request \<Rightarrow> string \<Rightarrow> string option" where
  "request_cookie r name = map_of (rq_cookies r) name"

definition post_form_value :: "request \<Rightarrow> string \<Rightarrow> string" where
  "post_form_value r name = (case map_of (rq_form r) name of None \<Rightarrow> [] | Some v \<Rightarrow> v)"

datatype same_site = SameSiteLax | SameSiteStrict

record cookie =
  ck_name :: string
  ck_value :: string
  ck_path :: string
  ck_http_only :: bool
  ck_same_site :: same_site

text \<open>A response: status and headers once sent, the header map, and the body.\<close>

record response =
  rs_status :: "nat option"
  rs_cookies :: "cookie list"
  rs_location :: "string option"
  rs_sent :: "cookie list"
  rs_body :: string

definition new_response :: response where
  "new_response = \<lparr>rs_status = None, rs_cookies = [], rs_location = None, rs_sent = [], rs_body = []\<rparr>"

definition set_cookie :: "cookie \<Rightarrow> response \<Rightarrow> response" where
  "set_cookie c rs = rs\<lparr>rs_cookies := rs_cookies rs @ [c]\<rparr>"

definition write_header :: "nat \<Rightarrow> response \<Rightarrow> response" where
  "write_header status rs =
     (if rs_status rs = None then rs\<lparr>rs_status := Some status, rs_sent := rs_cookies rs\<rparr> else rs)"

definition write_body :: "string \<Rightarrow> response \<Rightarrow> response" where
  "write_body b rs = (let rs1 = write_header 200 rs in rs1\<lparr>rs_body := rs_body rs1 @ b\<rparr>)"

text \<open>When the handler has returned, the server sends what was not sent.\<close>

definition finish_response :: "response \<Rightarrow> response" where
  "finish_response rs = write_header 200 rs"

definition http_error :: "string \<Rightarrow> nat \<Rightarrow> response \<Rightarrow> response" where
  "http_error msg status rs = write_body (msg @ [CHR 0x0A]) (write_header status rs)"

definition http_redirect :: "string \<Rightarrow> nat \<Rightarrow> response \<Rightarrow> response" where
  "http_redirect url status rs =
     (if rs_status rs = None then write_header status (rs\<lparr>rs_location := Some url\<rparr>) else rs)"

lemma write_header_twice [simp]: "write_header b (write_header a rs) = write_header a rs"
  by (simp add: write_header_def)

lemma write_header_set:
  "rs_status rs = None \<Longrightarrow> rs_status (write_header a rs) = Some a \<and> rs_sent (write_header a rs) = rs_cookies rs"
  by (simp add: write_header_def)

lemma committed_write [simp]:
  "rs_status rs \<noteq> None \<Longrightarrow> write_header a rs = rs"
  "rs_status rs \<noteq> None \<Longrightarrow> rs_status (write_body b rs) = rs_status rs"
  "rs_status rs \<noteq> None \<Longrightarrow> rs_sent (write_body b rs) = rs_sent rs"
  by (auto simp: write_header_def write_body_def)

end
