(* ===== verification/Web_Sessions.thy ===== *)
theory Web_Sessions
  imports Go_Base64 Web_Http
begin

text \<open>
  The package \<open>sessions\<close>: sessions, the contract of a store as the locale \<open>session_store\<close>, the signed
  cookie store, and the middleware. \<open>encoding/json\<close> is the codec \<open>json\<close>, HMAC-SHA256 a function of the
  secret and the message, and the random bytes of \<open>crypto/rand\<close> an argument of the operations that draw
  them. A Go pointer to a session that is shared is a session passed on and returned.
\<close>

subsection \<open>Sessions\<close>

type_synonym session_data = "string \<rightharpoonup> goval"

record session =
  ss_key :: string
  ss_data :: session_data
  ss_modified :: bool

definition session_get :: "session \<Rightarrow> string \<Rightarrow> goval option" where
  "session_get s k = ss_data s k"

definition session_set :: "string \<Rightarrow> goval \<Rightarrow> session \<Rightarrow> session" where
  "session_set k v s = s\<lparr>ss_data := (ss_data s)(k \<mapsto> v), ss_modified := True\<rparr>"

definition session_delete :: "string \<Rightarrow> session \<Rightarrow> session" where
  "session_delete k s =
     (if ss_data s k = None then s
      else s\<lparr>ss_data := (ss_data s)(k := None), ss_modified := True\<rparr>)"

definition session_pop :: "string \<Rightarrow> session \<Rightarrow> goval option \<times> session" where
  "session_pop k s =
     (case ss_data s k of
        None \<Rightarrow> (None, s)
      | Some v \<Rightarrow> (Some v, s\<lparr>ss_data := (ss_data s)(k := None), ss_modified := True\<rparr>))"

definition session_clear :: "session \<Rightarrow> session" where
  "session_clear s = s\<lparr>ss_data := Map.empty, ss_modified := True\<rparr>"

definition new_key :: "string \<Rightarrow> string" where
  "new_key rnd = url_encode64 rnd"

definition rotate :: "string \<Rightarrow> session \<Rightarrow> session" where
  "rotate rnd s = s\<lparr>ss_key := new_key rnd, ss_modified := True\<rparr>"

definition new_session :: session where
  "new_session = \<lparr>ss_key = [], ss_data = Map.empty, ss_modified = False\<rparr>"

subsection \<open>Stores\<close>

text \<open>The interface \<open>Store\<close> over a state \<open>'s\<close>; errors are those of JSON and of the ORM, as values \<open>'e\<close>.\<close>

record ('s, 'e) store =
  st_decode :: "string \<Rightarrow> 's \<Rightarrow> ('e + session) \<times> 's"
  st_encode :: "string \<Rightarrow> session \<Rightarrow> 's \<Rightarrow> (('e + string) \<times> session) \<times> 's"
  st_delete :: "session \<Rightarrow> 's \<Rightarrow> 'e option \<times> 's"

record json =
  js_marshal :: "session_data \<Rightarrow> string + string"
  js_unmarshal :: "string \<Rightarrow> string + session_data"

text \<open>
  What \<open>encoding/json\<close> documents: what it writes is not empty and reads back as the same keys with the
  values of \<open>view\<close>, in which an integer has become the \<open>float64\<close> nearest to it and strings are unchanged.
\<close>

definition json_law :: "json \<Rightarrow> (goval \<Rightarrow> goval) \<Rightarrow> bool" where
  "json_law js view \<longleftrightarrow>
     (\<forall>d raw. js_marshal js d = Inr raw \<longrightarrow> raw \<noteq> [] \<and> js_unmarshal js raw = Inr (map_option view \<circ> d)) \<and>
     (\<forall>s. view (VString s) = VString s) \<and>
     (\<forall>n. \<bar>n\<bar> \<le> 2 ^ 53 \<longrightarrow> (\<exists>txt. view (VInt I64 n) = VFloat n txt))"

text \<open>
  The contract. \<open>live s v\<close> is the data that the cookie value \<open>v\<close> stands for in state \<open>s\<close>, if any: decoding a
  value that stands for nothing gives a fresh session; encoding makes its value stand for the data of the
  session, and no other value stand for something else; deleting makes a value stand for nothing, or
  changes nothing.
\<close>

locale session_store =
  fixes st :: "('s, 'e) store"
    and live :: "'s \<Rightarrow> string \<Rightarrow> session_data option"
    and inv :: "'s \<Rightarrow> bool"
    and view :: "goval \<Rightarrow> goval"
  assumes decode: "inv s \<Longrightarrow> st_decode st v s = (Inr sess, s') \<Longrightarrow>
      inv s' \<and> live s' = live s \<and> \<not> ss_modified sess \<and>
      ss_data sess = (case live s v of None \<Rightarrow> Map.empty | Some d \<Rightarrow> d)"
    and decode_unmodified: "inv s \<Longrightarrow> st_decode st v s = (Inl e, s') \<Longrightarrow> inv s' \<and> live s' = live s"
    and encode: "inv s \<Longrightarrow> st_encode st rnd sess s = ((Inr v, sess'), s') \<Longrightarrow>
      inv s' \<and> live s' v = Some (map_option view \<circ> ss_data sess) \<and> ss_data sess' = ss_data sess \<and>
      (\<forall>w. w \<noteq> v \<longrightarrow> live s' w = live s w)"
    and encode_error: "inv s \<Longrightarrow> st_encode st rnd sess s = ((Inl e, sess'), s') \<Longrightarrow>
      inv s' \<and> ss_data sess' = ss_data sess \<and> live s' = live s"
begin

text \<open>What is encoded is decoded, whatever was encoded after it under other values.\<close>

lemma decode_encode:
  assumes "inv s" and "st_encode st rnd sess s = ((Inr v, sess'), s1)"
    and "st_decode st v s1 = (Inr sess2, s2)"
  shows "ss_data sess2 = map_option view \<circ> ss_data sess"
  using encode [OF assms(1,2)] decode [of s1 v sess2 s2] assms(3) by simp

lemma encode_other:
  assumes "inv s" and "st_encode st rnd sess s = ((Inr v, sess'), s1)" and "w \<noteq> v"
    and "st_decode st w s1 = (Inr sess2, s2)"
  shows "ss_data sess2 = (case live s w of None \<Rightarrow> Map.empty | Some d \<Rightarrow> d)"
  using encode [OF assms(1,2)] decode [of s1 w sess2 s2] assms(3,4) by simp

end

definition load_session ::
  "('s, 'e) store \<Rightarrow> string \<Rightarrow> request \<Rightarrow> 's \<Rightarrow> ('e + session) \<times> 's" where
  "load_session st cookieName r s =
     (case request_cookie r cookieName of
        Some v \<Rightarrow> st_decode st v s
      | None \<Rightarrow> (Inr new_session, s))"

text \<open>The request that brings the cookie of a session back loads its data.\<close>

context session_store
begin

lemma next_request:
  assumes "inv s" and "st_encode st rnd sess s = ((Inr v, sess'), s1)"
    and "request_cookie r name = Some v" and "load_session st name r s1 = (Inr sess2, s2)"
  shows "ss_data sess2 = map_option view \<circ> ss_data sess \<and> \<not> ss_modified sess2 \<and> live s2 = live s1"
  using decode_encode [OF assms(1,2)] decode [of s1 v sess2 s2] encode [OF assms(1,2)] assms(3,4)
  by (simp add: load_session_def)

end

subsection \<open>The signed cookie store\<close>

type_synonym hmac = "string \<Rightarrow> string \<Rightarrow> string"

definition cookie_sign :: "hmac \<Rightarrow> string \<Rightarrow> string \<Rightarrow> string" where
  "cookie_sign mac secret payload = mac secret payload"

definition cookie_encode ::
  "json \<Rightarrow> hmac \<Rightarrow> string \<Rightarrow> session \<Rightarrow> string + string" where
  "cookie_encode js mac secret sess =
     (case js_marshal js (ss_data sess) of
        Inl e \<Rightarrow> Inl e
      | Inr raw \<Rightarrow>
          (let payload = url_encode64 raw
           in Inr (payload @ ''.'' @ url_encode64 (cookie_sign mac secret payload))))"

definition cookie_verify :: "json \<Rightarrow> hmac \<Rightarrow> string \<Rightarrow> string \<Rightarrow> session_data option" where
  "cookie_verify js mac secret cookieValue =
     (case LastIndex cookieValue ''.'' of
        None \<Rightarrow> None
      | Some idx \<Rightarrow>
          (let payload = take idx cookieValue
           in case url_decode64 (drop (idx + 1) cookieValue) of
                None \<Rightarrow> None
              | Some gotMAC \<Rightarrow>
                  if gotMAC \<noteq> cookie_sign mac secret payload then None
                  else (case url_decode64 payload of
                          None \<Rightarrow> None
                        | Some raw \<Rightarrow>
                            (case js_unmarshal js raw of Inl e \<Rightarrow> None | Inr data \<Rightarrow> Some data))))"

definition cookie_decode :: "json \<Rightarrow> hmac \<Rightarrow> string \<Rightarrow> string \<Rightarrow> session" where
  "cookie_decode js mac secret cookieValue =
     (case cookie_verify js mac secret cookieValue of
        None \<Rightarrow> new_session
      | Some data \<Rightarrow> new_session\<lparr>ss_data := data\<rparr>)"

definition cookie_store :: "json \<Rightarrow> hmac \<Rightarrow> string \<Rightarrow> ('s, string) store" where
  "cookie_store js mac secret =
     \<lparr>st_decode = (\<lambda>v s. (Inr (cookie_decode js mac secret v), s)),
      st_encode = (\<lambda>rnd sess s. ((cookie_encode js mac secret sess, sess), s)),
      st_delete = (\<lambda>sess s. (None, s))\<rparr>"

text \<open>The value a cookie is split into: the encoded bytes have no dot.\<close>

lemma LastIndex_dot: "CHR ''.'' \<notin> set v \<Longrightarrow> LastIndex (u @ ''.'' @ v) ''.'' = Some (length u)"
proof -
  assume v: "CHR ''.'' \<notin> set v"
  then have "LastIndex (tl (''.'' @ v)) ''.'' = None" by (auto simp: LastIndex_None)
  from LastIndex_append [OF _ this, of u] show ?thesis by simp
qed

lemma cookie_verify_encode:
  assumes "json_law js view" and "cookie_encode js mac secret sess = Inr v"
  shows "cookie_verify js mac secret v = Some (map_option view \<circ> ss_data sess)"
proof -
  from assms(2) obtain raw where raw: "js_marshal js (ss_data sess) = Inr raw"
    and v: "v = url_encode64 raw @ ''.'' @ url_encode64 (cookie_sign mac secret (url_encode64 raw))"
    by (auto simp: cookie_encode_def Let_def split: sum.splits)
  have "LastIndex v ''.'' = Some (length (url_encode64 raw))"
    unfolding v by (rule LastIndex_dot) (rule url_encode64_no_dot)
  moreover have "js_unmarshal js raw = Inr (map_option view \<circ> ss_data sess)"
    using assms(1) raw unfolding json_law_def by blast
  ultimately show ?thesis by (simp add: cookie_verify_def Let_def v)
qed

interpretation signed: session_store "cookie_store js mac secret" "\<lambda>s. cookie_verify js mac secret"
  "\<lambda>s. json_law js view" view for js mac secret view
  by unfold_locales
    (auto simp: cookie_store_def cookie_decode_def new_session_def cookie_verify_encode split: option.splits)

subsection \<open>The middleware\<close>

text \<open>
  What the wrapped handler does, seen from the response writer: it changes the session, changes the state
  of the store (through the ORM), or writes: a status, a redirect, a part of the body.
\<close>

datatype 's event =
    Change "session \<Rightarrow> session"
  | Effect "'s \<Rightarrow> 's"
  | Header nat
  | Moved string nat
  | Body string

record 's writer =
  sw_response :: response
  sw_session :: session
  sw_wrote_header :: bool
  sw_state :: 's

definition session_cookie :: "string \<Rightarrow> string \<Rightarrow> cookie" where
  "session_cookie name value =
     \<lparr>ck_name = name, ck_value = value, ck_path = ''/'', ck_http_only = True, ck_same_site = SameSiteLax\<rparr>"

definition save_session :: "('s, 'e) store \<Rightarrow> string \<Rightarrow> string \<Rightarrow> 's writer \<Rightarrow> 's writer" where
  "save_session st cookieName rnd w =
     (if sw_wrote_header w then w
      else
        (let w1 = w\<lparr>sw_wrote_header := True\<rparr>
         in if \<not> ss_modified (sw_session w) then w1
            else (case st_encode st rnd (sw_session w) (sw_state w) of
                    ((Inl e, sess), s) \<Rightarrow> w1\<lparr>sw_session := sess, sw_state := s\<rparr>
                  | ((Inr value, sess), s) \<Rightarrow>
                      w1\<lparr>sw_session := sess, sw_state := s,
                         sw_response := set_cookie (session_cookie cookieName value) (sw_response w)\<rparr>)))"

fun session_event :: "('s, 'e) store \<Rightarrow> string \<Rightarrow> string \<Rightarrow> 's event \<Rightarrow> 's writer \<Rightarrow> 's writer" where
  "session_event st cookieName rnd (Change f) w = w\<lparr>sw_session := f (sw_session w)\<rparr>"
| "session_event st cookieName rnd (Effect f) w = w\<lparr>sw_state := f (sw_state w)\<rparr>"
| "session_event st cookieName rnd (Header status) w =
     (let w1 = save_session st cookieName rnd w in w1\<lparr>sw_response := write_header status (sw_response w1)\<rparr>)"
| "session_event st cookieName rnd (Moved url status) w =
     (let w1 = save_session st cookieName rnd w in w1\<lparr>sw_response := http_redirect url status (sw_response w1)\<rparr>)"
| "session_event st cookieName rnd (Body b) w =
     (let w1 = save_session st cookieName rnd w in w1\<lparr>sw_response := write_body b (sw_response w1)\<rparr>)"

definition session_middleware ::
  "('s, 'e) store \<Rightarrow> string \<Rightarrow> string \<Rightarrow> (session \<Rightarrow> 's event list) \<Rightarrow> request \<Rightarrow> 's \<Rightarrow> response \<times> 's"
where
  "session_middleware st cookieName rnd handler r s =
     (case load_session st cookieName r s of
        (Inl e, s1) \<Rightarrow> (http_error ''session error'' 500 new_response, s1)
      | (Inr sess, s1) \<Rightarrow>
          (let w = \<lparr>sw_response = new_response, sw_session = sess, sw_wrote_header = False, sw_state = s1\<rparr>;
               w1 = save_session st cookieName rnd (fold (session_event st cookieName rnd) (handler sess) w)
           in (finish_response (sw_response w1), sw_state w1)))"

subsubsection \<open>Before and after the first write\<close>

fun is_write :: "'s event \<Rightarrow> bool" where
  "is_write (Change f) \<longleftrightarrow> False"
| "is_write (Effect f) \<longleftrightarrow> False"
| "is_write (Header status) \<longleftrightarrow> True"
| "is_write (Moved url status) \<longleftrightarrow> True"
| "is_write (Body b) \<longleftrightarrow> True"

fun changed :: "'s event \<Rightarrow> session \<Rightarrow> session" where
  "changed (Change f) sess = f sess"
| "changed _ sess = sess"

fun affected :: "'s event \<Rightarrow> 's \<Rightarrow> 's" where
  "affected (Effect f) s = f s"
| "affected _ s = s"

lemma fold_before_write:
  "(\<forall>e \<in> set es. \<not> is_write e) \<Longrightarrow>
     fold (session_event st name rnd) es w =
       w\<lparr>sw_session := fold changed es (sw_session w), sw_state := fold affected es (sw_state w)\<rparr>"
proof (induction es arbitrary: w)
  case (Cons e es)
  then show ?case by (cases e) simp_all
qed simp

text \<open>Once the session is saved, the cookies of the response are settled.\<close>

definition committed :: "cookie list \<Rightarrow> 's writer \<Rightarrow> bool" where
  "committed cs w \<longleftrightarrow>
     sw_wrote_header w \<and> rs_cookies (sw_response w) = cs \<and>
     (rs_status (sw_response w) \<noteq> None \<longrightarrow> rs_sent (sw_response w) = cs)"

lemma save_session_again: "sw_wrote_header w \<Longrightarrow> save_session st name rnd w = w"
  by (simp add: save_session_def)

lemma write_header_cookies [simp]:
  "rs_cookies (write_header a rs) = rs_cookies rs" "rs_cookies (write_body b rs) = rs_cookies rs"
  by (simp_all add: write_header_def write_body_def Let_def)

lemma write_sent:
  "rs_sent (write_header a rs) = (if rs_status rs = None then rs_cookies rs else rs_sent rs)"
  "rs_sent (write_body b rs) = (if rs_status rs = None then rs_cookies rs else rs_sent rs)"
  "rs_status (write_header a rs) \<noteq> None" "rs_status (write_body b rs) \<noteq> None"
  by (simp_all add: write_header_def write_body_def Let_def)

lemma http_redirect_cookies [simp]:
  "rs_cookies (http_redirect url a rs) = rs_cookies rs"
  "rs_sent (http_redirect url a rs) = (if rs_status rs = None then rs_cookies rs else rs_sent rs)"
  "rs_status (http_redirect url a rs) \<noteq> None"
  by (simp_all add: http_redirect_def write_header_def)

lemma committed_event: "committed cs w \<Longrightarrow> committed cs (session_event st name rnd e w)"
  by (cases e) (auto simp: committed_def save_session_again write_sent)

lemma committed_fold: "committed cs w \<Longrightarrow> committed cs (fold (session_event st name rnd) es w)"
  by (induction es arbitrary: w) (simp_all add: committed_event)

lemma committed_finish:
  "committed cs w \<Longrightarrow> rs_sent (finish_response (sw_response (save_session st name rnd w))) = cs"
  by (auto simp: committed_def save_session_again finish_response_def write_sent)

text \<open>The cookies that saving a session sends.\<close>

definition cookies_for ::
  "('s, 'e) store \<Rightarrow> string \<Rightarrow> string \<Rightarrow> session \<Rightarrow> 's \<Rightarrow> cookie list" where
  "cookies_for st name rnd sess s =
     (if \<not> ss_modified sess then []
      else (case st_encode st rnd sess s of
              ((Inl e, sess1), s1) \<Rightarrow> []
            | ((Inr v, sess1), s1) \<Rightarrow> [session_cookie name v]))"

lemma save_session_cookies:
  assumes "\<not> sw_wrote_header w" and "sw_response w = new_response"
  shows "committed (cookies_for st name rnd (sw_session w) (sw_state w)) (save_session st name rnd w)"
  using assms
  by (auto simp: committed_def save_session_def cookies_for_def Let_def set_cookie_def new_response_def
      split: prod.splits sum.splits)

lemma first_write_cookies:
  assumes "\<not> sw_wrote_header w" and "sw_response w = new_response" and "is_write e"
  shows "committed (cookies_for st name rnd (sw_session w) (sw_state w)) (session_event st name rnd e w)"
proof -
  have "session_event st name rnd e w = session_event st name rnd e (save_session st name rnd w)"
    using assms(3) by (cases e) (simp_all add: save_session_def Let_def split: prod.splits sum.splits)
  with committed_event [OF save_session_cookies [OF assms(1,2)]] show ?thesis by simp
qed

subsection \<open>Properties\<close>

text \<open>C24: The middleware sends the session cookie exactly when the session is modified at the handler's
  first write, or at its end when it writes nothing, and with the encoding of the session at that moment:
  what the handler changes afterwards is not in the cookie.\<close>

theorem session_saved_at_first_write:
  assumes "load_session st name r s = (Inr sess, s1)" and "handler sess = before @ rest"
    and "\<forall>e \<in> set before. \<not> is_write e" and "rest = [] \<or> is_write (hd rest)"
  shows "rs_sent (fst (session_middleware st name rnd handler r s)) =
    cookies_for st name rnd (fold changed before sess) (fold affected before s1)"
proof -
  let ?w = "\<lparr>sw_response = new_response, sw_session = sess, sw_wrote_header = False, sw_state = s1\<rparr>"
  define w1 where "w1 = fold (session_event st name rnd) before ?w"
  have w1: "sw_session w1 = fold changed before sess" "sw_state w1 = fold affected before s1"
    "\<not> sw_wrote_header w1" "sw_response w1 = new_response"
    by (simp_all add: w1_def fold_before_write [OF assms(3)])
  let ?cs = "cookies_for st name rnd (fold changed before sess) (fold affected before s1)"
  have run: "fst (session_middleware st name rnd handler r s) =
      finish_response (sw_response (save_session st name rnd (fold (session_event st name rnd) rest w1)))"
    by (simp add: session_middleware_def assms(1,2) Let_def w1_def)
  show ?thesis
  proof (cases rest)
    case Nil
    from save_session_cookies [OF w1(3,4), of st name rnd] have "committed ?cs (save_session st name rnd w1)"
      by (simp add: w1)
    with committed_finish [of ?cs "save_session st name rnd w1" st name rnd] show ?thesis
      by (simp add: run Nil committed_def save_session_again)
  next
    case (Cons e es)
    with assms(4) have "is_write e" by simp
    from first_write_cookies [OF w1(3,4) this, of st name rnd] have "committed ?cs (session_event st name rnd e w1)"
      by (simp add: w1)
    from committed_finish [OF committed_fold [OF this]] show ?thesis by (simp add: run Cons)
  qed
qed

text \<open>A codec that knows the data of a login, for the witnesses.\<close>

definition login_data :: session_data where
  "login_data = [''_auth_user_id'' \<mapsto> VInt I64 7]"

definition float_view :: "goval \<Rightarrow> goval" where
  "float_view v = (case v of VInt k n \<Rightarrow> VFloat n (itoa n) | _ \<Rightarrow> v)"

definition login_json :: json where
  "login_json = \<lparr>js_marshal = (\<lambda>d. if d = login_data then Inr ''{7}'' else if d = Map.empty then Inr ''{}''
       else Inl ''unsupported''),
     js_unmarshal = (\<lambda>s. if s = ''{7}'' then Inr (map_option float_view \<circ> login_data)
       else if s = ''{}'' then Inr Map.empty else Inl ''invalid'')\<rparr>"

lemma login_json_law: "json_law login_json float_view"
  by (auto simp: json_law_def login_json_def float_view_def)

lemma login_marshal:
  "js_marshal login_json login_data = Inr ''{7}''" "js_marshal login_json Map.empty = Inr ''{}''"
proof -
  have "login_data \<noteq> Map.empty" by (simp add: login_data_def)
  then show "js_marshal login_json login_data = Inr ''{7}''" "js_marshal login_json Map.empty = Inr ''{}''"
    by (auto simp add: login_json_def)
qed

text \<open>The second event of a handler that logs in and writes.\<close>

definition login_events :: "session \<Rightarrow> unit event list" where
  "login_events sess =
     [Change (\<lambda>s. s\<lparr>ss_data := login_data, ss_modified := True\<rparr>), Body ''hello'', Change session_clear]"

definition plain_request :: request where
  "plain_request = \<lparr>rq_method = ''GET'', rq_path = ''/'', rq_host = ''example.org'', rq_tls = False,
     rq_header = (\<lambda>n. []), rq_cookies = [], rq_form = []\<rparr>"

theorem session_saved_at_first_write_witness:
  "rs_sent (fst (session_middleware (cookie_store login_json (\<lambda>k m. k @ m) ''k'') ''sessionid'' [] login_events
     plain_request ())) =
   [session_cookie ''sessionid'' (url_encode64 ''{7}'' @ ''.'' @ url_encode64 (''k'' @ url_encode64 ''{7}''))]"
proof -
  have load: "load_session (cookie_store login_json (\<lambda>k m. k @ m) ''k'') ''sessionid'' plain_request () =
      (Inr new_session, ())"
    by (simp add: load_session_def plain_request_def request_cookie_def)
  from session_saved_at_first_write [OF load, of login_events
      "[Change (\<lambda>s. s\<lparr>ss_data := login_data, ss_modified := True\<rparr>)]" "[Body ''hello'', Change session_clear]" "[]"]
  show ?thesis
    by (simp add: login_events_def cookies_for_def cookie_store_def cookie_encode_def login_marshal Let_def
        cookie_sign_def new_session_def)
qed



end
