(* ===== verification/Web_DbSessions.thy ===== *)
theory Web_DbSessions
  imports Orm_Tables Web_Sessions
begin

text \<open>
  \<open>sessions/dbstore.go\<close>: the store that keeps session data in the table of the model \<open>Record\<close>, through the
  ORM. Over a database whose statements on that table do what they say, it meets the contract of a
  session store.
\<close>

subsection \<open>The model\<close>

definition record_struct :: struct_type where
  "record_struct = \<lparr>st_type = RType ''sessions'' ''Record'',
     st_fields = [
       \<lparr>sf_name = ''Key'', sf_exported = True, sf_type = TString, sf_tag = ''pk;max_length=64''\<rparr>,
       \<lparr>sf_name = ''Data'', sf_exported = True, sf_type = TString, sf_tag = ''type=text''\<rparr>,
       \<lparr>sf_name = ''ExpiresAt'', sf_exported = True, sf_type = TTime, sf_tag = ''null''\<rparr>],
     st_meta = None, st_choices = None\<rparr>"

definition record_type :: rtype where
  "record_type = RType ''sessions'' ''Record''"

definition key_field :: field where
  "key_field = (char_field ''Key'' ''key'' 64 0)\<lparr>f_primary_key := True\<rparr>"

definition data_field :: field where
  "data_field = (char_field ''Data'' ''data'' 0 1)\<lparr>f_kind := KindText\<rparr>"

definition expires_field :: field where
  "expires_field = id_field\<lparr>f_name := ''ExpiresAt'', f_column := ''expires_at'', f_kind := KindDateTime,
     f_null := True, f_index := 2\<rparr>"

definition record_model :: model where
  "record_model = \<lparr>m_name = ''Record'', m_table = ''record'',
     m_fields = [key_field, data_field, expires_field], m_pk = Some 0,
     m_by_name = Map.empty(''Key'' \<mapsto> 0, ''Data'' \<mapsto> 1, ''ExpiresAt'' \<mapsto> 2),
     m_by_column = Map.empty(''key'' \<mapsto> 0, ''data'' \<mapsto> 1, ''expires_at'' \<mapsto> 2),
     m_go_type = record_type\<rparr>"

lemma collect_record: "collect_fields record_struct = Inr [key_field, data_field, expires_field]"
  by code_simp

subsection \<open>The store\<close>

datatype db_store_error = StoreOrm exec_error | StoreJson string

definition db_decode ::
  "'s env \<Rightarrow> json \<Rightarrow> string \<Rightarrow> 's \<Rightarrow> (db_store_error + session) \<times> 's"
where
  "db_decode en js cookieValue s =
     (case get_row en background [VString ''key'', VString cookieValue] (new_query (en_db en) record_type) s of
        (Inl DoesNotExist, s1) \<Rightarrow> (Inr new_session, s1)
      | (Inl e, s1) \<Rightarrow> (Inl (StoreOrm e), s1)
      | (Inr rec, s1) \<Rightarrow>
          (case rec ! 1 of
             VString data \<Rightarrow>
               (case (if data \<noteq> [] then js_unmarshal js data else Inr Map.empty) of
                  Inl e \<Rightarrow> (Inl (StoreJson e), s1)
                | Inr d \<Rightarrow> (Inr \<lparr>ss_key = cookieValue, ss_data = d, ss_modified = False\<rparr>, s1))
           | _ \<Rightarrow> (Inl (StoreJson []), s1)))"

definition write_record ::
  "'s env \<Rightarrow> string \<Rightarrow> string \<Rightarrow> 's \<Rightarrow> (db_store_error + string) \<times> 's"
where
  "write_record en key data s =
     (let q = new_query (en_db en) record_type
      in case get_row en background [VString ''key'', VString key] q s of
           (Inr rec, s1) \<Rightarrow>
             (case update_rows en background [VString ''data'', VString data]
                     (Filter [VString ''key'', VString key] q) s1 of
                (Inl e, s2) \<Rightarrow> (Inl (StoreOrm e), s2)
              | (Inr n, s2) \<Rightarrow> (Inr key, s2))
         | (Inl DoesNotExist, s1) \<Rightarrow>
             (case create_row en background q [VString key, VString data, VTime zero_time] s1 of
                ((Some e, rec), s2) \<Rightarrow> (Inl (StoreOrm e), s2)
              | ((None, rec), s2) \<Rightarrow> (Inr key, s2))
         | (Inl e, s1) \<Rightarrow> (Inl (StoreOrm e), s1))"

definition db_encode ::
  "'s env \<Rightarrow> json \<Rightarrow> string \<Rightarrow> session \<Rightarrow> 's \<Rightarrow> ((db_store_error + string) \<times> session) \<times> 's"
where
  "db_encode en js rnd sess s =
     (let sess = (if ss_key sess = [] then rotate rnd sess else sess)
      in case js_marshal js (ss_data sess) of
           Inl e \<Rightarrow> ((Inl (StoreJson e), sess), s)
         | Inr raw \<Rightarrow>
             (case write_record en (ss_key sess) raw s of (r, s1) \<Rightarrow> ((r, sess), s1)))"

definition db_delete :: "'s env \<Rightarrow> session \<Rightarrow> 's \<Rightarrow> db_store_error option \<times> 's" where
  "db_delete en sess s =
     (if ss_key sess = [] then (None, s)
      else (case delete_terminal en background
                   (Filter [VString ''key'', VString (ss_key sess)] (new_query (en_db en) record_type)) s of
              (Inl e, s1) \<Rightarrow> (Some (StoreOrm e), s1)
            | (Inr n, s1) \<Rightarrow> (None, s1)))"

definition db_store :: "'s env \<Rightarrow> json \<Rightarrow> ('s, db_store_error) store" where
  "db_store en js =
     \<lparr>st_decode = db_decode en js, st_encode = db_encode en js, st_delete = db_delete en\<rparr>"

subsection \<open>What the database does\<close>

text \<open>
  The rows of the table in a state, and the four statements: the SELECT of a key, UPDATE, INSERT and
  DELETE, each with its effect when it succeeds and none when it fails.
\<close>

definition key_query :: "'s env \<Rightarrow> string \<Rightarrow> queryset" where
  "key_query en k = Filter [VString ''key'', VString k] (new_query (en_db en) record_type)"

definition set_data :: "string \<Rightarrow> string \<Rightarrow> goval list list \<Rightarrow> goval list list" where
  "set_data k d rows = map (\<lambda>row. if row ! 0 = VString k then row[1 := VString d] else row) rows"

definition record_laws :: "'s env \<Rightarrow> ('s \<Rightarrow> goval list list) \<Rightarrow> bool" where
  "record_laws en rows \<longleftrightarrow>
     (\<forall>k s. select_answer en background (rows s) (Limit 2 (key_query en k)) s) \<and>
     (\<forall>k d sql args s r s'. compile_update (en_db en) (key_query en k) [(''data'', VString d)] = Inr (sql, args) \<longrightarrow>
        conn_exec (en_driver en) background sql args s = (r, s') \<longrightarrow>
        (case r of
           Inl e \<Rightarrow> rows s' = rows s
         | Inr res \<Rightarrow> rows s' = set_data k d (rows s) \<and> \<not> isl (er_rows_affected res))) \<and>
     (\<forall>k d t s r s'.
        conn_exec (en_driver en) background (insert_sql (db_dialect (en_db en)) record_model)
          [VString k, VString d, VTime t] s = (r, s') \<longrightarrow>
        rows s' = (if isl r then rows s else rows s @ [[VString k, VString d, VTime t]]))"

text \<open>The table: one row for a key, with text that the codec can read.\<close>

definition record_row :: "json \<Rightarrow> goval list \<Rightarrow> bool" where
  "record_row js row \<longleftrightarrow>
     (\<exists>k d t. row = [VString k, VString d, VTime t] \<and> (d \<noteq> [] \<longrightarrow> (\<exists>m. js_unmarshal js d = Inr m)))"

definition record_rows :: "json \<Rightarrow> goval list list \<Rightarrow> bool" where
  "record_rows js rows \<longleftrightarrow> distinct (map hd rows) \<and> (\<forall>row \<in> set rows. record_row js row)"

definition row_data :: "json \<Rightarrow> goval list \<Rightarrow> session_data" where
  "row_data js row =
     (case row ! 1 of
        VString d \<Rightarrow> if d = [] then Map.empty else (case js_unmarshal js d of Inl e \<Rightarrow> Map.empty | Inr m \<Rightarrow> m)
      | _ \<Rightarrow> Map.empty)"

definition record_live :: "json \<Rightarrow> goval list list \<Rightarrow> string \<Rightarrow> session_data option" where
  "record_live js rows k = map_option (row_data js) (find (\<lambda>row. row ! 0 = VString k) rows)"

definition no_record_handlers :: "'s env \<Rightarrow> bool" where
  "no_record_handlers en \<longleftrightarrow> (\<forall>k. sr_handlers (en_signals en) record_type k = [])"

definition record_env :: "'s env \<Rightarrow> bool" where
  "record_env en \<longleftrightarrow>
     model_of (db_registry (en_db en)) (Some record_type) = Some record_model \<and>
     en_layouts en record_type = [TString, TString, TTime] \<and> no_record_handlers en"

subsection \<open>The queries of the store\<close>

lemma record_columns [simp]:
  "m_by_column record_model ''key'' = Some 0" "m_by_column record_model ''data'' = Some 1"
  "m_go_type record_model = record_type" "m_name record_model = ''Record''"
  by (simp_all add: record_model_def)

lemma key_plain: "LastIndex ''key'' ''__'' = None"
  by code_simp

lemma key_where_ok: "where_ok record_model \<lparr>w_key = ''key'', w_value = v, w_negate = False\<rparr>"
  by (rule where_ok_exact [OF key_plain record_columns(1)])

lemma record_fields:
  "m_fields record_model = [key_field, data_field, expires_field]"
  "f_index key_field = 0" "f_index data_field = 1" "f_index expires_field = 2"
  "f_column key_field = ''key''" "f_column data_field = ''data''" "f_column expires_field = ''expires_at''"
  "\<not> f_auto_now key_field" "\<not> f_auto_now data_field" "\<not> f_auto_now expires_field"
  "\<not> f_auto_now_add key_field" "\<not> f_auto_now_add data_field" "\<not> f_auto_now_add expires_field"
  "\<not> f_has_default key_field" "\<not> f_has_default data_field" "\<not> f_has_default expires_field"
  "f_kind key_field = KindChar"
  by (simp_all add: record_model_def key_field_def data_field_def expires_field_def char_field_def id_field_def)

lemma scan_record_row:
  assumes "record_row js row"
  shows "scan_row [TString, TString, TTime] record_model row = Inr row"
  using assms
  by (auto simp: record_row_def scan_row_def record_fields scan_value_def scan_string_def as_string_def
      zero_struct_def numeral_2_eq_2)

lemma find_key_unique:
  "distinct (map hd rows) \<Longrightarrow> (\<forall>row \<in> set rows. row \<noteq> []) \<Longrightarrow>
   filter (\<lambda>row. row ! 0 = x) rows = (case find (\<lambda>row. row ! 0 = x) rows of None \<Rightarrow> [] | Some row \<Rightarrow> [row])"
proof (induction rows)
  case (Cons row rows)
  then have r: "row ! 0 = hd row" and rs: "\<forall>row \<in> set rows. row ! 0 = hd row"
    by (simp_all add: hd_conv_nth)
  have "filter (\<lambda>row. row ! 0 = x) rows = []" if "hd row = x"
    using that Cons.prems(1) rs by (fastforce simp: filter_empty_conv image_iff)
  with Cons r show ?case by auto
qed simp

lemma get_record:
  assumes "record_env en" and "record_laws en rows" and "record_rows js (rows s)"
  shows "get_row en background [VString ''key'', VString k] (new_query (en_db en) record_type) s =
    ((case find (\<lambda>row. row ! 0 = VString k) (rows s) of None \<Rightarrow> Inl DoesNotExist | Some row \<Rightarrow> Inr row), s)"
proof -
  let ?q = "new_query (en_db en) record_type"
  have m: "model_of (db_registry (en_db en)) (Some record_type) = Some record_model"
    using assms(1) by (simp add: record_env_def)
  have scan: "rows_scan (en_layouts en (m_go_type record_model)) record_model (\<lambda>row. row) (rows s)"
    using assms(1,3) by (auto simp: rows_scan_def record_env_def record_rows_def scan_record_row)
  have match: "matching record_model (Filter [VString ''key'', VString k] ?q) (rows s) =
      (case find (\<lambda>row. row ! 0 = VString k) (rows s) of None \<Rightarrow> [] | Some row \<Rightarrow> [row])"
    using assms(3) by (simp add: m clause_exact [OF key_plain record_columns(1)] record_rows_def)
      (rule find_key_unique, auto simp: record_row_def)
  have ans: "select_answer en background (rows s) (Limit 2 (Filter [VString ''key'', VString k] ?q)) s"
    using assms(2) by (simp add: record_laws_def key_query_def)
  show ?thesis
    by (rule get_row_unique [OF simple_new_query [OF m] key_where_ok ans scan match])
qed

lemma build_record: "build_model record_struct = Inr record_model"
proof -
  have tn: "table_name record_struct = ''record''" by code_simp
  have st: "rt_name (st_type record_struct) = ''Record''"
    "st_choices record_struct = None" "st_type record_struct = record_type"
    "rt_name record_type = ''Record''"
    by (simp_all add: record_struct_def record_type_def)
  have f: "f_primary_key key_field" "\<not> f_primary_key data_field" "\<not> f_primary_key expires_field"
    "promote key_field = key_field" "f_name key_field = ''Key''" "f_name data_field = ''Data''"
    "f_name expires_field = ''ExpiresAt''"
    by (simp_all add: key_field_def data_field_def expires_field_def char_field_def id_field_def promote_def)
  show ?thesis
    by (simp add: build_model_def collect_record resolve_pk_def find_pk_def f record_fields
        Let_def index_fields_def index_field_def apply_choices_def record_model_def tn st upt_rec eval_nat_numeral)
qed

subsection \<open>Reading\<close>

lemma db_decode_result:
  assumes "record_env en" and "record_laws en rows" and "record_rows js (rows s)"
  shows "db_decode en js v s =
    ((case record_live js (rows s) v of
        None \<Rightarrow> Inr new_session
      | Some d \<Rightarrow> Inr \<lparr>ss_key = v, ss_data = d, ss_modified = False\<rparr>), s)"
proof (cases "find (\<lambda>row. row ! 0 = VString v) (rows s)")
  case None
  then show ?thesis
    by (simp add: db_decode_def get_record [OF assms] record_live_def)
next
  case (Some row)
  then have "row \<in> set (rows s)" by (auto simp: find_Some_iff)
  with assms(3) obtain k d t where row: "row = [VString k, VString d, VTime t]"
    "d \<noteq> [] \<longrightarrow> (\<exists>m. js_unmarshal js d = Inr m)"
    by (auto simp: record_rows_def record_row_def)
  with Some show ?thesis
    by (auto simp: db_decode_def get_record [OF assms] record_live_def row_data_def)
qed

subsection \<open>Writing\<close>

text \<open>The rows after a write, as what they stand for.\<close>

lemma find_set_data:
  "find (\<lambda>row. row ! 0 = x) (set_data k d rows) =
     map_option (\<lambda>row. if row ! 0 = VString k then row[1 := VString d] else row) (find (\<lambda>row. row ! 0 = x) rows)"
  by (induction rows) (auto simp: set_data_def)

lemma record_live_set_data:
  assumes "record_rows js rows" and "find (\<lambda>row. row ! 0 = VString k) rows \<noteq> None"
    and "d \<noteq> []" and "js_unmarshal js d = Inr m"
  shows "record_live js (set_data k d rows) v = (if v = k then Some m else record_live js rows v)"
proof (cases "find (\<lambda>row. row ! 0 = VString v) rows")
  case None
  with assms(2) show ?thesis by (auto simp: record_live_def find_set_data)
next
  case (Some row)
  then have "row \<in> set rows" "row ! 0 = VString v" by (auto simp: find_Some_iff)
  with assms(1) obtain e t where "row = [VString v, VString e, VTime t]"
    by (auto simp: record_rows_def record_row_def)
  with Some assms(3,4) show ?thesis by (simp add: record_live_def find_set_data row_data_def)
qed

lemma record_rows_set_data:
  assumes "record_rows js rows" and "js_unmarshal js d = Inr m"
  shows "record_rows js (set_data k d rows)"
proof -
  have "map hd (set_data k d rows) = map hd rows"
    using assms(1) by (auto simp: set_data_def record_rows_def record_row_def)
  moreover have "record_row js row" if row: "row \<in> set (set_data k d rows)" for row
  proof -
    from row obtain row0 where "row0 \<in> set rows"
      and row: "row = (if row0 ! 0 = VString k then row0[1 := VString d] else row0)"
      by (auto simp: set_data_def)
    with assms(1) obtain k0 d0 t where "row0 = [VString k0, VString d0, VTime t]"
      "d0 \<noteq> [] \<longrightarrow> (\<exists>m. js_unmarshal js d0 = Inr m)"
      by (auto simp: record_rows_def record_row_def)
    with assms(2) show ?thesis by (auto simp: row record_row_def)
  qed
  ultimately show ?thesis using assms(1) by (simp add: record_rows_def)
qed

lemma record_live_append:
  assumes "find (\<lambda>row. row ! 0 = VString k) rows = None" and "d \<noteq> []" and "js_unmarshal js d = Inr m"
  shows "record_live js (rows @ [[VString k, VString d, VTime t]]) v =
    (if v = k then Some m else record_live js rows v)"
proof -
  have app: "find P (xs @ [y]) = (case find P xs of None \<Rightarrow> if P y then Some y else None | Some x \<Rightarrow> Some x)"
    for P and xs :: "'b list" and y
    by (induction xs) auto
  show ?thesis
    using assms by (auto simp: record_live_def app row_data_def split: option.splits)
qed

lemma record_rows_append:
  assumes "record_rows js rows" and "find (\<lambda>row. row ! 0 = VString k) rows = None"
    and "js_unmarshal js d = Inr m"
  shows "record_rows js (rows @ [[VString k, VString d, VTime t]])"
proof -
  have "hd row \<noteq> VString k" if "row \<in> set rows" for row
  proof -
    from that assms(1) obtain l e u where "row = [VString l, VString e, VTime u]"
      by (auto simp: record_rows_def record_row_def)
    with that assms(2) show ?thesis by (auto simp: find_None_iff)
  qed
  then have "VString k \<notin> hd ` set rows" by (metis imageE)
  with assms(1,3) show ?thesis by (auto simp: record_rows_def record_row_def)
qed

lemma compile_record_update:
  assumes "record_env en"
  shows "\<exists>sql args. compile_update (en_db en) (key_query en k) [(''data'', VString d)] = Inr (sql, args)"
proof -
  have m: "model_of (db_registry (en_db en)) (Some record_type) = Some record_model"
    using assms by (simp add: record_env_def)
  have "\<exists>r. compile_where (db_dialect (en_db en)) record_model
      [\<lparr>w_key = ''key'', w_value = VString k, w_negate = False\<rparr>] [] (Suc 0) = Inr r"
    unfolding compile_where_ok by (simp add: key_where_ok)
  then have "\<exists>wh args. compile_where (db_dialect (en_db en)) record_model
      [\<lparr>w_key = ''key'', w_value = VString k, w_negate = False\<rparr>] [] (Suc 0) = Inr (wh, args)"
    by (metis surj_pair)
  then show ?thesis
    by (auto simp: compile_update_def with_model_def key_query_def filter_pair_simps new_query_model [OF m] Let_def)
qed

lemma update_record:
  assumes "record_env en" and "record_laws en rows"
    and "update_rows en background [VString ''data'', VString d] (key_query en k) s = (r, s')"
  shows "rows s' = (if isl r then rows s else set_data k d (rows s))"
proof -
  have m: "model_of (db_registry (en_db en)) (Some record_type) = Some record_model"
    using assms(1) by (simp add: record_env_def)
  obtain sql args where sql: "compile_update (en_db en) (key_query en k) [(''data'', VString d)] = Inr (sql, args)"
    using compile_record_update [OF assms(1)] by blast
  obtain r1 s1 where ex: "conn_exec (en_driver en) background sql args s = (r1, s1)" by fastforce
  have "with_auto_now (en_now en) (m_fields record_model) [(''data'', VString d)] = [(''data'', VString d)]"
    by (simp add: with_auto_now_def inject_auto_now_def record_fields)
  then have "(r, s') = exec_affected en background ''update'' (m_name record_model) sql args s"
    using assms(3) sql
    by (simp add: update_rows_def on_query_def key_query_def filter_pair_simps new_query_model [OF m])
  moreover have "case r1 of Inl e \<Rightarrow> rows s1 = rows s
      | Inr res \<Rightarrow> rows s1 = set_data k d (rows s) \<and> \<not> isl (er_rows_affected res)"
    using assms(2) sql ex unfolding record_laws_def by blast
  ultimately show ?thesis
    by (auto simp: exec_affected_def ex split: sum.splits)
qed

lemma create_record:
  assumes "record_env en" and "record_laws en rows"
    and "create_row en background (new_query (en_db en) record_type) [VString k, VString d, VTime t] s = ((e, obj), s')"
  shows "rows s' = (if e = None then rows s @ [[VString k, VString d, VTime t]] else rows s)"
proof -
  let ?obj = "[VString k, VString d, VTime t]"
  have m: "model_of (db_registry (en_db en)) (Some record_type) = Some record_model"
    using assms(1) by (simp add: record_env_def)
  have fire: "fire (en_signals en) record_type kd ob u = ((None, ob), u)" for kd ob u
    using assms(1) by (simp add: record_env_def no_record_handlers_def fire_def snapshot_def)
  have prep: "prepare_row en record_model ?obj = ?obj"
    by (simp add: prepare_row_def apply_defaults_def apply_default_def apply_auto_now_on_create_def
        stamp_on_create_def record_fields Let_def)
  have auto: "auto_pk record_model = None" "primary_key record_model = Some key_field"
    by (simp_all add: auto_pk_def primary_key_def record_model_def key_field_def char_field_def)
  have args: "insert_args record_model ?obj = ?obj"
    by (simp add: insert_args_def insert_fields_def auto record_fields upt_rec numeral_2_eq_2)
  obtain r1 s1 where ex: "conn_exec (en_driver en) background (insert_sql (db_dialect (en_db en)) record_model) ?obj s = (r1, s1)"
    by fastforce
  have "rows s1 = (if isl r1 then rows s else rows s @ [?obj])"
    using assms(2) ex unfolding record_laws_def by blast
  moreover have "(e = None \<longleftrightarrow> \<not> isl r1) \<and> s' = s1"
    using assms(3) by (cases r1)
      (auto simp: create_row_def new_query_model [OF m] fire prep insert_row_def auto args ex write_back_def Let_def)
  ultimately show ?thesis by auto
qed

text \<open>Writing a record: the table after it, and what its rows stand for.\<close>

lemma write_record_result:
  assumes "record_env en" and "record_laws en rows" and "record_rows js (rows s)"
    and "raw \<noteq> []" and "js_unmarshal js raw = Inr d" and "write_record en k raw s = (r, s')"
  shows "(\<forall>v. r = Inr v \<longrightarrow> v = k) \<and> record_rows js (rows s') \<and>
    record_live js (rows s') = (if isl r then record_live js (rows s) else (record_live js (rows s))(k \<mapsto> d))"
proof (cases "find (\<lambda>row. row ! 0 = VString k) (rows s)")
  case None
  obtain e obj s1 where c: "create_row en background (new_query (en_db en) record_type)
      [VString k, VString raw, VTime zero_time] s = ((e, obj), s1)" by (metis surj_pair)
  have "r = (case e of None \<Rightarrow> Inr k | Some x \<Rightarrow> Inl (StoreOrm x))" and "s' = s1"
    using assms(6) None c by (auto simp: write_record_def get_record [OF assms(1-3)] split: option.splits)
  with create_record [OF assms(1,2) c] record_live_append [OF None assms(4,5)]
    record_rows_append [OF assms(3) None assms(5)] assms(3)
  show ?thesis by (auto simp: fun_eq_iff split: option.splits)
next
  case (Some row)
  obtain u s1 where c: "update_rows en background [VString ''data'', VString raw] (key_query en k) s = (u, s1)"
    by fastforce
  have "r = (case u of Inr n \<Rightarrow> Inr k | Inl x \<Rightarrow> Inl (StoreOrm x))" and "s' = s1"
    using assms(6) Some c
    by (auto simp: write_record_def get_record [OF assms(1-3)] key_query_def split: sum.splits)
  with update_record [OF assms(1,2) c] record_live_set_data [OF assms(3) _ assms(4,5), of k]
    record_rows_set_data [OF assms(3,5)] assms(3) Some
  show ?thesis by (auto simp: fun_eq_iff split: sum.splits)
qed

text \<open>The store meets the contract as long as the table is well formed.\<close>

definition record_store_inv ::
  "'s env \<Rightarrow> json \<Rightarrow> (goval \<Rightarrow> goval) \<Rightarrow> ('s \<Rightarrow> goval list list) \<Rightarrow> 's \<Rightarrow> bool" where
  "record_store_inv en js view rows s \<longleftrightarrow>
     record_env en \<and> record_laws en rows \<and> json_law js view \<and> record_rows js (rows s)"

lemma db_encode_result:
  assumes "record_store_inv en js view rows s" and "db_encode en js rnd sess s = ((r, sess'), s')"
  shows "record_store_inv en js view rows s' \<and> ss_data sess' = ss_data sess \<and>
    ss_key sess' = (if ss_key sess = [] then new_key rnd else ss_key sess) \<and>
    record_live js (rows s') =
      (case r of Inl e \<Rightarrow> record_live js (rows s)
       | Inr v \<Rightarrow> (record_live js (rows s))(v \<mapsto> map_option view \<circ> ss_data sess)) \<and>
    (\<forall>v. r = Inr v \<longrightarrow> v = ss_key sess')"
proof -
  define sess1 where "sess1 = (if ss_key sess = [] then rotate rnd sess else sess)"
  have d: "ss_data sess1 = ss_data sess"
    "ss_key sess1 = (if ss_key sess = [] then new_key rnd else ss_key sess)"
    by (simp_all add: sess1_def rotate_def)
  have enc: "db_encode en js rnd sess s =
      (case js_marshal js (ss_data sess) of
         Inl e \<Rightarrow> ((Inl (StoreJson e), sess1), s)
       | Inr raw \<Rightarrow> (case write_record en (ss_key sess1) raw s of (r, s1) \<Rightarrow> ((r, sess1), s1)))"
    unfolding db_encode_def Let_def sess1_def [symmetric] d by (rule refl)
  note inv = assms(1) [unfolded record_store_inv_def]
  show ?thesis
  proof (cases "js_marshal js (ss_data sess)")
    case (Inl e)
    with assms enc have "r = Inl (StoreJson e)" "sess' = sess1" "s' = s" by simp_all
    with assms(1) d show ?thesis by simp
  next
    case (Inr raw)
    with inv have j: "raw \<noteq> []" "js_unmarshal js raw = Inr (map_option view \<circ> ss_data sess)"
      unfolding json_law_def by blast+
    obtain w s1 where w: "write_record en (ss_key sess1) raw s = (w, s1)" by fastforce
    from assms(2) Inr enc w have eq: "r = w" "sess' = sess1" "s' = s1" by simp_all
    from inv have inv': "record_env en" "record_laws en rows" "record_rows js (rows s)" by blast+
    from write_record_result [OF inv' j w] inv
    show ?thesis unfolding eq record_store_inv_def d by (cases w) simp_all
  qed
qed

interpretation recorded: session_store "db_store en js" "\<lambda>s. record_live js (rows s)"
  "record_store_inv en js view rows" view for en js rows view
proof unfold_locales
  fix s v sess s' e
  assume inv: "record_store_inv en js view rows s"
  note dec = db_decode_result [of en rows js s v] inv [unfolded record_store_inv_def]
  {
    assume "st_decode (db_store en js) v s = (Inr sess, s')"
    with dec inv show "record_store_inv en js view rows s' \<and> record_live js (rows s') = record_live js (rows s) \<and>
        \<not> ss_modified sess \<and> ss_data sess = (case record_live js (rows s) v of None \<Rightarrow> Map.empty | Some d \<Rightarrow> d)"
      by (auto simp: db_store_def new_session_def split: option.splits)
  next
    assume "st_decode (db_store en js) v s = (Inl e, s')"
    with dec inv show "record_store_inv en js view rows s' \<and> record_live js (rows s') = record_live js (rows s)"
      by (auto simp: db_store_def split: option.splits)
  }
next
  fix s rnd sess v sess' s' e
  assume inv: "record_store_inv en js view rows s"
  {
    assume "st_encode (db_store en js) rnd sess s = ((Inr v, sess'), s')"
    then have "db_encode en js rnd sess s = ((Inr v, sess'), s')" by (simp add: db_store_def)
    from db_encode_result [OF inv this]
    show "record_store_inv en js view rows s' \<and>
        record_live js (rows s') v = Some (map_option view \<circ> ss_data sess) \<and>
        ss_data sess' = ss_data sess \<and> (\<forall>w. w \<noteq> v \<longrightarrow> record_live js (rows s') w = record_live js (rows s) w)"
      by simp
  next
    assume "st_encode (db_store en js) rnd sess s = ((Inl e, sess'), s')"
    then have "db_encode en js rnd sess s = ((Inl e, sess'), s')" by (simp add: db_store_def)
    from db_encode_result [OF inv this]
    show "record_store_inv en js view rows s' \<and> ss_data sess' = ss_data sess \<and>
        record_live js (rows s') = record_live js (rows s)"
      by simp
  }
qed

subsection \<open>A database for the witnesses\<close>

definition record_registry :: registry where
  "record_registry = \<lparr>reg_models = [record_model], reg_by_type = [record_type \<mapsto> 0],
     reg_by_name = [''Record'' \<mapsto> 0], reg_frozen = True\<rparr>"

definition table_exec :: "string \<Rightarrow> goval list \<Rightarrow> goval list list \<Rightarrow> goval list list" where
  "table_exec sql args rows =
     (if HasPrefix sql ''UPDATE '' then
        (case args of
           [VString d, VString k] \<Rightarrow> set_data k d rows
         | _ \<Rightarrow> rows)
      else if HasPrefix sql ''INSERT '' then rows @ [args]
      else rows)"

definition table_driver :: "goval list list driver" where
  "table_driver = \<lparr>drv_begin = (\<lambda>s. (None, s)), drv_commit = (\<lambda>s. (None, s)), drv_rollback = (\<lambda>s. s),
     drv_exec = (\<lambda>tx sql args s.
       (Inr \<lparr>er_last_insert_id = Inr 0, er_rows_affected = Inr 1\<rparr>, table_exec sql args s)),
     drv_query = (\<lambda>tx sql args s. (Inr \<lparr>qr_rows = take 2 (filter (\<lambda>row. [row ! 0] = args) s), qr_err = None\<rparr>, s))\<rparr>"

definition session_env :: "goval list list env" where
  "session_env = \<lparr>en_db = \<lparr>db_dialect = sqlite, db_registry = record_registry\<rparr>, en_driver = table_driver,
     en_now = zero_time, en_layouts = (\<lambda>t. [TString, TString, TTime]), en_signals = new_signals\<rparr>"

lemma session_env_record: "record_env session_env"
  by (simp add: record_env_def session_env_def record_registry_def model_of_def no_record_handlers_def new_signals_def)

lemma session_env_model: "model_of (db_registry (en_db session_env)) (Some record_type) = Some record_model"
  using session_env_record by (simp add: record_env_def)

lemma compile_where_key:
  assumes "compile_where d record_model [\<lparr>w_key = ''key'', w_value = VString k, w_negate = False\<rparr>] qualify n = Inr (wh, args)"
  shows "args = [VString k]"
  using assms by (simp add: compile_where_def build_predicate_def parse_lookup_plain [OF key_plain] Let_def)

lemma key_query_simps:
  "q_model (key_query session_env k) = Some record_model" "q_err (key_query session_env k) = None"
  "q_select_related (key_query session_env k) = []"
  "q_wheres (key_query session_env k) = [\<lparr>w_key = ''key'', w_value = VString k, w_negate = False\<rparr>]"
  by (simp_all add: key_query_def filter_pair_simps new_query_model [OF session_env_model])

lemma record_select_args:
  assumes "compile_select (en_db session_env) (Limit 2 (key_query session_env k)) = Inr (sql, args)"
  shows "args = [VString k]"
  using compile_select_args [OF assms] by (auto simp: key_query_simps dest: compile_where_key)

lemma record_update_args:
  assumes "compile_update (en_db session_env) (key_query session_env k) [(''data'', VString d)] = Inr (sql, args)"
  shows "args = [VString d, VString k] \<and> HasPrefix sql ''UPDATE ''"
  using assms
  unfolding compile_update_def with_model_def key_query_simps Let_def
  by (elim result_elims) (auto elim!: bind_err_InrE dest: compile_where_key)

lemma session_env_laws: "record_laws session_env (\<lambda>s. s)"
proof -
  have "select_answer session_env background s (Limit 2 (key_query session_env k)) s" for k s
  proof -
    have match: "matching record_model (Limit 2 (key_query session_env k)) s = filter (\<lambda>row. row ! 0 = VString k) s"
      by (simp add: key_query_def session_env_model clause_exact [OF key_plain record_columns(1)])
    have lim: "limited (Limit 2 (key_query session_env k)) xs = take 2 xs" for xs :: "'z list"
      by simp
    have drv: "conn_query (en_driver session_env) background sql [VString k] s =
        (Inr \<lparr>qr_rows = take 2 (filter (\<lambda>row. row ! 0 = VString k) s), qr_err = None\<rparr>, s)" for sql
      by (simp add: session_env_def table_driver_def conn_query_def)
    show ?thesis
      unfolding select_answer_def
    proof (intro allI impI)
      fix m sql args
      assume m: "q_model (Limit 2 (key_query session_env k)) = Some m"
        and c: "compile_select (en_db session_env) (Limit 2 (key_query session_env k)) = Inr (sql, args)"
      from m have "m = record_model" by (simp add: key_query_simps)
      with record_select_args [OF c] show "conn_query (en_driver session_env) background sql args s =
          (Inr \<lparr>qr_rows = limited (Limit 2 (key_query session_env k))
             (matching m (Limit 2 (key_query session_env k)) s), qr_err = None\<rparr>, s)"
        by (simp only: drv match lim)
    qed
  qed
  moreover have "conn_exec (en_driver session_env) background sql args s =
      (Inr \<lparr>er_last_insert_id = Inr 0, er_rows_affected = Inr 1\<rparr>, table_exec sql args s)" for sql args s
    by (simp add: session_env_def conn_exec_def table_driver_def)
  ultimately show ?thesis
    unfolding record_laws_def
    by (auto simp: table_exec_def insert_sql_def dest: record_update_args)
qed

subsection \<open>Properties\<close>


lemma session_env_inv: "record_store_inv session_env login_json float_view (\<lambda>s. s) []"
  by (simp add: record_store_inv_def session_env_record session_env_laws login_json_law record_rows_def)

text \<open>Saving a session under a new key succeeds in that database.\<close>

lemma session_env_create:
  "fst (create_row session_env background (new_query (en_db session_env) record_type)
     [VString k, VString d, VTime t] s) = (None, [VString k, VString d, VTime t])"
proof -
  have auto: "auto_pk record_model = None"
    by (simp add: auto_pk_def primary_key_def record_model_def key_field_def char_field_def)
  have fire: "fire (en_signals session_env) record_type kd ob u = ((None, ob), u)" for kd ob u
    by (simp add: session_env_def new_signals_def fire_def snapshot_def)
  have prep: "prepare_row session_env record_model [VString k, VString d, VTime t] = [VString k, VString d, VTime t]"
    by (simp add: prepare_row_def apply_defaults_def apply_default_def apply_auto_now_on_create_def
        stamp_on_create_def record_fields Let_def)
  have exec: "conn_exec (en_driver session_env) background sql args u =
      (Inr \<lparr>er_last_insert_id = Inr 0, er_rows_affected = Inr 1\<rparr>, table_exec sql args u)" for sql args u
    by (simp add: session_env_def conn_exec_def table_driver_def)
  show ?thesis
    by (simp add: create_row_def new_query_model [OF session_env_model] fire prep insert_row_def auto
        exec write_back_def Let_def)
qed

lemma session_env_encode:
  assumes "record_rows js s" and "js_marshal js (ss_data sess) = Inr raw"
    and "k = (if ss_key sess = [] then new_key rnd else ss_key sess)"
    and "find (\<lambda>row. row ! 0 = VString k) s = None"
  shows "\<exists>sess' s'. db_encode session_env js rnd sess s = ((Inr k, sess'), s')"
proof -
  have get: "get_row session_env background [VString ''key'', VString k] (new_query (en_db session_env) record_type) s =
      (Inl DoesNotExist, s)"
    using get_record [OF session_env_record session_env_laws assms(1), of k] assms(4) by simp
  obtain e row s1 where c: "create_row session_env background (new_query (en_db session_env) record_type)
      [VString k, VString raw, VTime zero_time] s = ((e, row), s1)"
    by (metis surj_pair)
  with session_env_create [of k raw zero_time s] have "e = None" by simp
  with get c have "write_record session_env k raw s = (Inr k, s1)" by (simp add: write_record_def)
  then show ?thesis
    by (cases "ss_key sess = []") (simp_all add: db_encode_def rotate_def assms(2,3))
qed


end
