(* ===== verification/Web_Auth.thy ===== *)
theory Web_Auth
  imports Web_DbSessions
begin

text \<open>
  The package \<open>auth\<close>: its models, password hashes, login and logout on a session, the user of a request,
  permissions and guards, the creation of users. PBKDF2 with SHA-256 is a function \<open>kdf\<close> of password, salt,
  rounds and key length that may fail; random bytes and the clock are arguments. A user is an instance of
  the struct \<open>User\<close>, the list of its field values.
\<close>

subsection \<open>Models\<close>

definition bool_field :: "string \<Rightarrow> string \<Rightarrow> nat \<Rightarrow> field" where
  "bool_field name column i = id_field\<lparr>f_name := name, f_column := column, f_kind := KindBool, f_index := i\<rparr>"

definition link_field :: "string \<Rightarrow> string \<Rightarrow> nat \<Rightarrow> rtype \<Rightarrow> nat option \<Rightarrow> field" where
  "link_field name column i t target = id_field\<lparr>f_name := name, f_column := column, f_index := i,
     f_rel := Some \<lparr>rel_kind = RelFK, rel_column = column, rel_on_delete = OnDeleteDoNothing,
       rel_target_type = t, rel_target = target\<rparr>\<rparr>"

definition user_type :: rtype where
  "user_type = RType ''auth'' ''User''"

definition user_layout :: "gotype list" where
  "user_layout = [TInt I64, TString, TString, TString, TBool, TBool, TBool, TTime]"

definition user_model :: model where
  "user_model = \<lparr>m_name = ''User'', m_table = ''user'',
     m_fields = [promote id_field, (char_field ''Username'' ''username'' 150 1)\<lparr>f_unique := True\<rparr>,
       char_field ''PasswordHash'' ''password_hash'' 255 2, char_field ''Email'' ''email'' 254 3,
       bool_field ''IsActive'' ''is_active'' 4, bool_field ''IsStaff'' ''is_staff'' 5,
       bool_field ''IsSuperuser'' ''is_superuser'' 6,
       id_field\<lparr>f_name := ''DateJoined'', f_column := ''date_joined'', f_kind := KindDateTime, f_index := 7\<rparr>],
     m_pk = Some 0,
     m_by_name = [''ID'' \<mapsto> 0, ''Username'' \<mapsto> 1, ''PasswordHash'' \<mapsto> 2, ''Email'' \<mapsto> 3, ''IsActive'' \<mapsto> 4,
       ''IsStaff'' \<mapsto> 5, ''IsSuperuser'' \<mapsto> 6, ''DateJoined'' \<mapsto> 7],
     m_by_column = [''id'' \<mapsto> 0, ''username'' \<mapsto> 1, ''password_hash'' \<mapsto> 2, ''email'' \<mapsto> 3, ''is_active'' \<mapsto> 4,
       ''is_staff'' \<mapsto> 5, ''is_superuser'' \<mapsto> 6, ''date_joined'' \<mapsto> 7],
     m_go_type = user_type\<rparr>"

definition group_type :: rtype where
  "group_type = RType ''auth'' ''Group''"

definition group_model :: model where
  "group_model = \<lparr>m_name = ''Group'', m_table = ''group'',
     m_fields = [promote id_field, (char_field ''Name'' ''name'' 150 1)\<lparr>f_unique := True\<rparr>], m_pk = Some 0,
     m_by_name = [''ID'' \<mapsto> 0, ''Name'' \<mapsto> 1], m_by_column = [''id'' \<mapsto> 0, ''name'' \<mapsto> 1],
     m_go_type = group_type\<rparr>"

definition permission_type :: rtype where
  "permission_type = RType ''auth'' ''Permission''"

definition permission_model :: model where
  "permission_model = \<lparr>m_name = ''Permission'', m_table = ''permission'',
     m_fields = [promote id_field, char_field ''Codename'' ''codename'' 100 1, char_field ''Name'' ''name'' 255 2,
       char_field ''ContentType'' ''content_type'' 100 3], m_pk = Some 0,
     m_by_name = [''ID'' \<mapsto> 0, ''Codename'' \<mapsto> 1, ''Name'' \<mapsto> 2, ''ContentType'' \<mapsto> 3],
     m_by_column = [''id'' \<mapsto> 0, ''codename'' \<mapsto> 1, ''name'' \<mapsto> 2, ''content_type'' \<mapsto> 3],
     m_go_type = permission_type\<rparr>"

text \<open>The three models that link two others.\<close>

definition link_model ::
  "string \<Rightarrow> string \<Rightarrow> string \<times> string \<times> rtype \<Rightarrow> string \<times> string \<times> rtype \<Rightarrow> (rtype \<Rightarrow> nat option) \<Rightarrow> model"
where
  "link_model name table l r targets =
     (case (l, r) of ((n1, c1, t1), (n2, c2, t2)) \<Rightarrow>
        \<lparr>m_name = name, m_table = table,
         m_fields = [promote id_field, link_field n1 c1 1 t1 (targets t1), link_field n2 c2 2 t2 (targets t2)],
         m_pk = Some 0, m_by_name = [''ID'' \<mapsto> 0, n1 \<mapsto> 1, n2 \<mapsto> 2],
         m_by_column = [''id'' \<mapsto> 0, c1 \<mapsto> 1, c2 \<mapsto> 2], m_go_type = RType ''auth'' name\<rparr>)"

definition user_link :: "string \<times> string \<times> rtype" where
  "user_link = (''User'', ''user_id'', user_type)"

definition group_link :: "string \<times> string \<times> rtype" where
  "group_link = (''Group'', ''group_id'', group_type)"

definition permission_link :: "string \<times> string \<times> rtype" where
  "permission_link = (''Permission'', ''permission_id'', permission_type)"

definition user_group_model :: "(rtype \<Rightarrow> nat option) \<Rightarrow> model" where
  "user_group_model = link_model ''UserGroup'' ''usergroup'' user_link group_link"

definition user_permission_model :: "(rtype \<Rightarrow> nat option) \<Rightarrow> model" where
  "user_permission_model = link_model ''UserPermission'' ''userpermission'' user_link permission_link"

definition group_permission_model :: "(rtype \<Rightarrow> nat option) \<Rightarrow> model" where
  "group_permission_model = link_model ''GroupPermission'' ''grouppermission'' group_link permission_link"

definition int_field :: "nat \<Rightarrow> struct_val \<Rightarrow> int" where
  "int_field i obj = (case obj ! i of VInt k n \<Rightarrow> n | _ \<Rightarrow> 0)"

definition bool_at :: "nat \<Rightarrow> struct_val \<Rightarrow> bool" where
  "bool_at i obj \<longleftrightarrow> obj ! i = VBool True"

abbreviation user_id :: "struct_val \<Rightarrow> int" where "user_id \<equiv> int_field 0"
abbreviation is_active :: "struct_val \<Rightarrow> bool" where "is_active \<equiv> bool_at 4"
abbreviation is_staff :: "struct_val \<Rightarrow> bool" where "is_staff \<equiv> bool_at 5"
abbreviation is_superuser :: "struct_val \<Rightarrow> bool" where "is_superuser \<equiv> bool_at 6"

subsection \<open>Passwords\<close>

type_synonym kdf = "string \<Rightarrow> string \<Rightarrow> nat \<Rightarrow> nat \<Rightarrow> string option"

datatype hash_error = NoRandom | KeyDerivation

definition key_len :: nat where
  "key_len = 32"

definition algo_pbkdf2_sha256 :: string where
  "algo_pbkdf2_sha256 = ''pbkdf2_sha256''"

definition make_password :: "kdf \<Rightarrow> nat \<Rightarrow> string option \<Rightarrow> string \<Rightarrow> hash_error + string" where
  "make_password kdf iterations rnd raw =
     (case rnd of
        None \<Rightarrow> Inl NoRandom
      | Some saltBytes \<Rightarrow>
          (let salt = std_encode64 saltBytes
           in case kdf raw salt iterations key_len of
                None \<Rightarrow> Inl KeyDerivation
              | Some dk \<Rightarrow>
                  Inr (algo_pbkdf2_sha256 @ ''$'' @ utoa iterations @ ''$'' @ salt @ ''$'' @ std_encode64 dk)))"

definition check_password :: "kdf \<Rightarrow> string \<Rightarrow> string \<Rightarrow> bool" where
  "check_password kdf raw encoded =
     (case Split encoded CHR ''$'' of
        [algo, iterStr, salt, want] \<Rightarrow>
          (if algo \<noteq> algo_pbkdf2_sha256 then False
           else
             (case parse_int64 iterStr of
                None \<Rightarrow> False
              | Some iter \<Rightarrow>
                  if iter \<le> 0 then False
                  else
                    (case std_decode64 want of
                       None \<Rightarrow> False
                     | Some wantBytes \<Rightarrow>
                         (case kdf raw salt (nat iter) (length wantBytes) of
                            None \<Rightarrow> False
                          | Some dk \<Rightarrow> dk = wantBytes))))
      | _ \<Rightarrow> False)"

definition set_password ::
  "kdf \<Rightarrow> nat \<Rightarrow> string option \<Rightarrow> string \<Rightarrow> struct_val \<Rightarrow> hash_error + struct_val" where
  "set_password kdf iterations rnd raw u =
     (case make_password kdf iterations rnd raw of
        Inl e \<Rightarrow> Inl e
      | Inr encoded \<Rightarrow> Inr (u[2 := VString encoded]))"

definition user_check_password :: "kdf \<Rightarrow> string \<Rightarrow> struct_val \<Rightarrow> bool" where
  "user_check_password kdf raw u = (case u ! 2 of VString h \<Rightarrow> check_password kdf raw h | _ \<Rightarrow> False)"

subsection \<open>Login\<close>

definition session_user_key :: string where
  "session_user_key = ''_auth_user_id''"

definition login :: "string \<Rightarrow> struct_val \<Rightarrow> session \<Rightarrow> session" where
  "login rnd u sess = session_set session_user_key (u ! 0) (rotate rnd sess)"

definition logout :: "string \<Rightarrow> session \<Rightarrow> session" where
  "logout rnd sess = rotate rnd (session_clear sess)"

definition as_user_id :: "goval \<Rightarrow> int option" where
  "as_user_id raw =
     (case raw of
        VInt k v \<Rightarrow> if k = I64 \<or> k = IInt then Some v else None
      | VFloat i s \<Rightarrow> Some i
      | _ \<Rightarrow> None)"

definition user_from_session ::
  "'s env \<Rightarrow> go_ctx \<Rightarrow> session \<Rightarrow> 's \<Rightarrow> struct_val option \<times> 's" where
  "user_from_session en c sess s =
     (case session_get sess session_user_key of
        None \<Rightarrow> (None, s)
      | Some raw \<Rightarrow>
          (case as_user_id raw of
             None \<Rightarrow> (None, s)
           | Some uid \<Rightarrow>
               (case get_row en c [VString ''id'', VInt I64 uid] (new_query (en_db en) user_type) s of
                  (Inl e, s1) \<Rightarrow> (None, s1)
                | (Inr u, s1) \<Rightarrow> (if \<not> is_active u then None else Some u, s1))))"

text \<open>The middleware: the user that the context of the next handler carries, if any.\<close>

definition auth_middleware ::
  "'s env \<Rightarrow> go_ctx \<Rightarrow> session option \<Rightarrow> 's \<Rightarrow> struct_val option \<times> 's" where
  "auth_middleware en c sess s =
     (case sess of None \<Rightarrow> (None, s) | Some sess \<Rightarrow> user_from_session en c sess s)"

subsection \<open>Permissions\<close>

definition permission_ids ::
  "'s env \<Rightarrow> go_ctx \<Rightarrow> string \<Rightarrow> 's \<Rightarrow> (exec_error + int list) \<times> 's" where
  "permission_ids en c codename s =
     (case all_rows en c (Filter [VString ''codename'', VString codename]
                            (new_query (en_db en) permission_type)) s of
        (Inl e, s1) \<Rightarrow> (Inl e, s1)
      | (Inr perms, s1) \<Rightarrow> (Inr (map (int_field 0) perms), s1))"

definition user_group_ids ::
  "'s env \<Rightarrow> go_ctx \<Rightarrow> int \<Rightarrow> 's \<Rightarrow> (exec_error + int list) \<times> 's" where
  "user_group_ids en c userID s =
     (case all_rows en c (Filter [VString ''user_id'', VInt I64 userID]
                            (new_query (en_db en) (RType ''auth'' ''UserGroup''))) s of
        (Inl e, s1) \<Rightarrow> (Inl e, s1)
      | (Inr links, s1) \<Rightarrow> (Inr (map (\<lambda>l. fk_pk (l ! 2)) links), s1))"

definition exists_bool ::
  "'s env \<Rightarrow> go_ctx \<Rightarrow> queryset \<Rightarrow> 's \<Rightarrow> (exec_error + bool) \<times> 's" where
  "exists_bool en c q s =
     (case exists_row en c q s of
        (Inl e, s1) \<Rightarrow> (Inl e, s1)
      | (Inr v, s1) \<Rightarrow> (Inr (v = VBool True), s1))"

definition id_slice :: "int list \<Rightarrow> goval" where
  "id_slice ids = VSlice (map (VInt I64) ids)"

definition direct_query :: "orm_db \<Rightarrow> int \<Rightarrow> int list \<Rightarrow> queryset" where
  "direct_query db userID permIDs =
     Filter [VString ''user_id'', VInt I64 userID, VString ''permission_id__in'', id_slice permIDs]
       (new_query db (RType ''auth'' ''UserPermission''))"

definition group_query :: "orm_db \<Rightarrow> int list \<Rightarrow> int list \<Rightarrow> queryset" where
  "group_query db groupIDs permIDs =
     Filter [VString ''group_id__in'', id_slice groupIDs, VString ''permission_id__in'', id_slice permIDs]
       (new_query db (RType ''auth'' ''GroupPermission''))"

definition has_perm ::
  "'s env \<Rightarrow> go_ctx \<Rightarrow> struct_val \<Rightarrow> string \<Rightarrow> 's \<Rightarrow> (exec_error + bool) \<times> 's" where
  "has_perm en c u codename s =
     (if \<not> is_active u then (Inr False, s)
      else if is_superuser u then (Inr True, s)
      else
        (case permission_ids en c codename s of
           (Inl e, s1) \<Rightarrow> (Inl e, s1)
         | (Inr permIDs, s1) \<Rightarrow>
             if permIDs = [] then (Inr False, s1)
             else
               (case exists_bool en c (direct_query (en_db en) (user_id u) permIDs) s1 of
                  (Inl e, s2) \<Rightarrow> (Inl e, s2)
                | (Inr direct, s2) \<Rightarrow>
                    if direct then (Inr True, s2)
                    else
                      (case user_group_ids en c (user_id u) s2 of
                         (Inl e, s3) \<Rightarrow> (Inl e, s3)
                       | (Inr groupIDs, s3) \<Rightarrow>
                           if groupIDs = [] then (Inr False, s3)
                           else exists_bool en c (group_query (en_db en) groupIDs permIDs) s3))))"

subsection \<open>Guards\<close>

definition hex_digit :: "nat \<Rightarrow> char" where
  "hex_digit n = ''0123456789ABCDEF'' ! (n mod 16)"

definition query_unreserved :: "char \<Rightarrow> bool" where
  "query_unreserved c \<longleftrightarrow> is_upper c \<or> is_lower c \<or> is_digit c \<or> c \<in> set ''-_.~''"

text \<open>\<open>url.QueryEscape\<close>.\<close>

definition query_escape :: "string \<Rightarrow> string" where
  "query_escape s =
     concat (map (\<lambda>c. if query_unreserved c then [c] else if c = CHR '' '' then ''+''
                      else [CHR ''%'', hex_digit (code c div 16), hex_digit (code c mod 16)]) s)"

datatype guard = GoOn | RedirectTo string | Denied string nat

definition redirect_to_login :: "request \<Rightarrow> string \<Rightarrow> guard" where
  "redirect_to_login r loginURL = RedirectTo (loginURL @ ''?next='' @ query_escape (rq_path r))"

definition login_required :: "string \<Rightarrow> struct_val option \<Rightarrow> request \<Rightarrow> guard" where
  "login_required loginURL user r =
     (case user of None \<Rightarrow> redirect_to_login r loginURL | Some u \<Rightarrow> GoOn)"

definition permission_required ::
  "'s env \<Rightarrow> go_ctx \<Rightarrow> string \<Rightarrow> string \<Rightarrow> struct_val option \<Rightarrow> request \<Rightarrow> 's \<Rightarrow> guard \<times> 's" where
  "permission_required en c codename loginURL user r s =
     (case user of
        None \<Rightarrow> (redirect_to_login r loginURL, s)
      | Some u \<Rightarrow>
          (case has_perm en c u codename s of
             (Inl e, s1) \<Rightarrow> (Denied ''permission check failed'' 500, s1)
           | (Inr allowed, s1) \<Rightarrow> (if \<not> allowed then Denied ''forbidden'' 403 else GoOn, s1)))"

subsection \<open>Creating users\<close>

datatype create_error = EmptyUsername | UserExists | UserOrm exec_error | UserHash hash_error

definition create_user ::
  "'s env \<Rightarrow> go_ctx \<Rightarrow> kdf \<Rightarrow> nat \<Rightarrow> string option \<Rightarrow> gotime \<Rightarrow> string \<Rightarrow> string \<Rightarrow> string \<Rightarrow> bool \<Rightarrow> bool \<Rightarrow> bool \<Rightarrow> 's \<Rightarrow>
     (create_error + struct_val) \<times> 's"
where
  "create_user en c kdf iterations rnd now username email password isStaff isSuperuser isActive s =
     (if username = [] then (Inl EmptyUsername, s)
      else
        (case get_row en c [VString ''username'', VString username] (new_query (en_db en) user_type) s of
           (Inr u, s1) \<Rightarrow> (Inl UserExists, s1)
         | (Inl DoesNotExist, s1) \<Rightarrow>
             (case set_password kdf iterations rnd password
                     [VInt I64 0, VString username, VString [], VString email, VBool isActive, VBool isStaff,
                      VBool isSuperuser, VTime now] of
                Inl e \<Rightarrow> (Inl (UserHash e), s1)
              | Inr u \<Rightarrow>
                  (case create_row en c (new_query (en_db en) user_type) u s1 of
                     ((Some e, u1), s2) \<Rightarrow> (Inl (UserOrm e), s2)
                   | ((None, u1), s2) \<Rightarrow> (Inr u1, s2)))
         | (Inl e, s1) \<Rightarrow> (Inl (UserOrm e), s1)))"

definition create_superuser ::
  "'s env \<Rightarrow> go_ctx \<Rightarrow> kdf \<Rightarrow> nat \<Rightarrow> string option \<Rightarrow> gotime \<Rightarrow> string \<Rightarrow> string \<Rightarrow> string \<Rightarrow> 's \<Rightarrow>
     (create_error + struct_val) \<times> 's"
where
  "create_superuser en c kdf iterations rnd now username email password s =
     create_user en c kdf iterations rnd now username email password True True True s"

subsection \<open>The tables of permissions\<close>

text \<open>The rows of the four tables that \<open>HasPerm\<close> reads, and how they scan.\<close>

definition permission_row :: "goval list \<Rightarrow> bool" where
  "permission_row row \<longleftrightarrow>
     (\<exists>i c n t. int64_range i \<and> row = [VInt I64 i, VString c, VString n, VString t])"

definition link_row :: "goval list \<Rightarrow> bool" where
  "link_row row \<longleftrightarrow>
     (\<exists>i a b. int64_range i \<and> int64_range a \<and> int64_range b \<and> row = [VInt I64 i, VInt I64 a, VInt I64 b])"

definition link_object :: "goval list \<Rightarrow> struct_val" where
  "link_object row = [row ! 0, VFK (int_field 1 row) None, VFK (int_field 2 row) None]"

definition link_layout :: "rtype \<Rightarrow> rtype \<Rightarrow> gotype list" where
  "link_layout t1 t2 = [TInt I64, TFK t1, TFK t2]"

lemma wrap_int64: "int64_range n \<Longrightarrow> wrap_int I64 n = n"
  by (auto simp: int64_range_def intro: wrap_int_id)

lemma scan_int64: "int64_range n \<Longrightarrow> scan_value (TInt I64) (VInt I64 n) = Inr (VInt I64 n)"
  by (simp add: scan_value_def scan_int_def as_string_def parse_int_itoa wrap_int64)

lemma scan_permission_row:
  assumes "permission_row row"
  shows "scan_row [TInt I64, TString, TString, TString] permission_model row = Inr row"
proof -
  have "f_index (promote id_field) = 0" by (simp add: promote_def id_field_def)
  then show ?thesis
    using assms scan_int64
    by (auto simp: permission_row_def scan_row_def permission_model_def scan_value_def [of TString] scan_string_def
        as_string_def zero_struct_def char_field_def id_field_def eval_nat_numeral)
qed

lemma scan_link_row:
  assumes "link_row row"
  shows "scan_row (link_layout t1 t2) (link_model name table (n1, c1, u1) (n2, c2, u2) targets) row = Inr (link_object row)"
proof -
  have ix: "f_index (promote id_field) = 0" "f_index (link_field n c i t x) = i" for n c i t x
    by (simp_all add: promote_def id_field_def link_field_def)
  show ?thesis
    using assms scan_int64
    by (auto simp: link_row_def scan_row_def link_model_def scan_value_def [of "TFK _"] fk_scan_def link_layout_def
        zero_struct_def link_object_def int_field_def ix eval_nat_numeral)
qed

text \<open>The environment: the models are registered, with their layouts.\<close>

definition auth_env :: "'s env \<Rightarrow> (rtype \<Rightarrow> nat option) \<Rightarrow> bool" where
  "auth_env en targets \<longleftrightarrow>
     (let reg = db_registry (en_db en)
      in model_of reg (Some permission_type) = Some permission_model \<and>
         model_of reg (Some (RType ''auth'' ''UserPermission'')) = Some (user_permission_model targets) \<and>
         model_of reg (Some (RType ''auth'' ''UserGroup'')) = Some (user_group_model targets) \<and>
         model_of reg (Some (RType ''auth'' ''GroupPermission'')) = Some (group_permission_model targets) \<and>
         en_layouts en permission_type = [TInt I64, TString, TString, TString] \<and>
         en_layouts en (RType ''auth'' ''UserGroup'') = link_layout user_type group_type)"

record auth_tables =
  at_permissions :: "goval list list"
  at_user_permissions :: "goval list list"
  at_user_groups :: "goval list list"
  at_group_permissions :: "goval list list"

definition auth_rows :: "auth_tables \<Rightarrow> bool" where
  "auth_rows t \<longleftrightarrow> list_all permission_row (at_permissions t) \<and> list_all link_row (at_user_permissions t) \<and>
     list_all link_row (at_user_groups t) \<and> list_all link_row (at_group_permissions t)"

text \<open>The database answers the queries of \<open>HasPerm\<close> from the tables.\<close>

definition codename_query :: "orm_db \<Rightarrow> string \<Rightarrow> queryset" where
  "codename_query db codename = Filter [VString ''codename'', VString codename] (new_query db permission_type)"

definition user_groups_query :: "orm_db \<Rightarrow> int \<Rightarrow> queryset" where
  "user_groups_query db uid = Filter [VString ''user_id'', VInt I64 uid] (new_query db (RType ''auth'' ''UserGroup''))"

definition auth_answers :: "'s env \<Rightarrow> go_ctx \<Rightarrow> auth_tables \<Rightarrow> 's \<Rightarrow> bool" where
  "auth_answers en c t s \<longleftrightarrow>
     (\<forall>codename. select_answer en c (at_permissions t) (codename_query (en_db en) codename) s) \<and>
     (\<forall>uid. select_answer en c (at_user_groups t) (user_groups_query (en_db en) uid) s) \<and>
     (\<forall>uid ids. exists_answer en c (at_user_permissions t) (direct_query (en_db en) uid ids) s) \<and>
     (\<forall>gids ids. exists_answer en c (at_group_permissions t) (group_query (en_db en) gids ids) s)"

lemma auth_columns:
  "m_by_column permission_model ''codename'' = Some 1"
  "m_by_column (user_permission_model targets) ''user_id'' = Some 1"
  "m_by_column (user_permission_model targets) ''permission_id'' = Some 2"
  "m_by_column (user_group_model targets) ''user_id'' = Some 1"
  "m_by_column (group_permission_model targets) ''group_id'' = Some 1"
  "m_by_column (group_permission_model targets) ''permission_id'' = Some 2"
  by (simp_all add: permission_model_def user_permission_model_def user_group_model_def
      group_permission_model_def link_model_def user_link_def group_link_def permission_link_def)

lemma plain_columns:
  "LastIndex ''codename'' ''__'' = None" "LastIndex ''user_id'' ''__'' = None" "LastIndex ''id'' ''__'' = None"
  by code_simp+

text \<open>An IN lookup, with the suffix in the key as the source writes it.\<close>

lemma in_keys:
  "''permission_id__in'' = ''permission_id'' @ ''__in''" "''group_id__in'' = ''group_id'' @ ''__in''"
  by simp_all

lemma permission_ids_answer:
  assumes "auth_env en targets" and "auth_rows t" and "auth_answers en c t s"
  shows "permission_ids en c codename s =
    (Inr (map (int_field 0) (filter (\<lambda>p. p ! 1 = VString codename) (at_permissions t))), s)"
proof -
  have m: "model_of (db_registry (en_db en)) (Some permission_type) = Some permission_model"
    and lay: "en_layouts en (m_go_type permission_model) = [TInt I64, TString, TString, TString]"
    using assms(1) by (simp_all add: auth_env_def Let_def permission_model_def)
  have q: "simple_query permission_model (codename_query (en_db en) codename)"
    unfolding codename_query_def simple_Filter
    using simple_new_query [OF m] where_ok_exact [OF plain_columns(1) auth_columns(1)] by blast
  have scan: "rows_scan (en_layouts en (m_go_type permission_model)) permission_model (\<lambda>row. row) (at_permissions t)"
    using assms(2) by (auto simp: rows_scan_def lay auth_rows_def list_all_iff scan_permission_row)
  from all_rows_scan [OF q _ scan, of c s] assms(3)
  have "all_rows en c (codename_query (en_db en) codename) s =
      (Inr (filter (\<lambda>p. p ! 1 = VString codename) (at_permissions t)), s)"
    by (simp add: auth_answers_def codename_query_def m clause_exact [OF plain_columns(1) auth_columns(1)])
  then show ?thesis by (simp add: permission_ids_def codename_query_def)
qed

lemma user_group_ids_answer:
  assumes "auth_env en targets" and "auth_rows t" and "auth_answers en c t s"
  shows "user_group_ids en c uid s =
    (Inr (map (int_field 2) (filter (\<lambda>l. l ! 1 = VInt I64 uid) (at_user_groups t))), s)"
proof -
  let ?m = "user_group_model targets"
  have ty: "m_go_type ?m = RType ''auth'' ''UserGroup''"
    by (simp add: user_group_model_def link_model_def user_link_def group_link_def)
  have m: "model_of (db_registry (en_db en)) (Some (RType ''auth'' ''UserGroup'')) = Some ?m"
    and lay: "en_layouts en (m_go_type ?m) = link_layout user_type group_type"
    using assms(1) by (simp_all add: auth_env_def Let_def ty)
  have q: "simple_query ?m (user_groups_query (en_db en) uid)"
    unfolding user_groups_query_def simple_Filter
    using simple_new_query [OF m] where_ok_exact [OF plain_columns(2) auth_columns(4)] by blast
  have scan: "rows_scan (en_layouts en (m_go_type ?m)) ?m link_object (at_user_groups t)"
    unfolding lay using assms(2)
    by (auto simp: rows_scan_def auth_rows_def list_all_iff user_group_model_def user_link_def group_link_def
        intro: scan_link_row)
  from all_rows_scan [OF q _ scan, of c s] assms(3)
  have "all_rows en c (user_groups_query (en_db en) uid) s =
      (Inr (map link_object (filter (\<lambda>l. l ! 1 = VInt I64 uid) (at_user_groups t))), s)"
    by (simp add: auth_answers_def user_groups_query_def m clause_exact [OF plain_columns(2) auth_columns(4)])
  then show ?thesis
    by (simp add: user_group_ids_def user_groups_query_def link_object_def comp_def numeral_2_eq_2)
qed

lemma exists_direct:
  assumes "auth_env en targets" and "auth_answers en c t s"
  shows "exists_bool en c (direct_query (en_db en) uid ids) s =
    (Inr (\<exists>l \<in> set (at_user_permissions t). l ! 1 = VInt I64 uid \<and> l ! 2 \<in> VInt I64 ` set ids), s)"
proof -
  let ?m = "user_permission_model targets"
  have m: "model_of (db_registry (en_db en)) (Some (RType ''auth'' ''UserPermission'')) = Some ?m"
    using assms(1) by (simp add: auth_env_def Let_def)
  note c1 = clause_exact [OF plain_columns(2) auth_columns(2)] and c2 = clause_in [OF auth_columns(3)]
  have q: "simple_query ?m (direct_query (en_db en) uid ids)"
    unfolding direct_query_def Filter_two simple_Filter id_slice_def in_keys
    using simple_new_query [OF m] where_ok_exact [OF plain_columns(2) auth_columns(2)]
      where_ok_in [OF auth_columns(3)] by blast
  have "matching ?m (direct_query (en_db en) uid ids) (at_user_permissions t) =
      filter (\<lambda>l. l ! 1 = VInt I64 uid \<and> l ! 2 \<in> VInt I64 ` set ids) (at_user_permissions t)"
    unfolding direct_query_def Filter_two id_slice_def in_keys matching_simps matching_simps(1) [OF m] c1 c2
    by (simp add: conj_commute)
  moreover have "exists_answer en c (at_user_permissions t) (direct_query (en_db en) uid ids) s"
    using assms(2) by (simp add: auth_answers_def)
  note exists_row_answer [OF q this]
  ultimately show ?thesis by (auto simp: exists_bool_def filter_empty_conv)
qed

lemma exists_group:
  assumes "auth_env en targets" and "auth_answers en c t s"
  shows "exists_bool en c (group_query (en_db en) gids ids) s =
    (Inr (\<exists>l \<in> set (at_group_permissions t). l ! 1 \<in> VInt I64 ` set gids \<and> l ! 2 \<in> VInt I64 ` set ids), s)"
proof -
  let ?m = "group_permission_model targets"
  have m: "model_of (db_registry (en_db en)) (Some (RType ''auth'' ''GroupPermission'')) = Some ?m"
    using assms(1) by (simp add: auth_env_def Let_def)
  note c1 = clause_in [OF auth_columns(5)] and c2 = clause_in [OF auth_columns(6)]
  have q: "simple_query ?m (group_query (en_db en) gids ids)"
    unfolding group_query_def Filter_two simple_Filter id_slice_def in_keys
    using simple_new_query [OF m] where_ok_in [OF auth_columns(5)] where_ok_in [OF auth_columns(6)] by blast
  have "matching ?m (group_query (en_db en) gids ids) (at_group_permissions t) =
      filter (\<lambda>l. l ! 1 \<in> VInt I64 ` set gids \<and> l ! 2 \<in> VInt I64 ` set ids) (at_group_permissions t)"
    unfolding group_query_def Filter_two id_slice_def in_keys matching_simps matching_simps(1) [OF m] c1 c2
    by (simp add: conj_commute)
  moreover have "exists_answer en c (at_group_permissions t) (group_query (en_db en) gids ids) s"
    using assms(2) by (simp add: auth_answers_def)
  note exists_row_answer [OF q this]
  ultimately show ?thesis by (auto simp: exists_bool_def filter_empty_conv)
qed

subsection \<open>Properties\<close>

text \<open>What the tables grant: a permission of the codename that the user has, or one of the user's groups.\<close>

definition granted :: "auth_tables \<Rightarrow> int \<Rightarrow> string \<Rightarrow> bool" where
  "granted t uid codename \<longleftrightarrow>
     (\<exists>p \<in> set (at_permissions t). p ! 1 = VString codename \<and>
        ((\<exists>l \<in> set (at_user_permissions t). l ! 1 = VInt I64 uid \<and> l ! 2 = p ! 0) \<or>
         (\<exists>g \<in> set (at_user_groups t). g ! 1 = VInt I64 uid \<and>
            (\<exists>l \<in> set (at_group_permissions t). l ! 1 = g ! 2 \<and> l ! 2 = p ! 0))))"

lemma permission_row_id: "permission_row p \<Longrightarrow> VInt I64 (int_field 0 p) = p ! 0"
  by (auto simp: permission_row_def int_field_def)

lemma link_row_ids: "link_row l \<Longrightarrow> VInt I64 (int_field 2 l) = l ! 2"
  by (auto simp: link_row_def int_field_def)

lemma ids_image:
  "list_all permission_row ps \<Longrightarrow>
     VInt I64 ` set (map (int_field 0) (filter P ps)) = {p ! 0 |p. p \<in> set ps \<and> P p}"
  "list_all link_row ls \<Longrightarrow>
     VInt I64 ` set (map (int_field 2) (filter P ls)) = {l ! 2 |l. l \<in> set ls \<and> P l}"
  by (force simp: list_all_iff permission_row_id link_row_ids)+

text \<open>C18: \<open>HasPerm\<close> decides, in at most four queries, whether the tables grant the permission: an inactive
  user has none, an active superuser every one, any other active user exactly those linked to the user or
  to a group of the user; and it changes nothing.\<close>

theorem has_perm_iff:
  assumes "auth_env en targets" and "auth_rows t" and "auth_answers en c t s"
  shows "has_perm en c u codename s =
    (Inr (is_active u \<and> (is_superuser u \<or> granted t (user_id u) codename)), s)"
proof -
  define perms where "perms = map (int_field 0) (filter (\<lambda>p. p ! 1 = VString codename) (at_permissions t))"
  define groups where "groups = map (int_field 2) (filter (\<lambda>l. l ! 1 = VInt I64 (user_id u)) (at_user_groups t))"
  have rows: "list_all permission_row (at_permissions t)" "list_all link_row (at_user_groups t)"
    using assms(2) by (simp_all add: auth_rows_def)
  have perms_set: "VInt I64 ` set perms = {p ! 0 |p. p \<in> set (at_permissions t) \<and> p ! 1 = VString codename}"
    unfolding perms_def by (rule ids_image(1) [OF rows(1)])
  have groups_set: "VInt I64 ` set groups = {l ! 2 |l. l \<in> set (at_user_groups t) \<and> l ! 1 = VInt I64 (user_id u)}"
    unfolding groups_def by (rule ids_image(2) [OF rows(2)])
  define direct where "direct \<longleftrightarrow> (\<exists>l \<in> set (at_user_permissions t). l ! 1 = VInt I64 (user_id u) \<and> l ! 2 \<in> VInt I64 ` set perms)"
  define via_group where "via_group \<longleftrightarrow> (\<exists>l \<in> set (at_group_permissions t). l ! 1 \<in> VInt I64 ` set groups \<and> l ! 2 \<in> VInt I64 ` set perms)"
  have granted: "granted t (user_id u) codename \<longleftrightarrow> direct \<or> via_group"
    unfolding granted_def direct_def via_group_def perms_set groups_set by blast
  have none: "perms = [] \<Longrightarrow> \<not> direct \<and> \<not> via_group" "groups = [] \<Longrightarrow> \<not> via_group"
    by (simp_all add: direct_def via_group_def)
  have ids: "permission_ids en c codename s = (Inr perms, s)" "user_group_ids en c (user_id u) s = (Inr groups, s)"
    unfolding perms_def groups_def
    by (rule permission_ids_answer [OF assms], rule user_group_ids_answer [OF assms])
  have ex: "exists_bool en c (direct_query (en_db en) (user_id u) perms) s = (Inr direct, s)"
    "exists_bool en c (group_query (en_db en) groups perms) s = (Inr via_group, s)"
    unfolding direct_def via_group_def
    by (rule exists_direct [OF assms(1,3)], rule exists_group [OF assms(1,3)])
  show ?thesis
    unfolding has_perm_def granted
    by (simp only: ids ex prod.case sum.case) (use none in \<open>auto\<close>)
qed

text \<open>A database with one permission, given to user 3 and to no group, for the witness.\<close>

definition perm_tables :: auth_tables where
  "perm_tables = \<lparr>at_permissions = [[VInt I64 7, VString ''blog.add'', VString ''Can add'', VString ''blog'']],
     at_user_permissions = [[VInt I64 1, VInt I64 3, VInt I64 7]], at_user_groups = [], at_group_permissions = []\<rparr>"

definition perm_answer :: "string \<Rightarrow> goval list \<Rightarrow> goval list list" where
  "perm_answer sql args =
     (if HasPrefix sql (''SELECT EXISTS(SELECT 1 FROM '' @ sqlite_quote ''userpermission'') then
        [[VBool (hd args = VInt I64 3 \<and> VInt I64 7 \<in> set (tl args))]]
      else if HasPrefix sql ''SELECT EXISTS'' then [[VBool False]]
      else if args = [VString ''blog.add''] then at_permissions perm_tables
      else [])"

definition perm_driver :: "unit driver" where
  "perm_driver = \<lparr>drv_begin = (\<lambda>s. (None, s)), drv_commit = (\<lambda>s. (None, s)), drv_rollback = (\<lambda>s. s),
     drv_exec = (\<lambda>tx sql args s. (Inr \<lparr>er_last_insert_id = Inr 0, er_rows_affected = Inr 0\<rparr>, s)),
     drv_query = (\<lambda>tx sql args s. (Inr \<lparr>qr_rows = perm_answer sql args, qr_err = None\<rparr>, s))\<rparr>"

definition no_targets :: "rtype \<Rightarrow> nat option" where
  "no_targets t = None"

definition perm_registry :: registry where
  "perm_registry = \<lparr>reg_models = [permission_model, user_permission_model no_targets,
       user_group_model no_targets, group_permission_model no_targets],
     reg_by_type = [permission_type \<mapsto> 0, RType ''auth'' ''UserPermission'' \<mapsto> 1,
       RType ''auth'' ''UserGroup'' \<mapsto> 2, RType ''auth'' ''GroupPermission'' \<mapsto> 3],
     reg_by_name = Map.empty, reg_frozen = True\<rparr>"

definition perm_env :: "unit env" where
  "perm_env = \<lparr>en_db = \<lparr>db_dialect = sqlite, db_registry = perm_registry\<rparr>, en_driver = perm_driver,
     en_now = zero_time,
     en_layouts = (\<lambda>t. if t = permission_type then [TInt I64, TString, TString, TString]
       else link_layout user_type group_type), en_signals = new_signals\<rparr>"

lemma perm_env_auth: "auth_env perm_env no_targets"
  by (simp add: auth_env_def Let_def perm_env_def perm_registry_def model_of_def permission_type_def)

lemma perm_env_models:
  "model_of (db_registry (en_db perm_env)) (Some permission_type) = Some permission_model"
  "model_of (db_registry (en_db perm_env)) (Some (RType ''auth'' ''UserPermission'')) =
     Some (user_permission_model no_targets)"
  "model_of (db_registry (en_db perm_env)) (Some (RType ''auth'' ''UserGroup'')) = Some (user_group_model no_targets)"
  "model_of (db_registry (en_db perm_env)) (Some (RType ''auth'' ''GroupPermission'')) =
     Some (group_permission_model no_targets)"
  using perm_env_auth by (simp_all add: auth_env_def Let_def)

lemma perm_query:
  "conn_query (en_driver perm_env) c sql args s = (Inr \<lparr>qr_rows = perm_answer sql args, qr_err = None\<rparr>, s)"
  by (simp add: perm_env_def perm_driver_def conn_query_def)

lemma select_prefix:
  assumes "compile_select db q = Inr (sql, args)" and "q_select_related q = []" and "q_model q = Some m"
    and "m_fields m \<noteq> []" and "db_dialect db = sqlite"
  shows "\<not> HasPrefix sql ''SELECT EXISTS''"
proof -
  obtain f fs where f: "m_fields m = f # fs" using assms(4) by (cases "m_fields m") auto
  show ?thesis
    using assms(1)
    unfolding compile_select_def with_model_def Let_def assms(2,3,5)
    by (elim result_elims)
      (auto elim!: bind_err_InrE simp: f columns_def Join_Cons sqlite_def sqlite_quote_def split: if_splits)
qed

lemma perm_env_sqlite: "db_dialect (en_db perm_env) = sqlite"
  by (simp add: perm_env_def)

lemma not_exists_prefix: "\<not> HasPrefix sql ''SELECT EXISTS'' \<Longrightarrow> \<not> HasPrefix sql (''SELECT EXISTS(SELECT 1 FROM '' @ x)"
  by (auto simp: HasPrefix_iff)

lemma perm_codename_answer: "select_answer perm_env c (at_permissions perm_tables) (codename_query (en_db perm_env) k) s"
  unfolding select_answer_def
proof (intro allI impI)
  let ?q = "codename_query (en_db perm_env) k"
  fix m sql args
  assume m: "q_model ?q = Some m" and sel: "compile_select (en_db perm_env) ?q = Inr (sql, args)"
  have q: "q_model ?q = Some permission_model" "q_select_related ?q = []"
    "q_wheres ?q = [\<lparr>w_key = ''codename'', w_value = VString k, w_negate = False\<rparr>]"
    by (simp_all add: codename_query_def filter_pair_simps new_query_model [OF perm_env_models(1)])
  have fields: "m_fields permission_model \<noteq> []" by (simp add: permission_model_def)
  from select_prefix [OF sel q(2,1) fields perm_env_sqlite] have pre: "\<not> HasPrefix sql ''SELECT EXISTS''" .
  have args: "args = [VString k]"
    using compile_select_args [OF sel q(2,1)]
    by (auto simp: q(3) compile_where_def build_predicate_def Let_def parse_lookup_plain [OF plain_columns(1)]
        auth_columns(1))
  have lim: "limited ?q xs = xs" for xs :: "goval list list" by (simp add: codename_query_def)
  have match: "matching permission_model ?q rows = filter (\<lambda>p. p ! 1 = VString k) rows" for rows
    by (simp add: codename_query_def perm_env_models(1) clause_exact [OF plain_columns(1) auth_columns(1)])
  from m have "m = permission_model" by (simp add: q(1))
  then show "conn_query (en_driver perm_env) c sql args s =
      (Inr \<lparr>qr_rows = limited ?q (matching m ?q (at_permissions perm_tables)), qr_err = None\<rparr>, s)"
    by (simp add: perm_query lim match perm_answer_def pre not_exists_prefix [OF pre, simplified] args)
      (auto simp: perm_tables_def)
qed

lemma perm_user_groups_answer: "select_answer perm_env c [] (user_groups_query (en_db perm_env) uid) s"
  unfolding select_answer_def
proof (intro allI impI)
  let ?q = "user_groups_query (en_db perm_env) uid"
  fix m sql args
  assume m: "q_model ?q = Some m" and sel: "compile_select (en_db perm_env) ?q = Inr (sql, args)"
  have q: "q_model ?q = Some (user_group_model no_targets)" "q_select_related ?q = []"
    "q_wheres ?q = [\<lparr>w_key = ''user_id'', w_value = VInt I64 uid, w_negate = False\<rparr>]"
    by (simp_all add: user_groups_query_def filter_pair_simps new_query_model [OF perm_env_models(3)])
  have fields: "m_fields (user_group_model no_targets) \<noteq> []"
    by (simp add: user_group_model_def link_model_def user_link_def group_link_def)
  from select_prefix [OF sel q(2,1) fields perm_env_sqlite] have pre: "\<not> HasPrefix sql ''SELECT EXISTS''" .
  have args: "args = [VInt I64 uid]"
    using compile_select_args [OF sel q(2,1)]
    by (auto simp: q(3) compile_where_def build_predicate_def Let_def parse_lookup_plain [OF plain_columns(2)]
        auth_columns(4))
  show "conn_query (en_driver perm_env) c sql args s =
      (Inr \<lparr>qr_rows = limited ?q (matching m ?q []), qr_err = None\<rparr>, s)"
    by (simp add: perm_query perm_answer_def pre not_exists_prefix [OF pre, simplified] args limited_def matching_def)
qed

lemma perm_direct_answer:
  "exists_answer perm_env c (at_user_permissions perm_tables) (direct_query (en_db perm_env) uid ids) s"
  unfolding exists_answer_def
proof (intro allI impI)
  let ?m = "user_permission_model no_targets" and ?q = "direct_query (en_db perm_env) uid ids"
  fix m sql args
  assume m: "q_model ?q = Some m" and sel: "compile_exists (en_db perm_env) ?q = Inr (sql, args)"
  have q: "q_model ?q = Some ?m" "q_err ?q = None"
    "q_wheres ?q = [\<lparr>w_key = ''user_id'', w_value = VInt I64 uid, w_negate = False\<rparr>,
       \<lparr>w_key = ''permission_id__in'', w_value = id_slice ids, w_negate = False\<rparr>]"
    by (simp_all add: direct_query_def Filter_two filter_pair_simps new_query_model [OF perm_env_models(2)])
  have pl: "parse_lookup ''permission_id__in'' = (''permission_id'', ''in'')" by code_simp
  have table: "m_table ?m = ''userpermission''"
    by (simp add: user_permission_model_def link_model_def user_link_def permission_link_def)
  obtain wh where wh: "compile_where sqlite ?m (q_wheres ?q) [] 0 = Inr (wh, args)"
    and sql: "sql = ''SELECT EXISTS(SELECT 1 FROM '' @ sqlite_quote ''userpermission'' @ wh @ '')''"
    using sel unfolding compile_exists_def with_model_def q(1,2) Let_def perm_env_sqlite
    by (auto elim!: bind_err_InrE simp: sqlite_def table)
  have pre: "HasPrefix sql (''SELECT EXISTS(SELECT 1 FROM '' @ sqlite_quote ''userpermission'')"
    by (simp add: sql HasPrefix_iff)
  have args: "args = VInt I64 uid # map (VInt I64) ids"
    using wh by (auto simp: q(3) compile_where_def build_predicate_def Let_def auth_columns
        parse_lookup_plain [OF plain_columns(2)] pl id_slice_def slice_elems_def split: if_splits)
  have "matching ?m ?q (at_user_permissions perm_tables) \<noteq> [] \<longleftrightarrow> uid = 3 \<and> VInt I64 7 \<in> set (map (VInt I64) ids)"
    unfolding direct_query_def Filter_two id_slice_def in_keys matching_simps matching_simps(1) [OF perm_env_models(2)]
      clause_exact [OF plain_columns(2) auth_columns(2)] clause_in [OF auth_columns(3)]
    by (auto simp: perm_tables_def)
  moreover from m q(1) have "m = ?m" by simp
  ultimately show "conn_query (en_driver perm_env) c sql args s =
      (Inr \<lparr>qr_rows = [[VBool (matching m ?q (at_user_permissions perm_tables) \<noteq> [])]], qr_err = None\<rparr>, s)"
    unfolding perm_query perm_answer_def if_P [OF pre] args by simp
qed

lemma perm_group_answer: "exists_answer perm_env c [] (group_query (en_db perm_env) gids ids) s"
  unfolding exists_answer_def
proof (intro allI impI)
  let ?m = "group_permission_model no_targets" and ?q = "group_query (en_db perm_env) gids ids"
  fix m sql args
  assume m: "q_model ?q = Some m" and sel: "compile_exists (en_db perm_env) ?q = Inr (sql, args)"
  have q: "q_model ?q = Some ?m" "q_err ?q = None"
    by (simp_all add: group_query_def Filter_two filter_pair_simps new_query_model [OF perm_env_models(4)])
  have table: "m_table ?m = ''grouppermission''"
    by (simp add: group_permission_model_def link_model_def group_link_def permission_link_def)
  obtain wh where sql: "sql = ''SELECT EXISTS(SELECT 1 FROM '' @ sqlite_quote ''grouppermission'' @ wh @ '')''"
    using sel unfolding compile_exists_def with_model_def q(1,2) Let_def perm_env_sqlite
    by (auto elim!: bind_err_InrE simp: sqlite_def table)
  show "conn_query (en_driver perm_env) c sql args s =
      (Inr \<lparr>qr_rows = [[VBool (matching m ?q [] \<noteq> [])]], qr_err = None\<rparr>, s)"
    by (simp add: perm_query perm_answer_def sql sqlite_quote_def matching_def)
qed

lemma perm_answers: "auth_answers perm_env c perm_tables s"
  using perm_codename_answer perm_user_groups_answer perm_direct_answer perm_group_answer
  by (simp add: auth_answers_def perm_tables_def)

lemma perm_rows: "auth_rows perm_tables"
  by (simp add: auth_rows_def perm_tables_def permission_row_def link_row_def int64_range_def)

definition sample_user :: "int \<Rightarrow> struct_val" where
  "sample_user uid = [VInt I64 uid, VString ''ann'', VString [], VString [], VBool True, VBool False, VBool False,
     VTime zero_time]"

theorem has_perm_iff_witness:
  "fst (has_perm perm_env background (sample_user 3) ''blog.add'' ()) = Inr True \<and>
   fst (has_perm perm_env background (sample_user 4) ''blog.add'' ()) = Inr False"
  unfolding has_perm_iff [OF perm_env_auth perm_rows perm_answers]
  by (simp add: granted_def perm_tables_def sample_user_def int_field_def bool_at_def)

lemma check_made_password:
  assumes "\<And>p s i n k. kdf p s i n = Some k \<Longrightarrow> length k = n"
    and "0 < iterations" and "int iterations < 2 ^ 63"
    and "make_password kdf iterations (Some salt) raw = Inr encoded"
  shows "check_password kdf raw' encoded \<longleftrightarrow>
      kdf raw' (std_encode64 salt) iterations key_len = kdf raw (std_encode64 salt) iterations key_len"
proof -
  from assms(4) obtain dk where dk: "kdf raw (std_encode64 salt) iterations key_len = Some dk"
    and enc: "encoded = algo_pbkdf2_sha256 @ ''$'' @ utoa iterations @ ''$'' @ std_encode64 salt @ ''$'' @ std_encode64 dk"
    by (auto simp: make_password_def Let_def split: option.splits)
  have digits: "CHR ''$'' \<notin> set (utoa iterations)"
    using utoa_digits [of iterations] by (auto simp: list_all_iff is_digit_def code_def)
  have fields: "Split encoded CHR ''$'' = [algo_pbkdf2_sha256, utoa iterations, std_encode64 salt, std_encode64 dk]"
    unfolding enc using digits
    by (simp add: Split_append Split_single std_encode64_no_dollar algo_pbkdf2_sha256_def)
  have "parse_int64 (utoa iterations) = Some (int iterations)"
    using parse_int64_itoa [of "int iterations"] assms(3) by (simp add: itoa_def int64_range_def)
  with assms(1) [OF dk] assms(2) show ?thesis
    by (auto simp: check_password_def fields dk split: option.splits)
qed

text \<open>C26: A hash that \<open>MakePassword\<close> wrote is one of four fields that \<open>CheckPassword\<close> reads back: it accepts
  exactly the passwords whose derived key is that of the original, the original among them. Whatever the
  stored text is, what it accepts has four fields, the algorithm's name, a positive count and a key that it
  derives.\<close>

theorem password_roundtrip:
  assumes "\<And>p s i n k. kdf p s i n = Some k \<Longrightarrow> length k = n"
    and "0 < iterations" and "int iterations < 2 ^ 63"
    and "make_password kdf iterations (Some salt) raw = Inr encoded"
  shows "(check_password kdf raw' encoded \<longleftrightarrow>
      kdf raw' (std_encode64 salt) iterations key_len = kdf raw (std_encode64 salt) iterations key_len) \<and>
    (check_password kdf raw' stored \<longrightarrow>
      (\<exists>iter sa want key. stored = algo_pbkdf2_sha256 @ ''$'' @ iter @ ''$'' @ sa @ ''$'' @ want \<and>
         std_decode64 want = Some key \<and> (\<exists>n > 0. parse_int64 iter = Some (int n) \<and> kdf raw' sa n (length key) = Some key)))"
proof (intro conjI impI)
  show "check_password kdf raw' encoded \<longleftrightarrow>
      kdf raw' (std_encode64 salt) iterations key_len = kdf raw (std_encode64 salt) iterations key_len"
    by (rule check_made_password [OF assms])
next
  assume ok: "check_password kdf raw' stored"
  obtain algo iter sa want where f: "Split stored CHR ''$'' = [algo, iter, sa, want]"
    using ok by (auto simp: check_password_def split: list.splits)
  have stored: "stored = algo @ ''$'' @ iter @ ''$'' @ sa @ ''$'' @ want"
    using Join_Split [of stored "CHR ''$''"] by (simp add: f)
  from ok f obtain i key where "algo = algo_pbkdf2_sha256" "parse_int64 iter = Some i" "0 < i"
    "std_decode64 want = Some key" "kdf raw' sa (nat i) (length key) = Some key"
    by (auto simp: check_password_def split: if_splits option.splits)
  with stored show "\<exists>iter sa want key. stored = algo_pbkdf2_sha256 @ ''$'' @ iter @ ''$'' @ sa @ ''$'' @ want \<and>
      std_decode64 want = Some key \<and> (\<exists>n > 0. parse_int64 iter = Some (int n) \<and> kdf raw' sa n (length key) = Some key)"
    by (metis zero_less_nat_eq int_nat_eq less_imp_le)
qed

text \<open>A key derivation for the witness: the password, cut and padded to the length asked for.\<close>

definition pad_kdf :: kdf where
  "pad_kdf p s i n = Some (take n (p @ replicate n CHR ''x''))"

theorem password_roundtrip_witness:
  "\<exists>encoded. make_password pad_kdf 3 (Some ''salty'') ''secret'' = Inr encoded \<and>
     check_password pad_kdf ''secret'' encoded \<and> \<not> check_password pad_kdf ''public'' encoded"
proof -
  obtain encoded where e: "make_password pad_kdf 3 (Some ''salty'') ''secret'' = Inr encoded"
    by (simp add: make_password_def pad_kdf_def Let_def)
  have len: "pad_kdf p s i n = Some k \<Longrightarrow> length k = n" for p s i n k by (auto simp: pad_kdf_def)
  from password_roundtrip [of pad_kdf, OF len _ _ e]
  have "check_password pad_kdf raw' encoded \<longleftrightarrow>
      pad_kdf raw' (std_encode64 ''salty'') 3 key_len = pad_kdf ''secret'' (std_encode64 ''salty'') 3 key_len" for raw'
    by simp
  then show ?thesis by (simp add: e pad_kdf_def key_len_def)
qed



text \<open>\<open>Logout\<close> empties the session and gives it a new key, but nothing deletes the record of the old
  one: after the session is saved, the old cookie still loads everything it stood for, the user id included.\<close>

theorem logout_keeps_old_session:
  assumes "record_store_inv en js view rows s" and "record_live js (rows s) old = Some d"
    and "new_key rnd \<noteq> old" and "new_key rnd \<noteq> []"
    and "db_encode en js rnd' (logout rnd sess) s = ((Inr v, sess'), s1)"
  shows "record_live js (rows s1) v = Some Map.empty \<and>
    fst (db_decode en js old s1) = Inr \<lparr>ss_key = old, ss_data = d, ss_modified = False\<rparr>"
proof -
  note res = db_encode_result [OF assms(1,5)]
  have "v = new_key rnd" "ss_data (logout rnd sess) = Map.empty"
    using res assms(4) by (simp_all add: logout_def rotate_def session_clear_def)
  with res have live: "record_live js (rows s1) = (record_live js (rows s))(new_key rnd \<mapsto> Map.empty)"
    and inv: "record_store_inv en js view rows s1"
    by simp_all
  from live assms(2,3) have "record_live js (rows s1) old = Some d" by simp
  with inv db_decode_result [of en rows js s1 old] live \<open>v = new_key rnd\<close> show ?thesis
    by (simp add: record_store_inv_def)
qed

theorem logout_keeps_old_session_witness:
  "\<exists>sess' s1. db_encode session_env login_json [] (logout ''r'' (new_session\<lparr>ss_key := ''old''\<rparr>))
       [[VString ''old'', VString ''{7}'', VTime zero_time]] = ((Inr (new_key ''r''), sess'), s1) \<and>
     fst (db_decode session_env login_json ''old'' s1) =
       Inr \<lparr>ss_key = ''old'', ss_data = map_option float_view \<circ> login_data, ss_modified = False\<rparr>"
proof -
  let ?rows = "[[VString ''old'', VString ''{7}'', VTime zero_time]]"
  let ?sess = "logout ''r'' (new_session\<lparr>ss_key := ''old''\<rparr>)"
  have read: "js_unmarshal login_json ''{7}'' = Inr (map_option float_view \<circ> login_data)"
    by (simp add: login_json_def)
  have rows: "record_rows login_json ?rows" by (auto simp: record_rows_def record_row_def read)
  then have inv: "record_store_inv session_env login_json float_view (\<lambda>s. s) ?rows"
    by (simp add: record_store_inv_def session_env_record session_env_laws login_json_law)
  have key: "new_key ''r'' \<noteq> ''old''" "new_key ''r'' \<noteq> []" by code_simp+
  have "ss_key ?sess = new_key ''r''" "ss_data ?sess = Map.empty"
    by (simp_all add: logout_def rotate_def session_clear_def)
  then obtain sess' s1 where e: "db_encode session_env login_json [] ?sess ?rows = ((Inr (new_key ''r''), sess'), s1)"
    using session_env_encode [OF rows, of ?sess _ "new_key ''r''" "[]"] key by (auto simp: login_marshal)
  have "record_live login_json ?rows ''old'' = Some (map_option float_view \<circ> login_data)"
    by (simp add: record_live_def row_data_def read)
  from logout_keeps_old_session [OF inv this key e] e show ?thesis by auto
qed

end
