(* ===== verification/Web_Urls.thy ===== *)
theory Web_Urls
  imports Go_Values
begin

text \<open>
  The package \<open>urls\<close>: routes, \<open>Include\<close>, the router with its names, and \<open>Reverse\<close>. Handlers are values
  of any type. \<open>http.ServeMux\<close> panics when a pattern is invalid or conflicts with an earlier one; which
  do is a parameter of the router.
\<close>

record 'h route =
  ro_pattern :: string
  ro_name :: string
  ro_handler :: 'h

definition Path :: "string \<Rightarrow> 'h \<Rightarrow> string \<Rightarrow> 'h route" where
  "Path pattern h name = \<lparr>ro_pattern = pattern, ro_name = name, ro_handler = h\<rparr>"

definition split_method_path :: "string \<Rightarrow> string \<times> string" where
  "split_method_path pattern =
     (case IndexByte pattern CHR '' '' of
        None \<Rightarrow> ([], pattern)
      | Some idx \<Rightarrow>
          (let tok = take idx pattern; rest = drop (idx + 1) pattern
           in if HasPrefix rest ''/'' then (tok, rest) else ([], pattern)))"

definition join_prefix_path :: "string \<Rightarrow> string \<Rightarrow> string" where
  "join_prefix_path pre path =
     (let p = TrimLeft pre CHR ''/'';
          p = (if p \<noteq> [] \<and> \<not> HasSuffix p ''/'' then p @ ''/'' else p);
          pt = TrimLeft path CHR ''/''
      in ''/'' @ p @ pt)"

definition include_route :: "string \<Rightarrow> string \<Rightarrow> 'h route \<Rightarrow> 'h route" where
  "include_route pre namespace r =
     (let (meth, path) = split_method_path (ro_pattern r);
          newPath = join_prefix_path pre path;
          newPattern = (if meth \<noteq> [] then meth @ '' '' @ newPath else newPath);
          name = (if ro_name r \<noteq> [] \<and> namespace \<noteq> [] then namespace @ '':'' @ ro_name r else ro_name r)
      in \<lparr>ro_pattern = newPattern, ro_name = name, ro_handler = ro_handler r\<rparr>)"

definition Include :: "string \<Rightarrow> string \<Rightarrow> 'h route list \<Rightarrow> 'h route list" where
  "Include pre namespace routes = map (include_route pre namespace) routes"

subsection \<open>The router\<close>

record 'h router =
  rt_mux :: "(string \<times> 'h) list"
  rt_by_name :: "string \<rightharpoonup> string"

datatype router_error = DuplicateRouteName string | MuxPanic string

definition add_route ::
  "(string list \<Rightarrow> string \<Rightarrow> string option) \<Rightarrow> 'h router \<Rightarrow> 'h route \<Rightarrow> router_error + 'h router"
where
  "add_route conflict r route =
     (case conflict (map fst (rt_mux r)) (ro_pattern route) of
        Some msg \<Rightarrow> Inl (MuxPanic msg)
      | None \<Rightarrow>
          (let r1 = r\<lparr>rt_mux := rt_mux r @ [(ro_pattern route, ro_handler route)]\<rparr>
           in if ro_name route = [] then Inr r1
              else if rt_by_name r (ro_name route) \<noteq> None then Inl (DuplicateRouteName (ro_name route))
              else Inr (r1\<lparr>rt_by_name := (rt_by_name r)(ro_name route \<mapsto> ro_pattern route)\<rparr>)))"

definition new_router_checked ::
  "(string list \<Rightarrow> string \<Rightarrow> string option) \<Rightarrow> 'h route list \<Rightarrow> router_error + 'h router"
where
  "new_router_checked conflict routes =
     loop_err (add_route conflict) \<lparr>rt_mux = [], rt_by_name = Map.empty\<rparr> routes"

text \<open>\<open>NewRouter\<close> panics where \<open>NewRouterChecked\<close> returns an error.\<close>

datatype ('e, 'a) go_result = Value 'a | Panic 'e

definition new_router ::
  "(string list \<Rightarrow> string \<Rightarrow> string option) \<Rightarrow> 'h route list \<Rightarrow> (router_error, 'h router) go_result"
where
  "new_router conflict routes =
     (case new_router_checked conflict routes of Inl e \<Rightarrow> Panic e | Inr r \<Rightarrow> Value r)"

subsection \<open>Reverse\<close>

text \<open>
  The matches of \<open>\{[^{}$]+\}\<close>: the length of the name that ends at a closing brace, and the positions
  of all matches, left to right.
\<close>

definition name_char :: "char \<Rightarrow> bool" where
  "name_char c \<longleftrightarrow> c \<noteq> CHR ''{'' \<and> c \<noteq> CHR ''}'' \<and> c \<noteq> CHR ''$''"

definition match_name :: "string \<Rightarrow> nat option" where
  "match_name s =
     (let n = length (takeWhile name_char s)
      in if n > 0 \<and> HasPrefix (drop n s) ''}'' then Some n else None)"

function find_all :: "nat \<Rightarrow> string \<Rightarrow> (nat \<times> nat) list" where
  "find_all pos [] = []"
| "find_all pos (c # s) =
     (case (if c = CHR ''{'' then match_name s else None) of
        Some n \<Rightarrow> (pos, pos + n + 2) # find_all (pos + n + 2) (drop (n + 1) s)
      | None \<Rightarrow> find_all (pos + 1) s)"
  by pat_completeness auto
termination
  by (relation "measure (\<lambda>(pos, s). length s)") auto

datatype reverse_error = UnknownRouteName string | ArgCount string nat nat

definition substr :: "string \<Rightarrow> nat \<Rightarrow> nat \<Rightarrow> string" where
  "substr s i j = take (j - i) (drop i s)"

fun substitute :: "string \<Rightarrow> nat \<Rightarrow> (nat \<times> nat) list \<Rightarrow> goval list \<Rightarrow> string" where
  "substitute path pos ((i, j) # matches) (arg # args) =
     substr path pos i @ sprint arg @ substitute path j matches args"
| "substitute path pos matches args = drop pos path"

definition reverse :: "'h router \<Rightarrow> string \<Rightarrow> goval list \<Rightarrow> reverse_error + string" where
  "reverse r name args =
     (case rt_by_name r name of
        None \<Rightarrow> Inl (UnknownRouteName name)
      | Some pattern \<Rightarrow>
          (let path = ReplaceAll (snd (split_method_path pattern)) ''{$}'' [];
               matches = find_all 0 path
           in if length matches \<noteq> length args then Inl (ArgCount name (length matches) (length args))
              else Inr (substitute path 0 matches args)))"

subsection \<open>Prefixes\<close>

lemma TrimLeft_no_lead: "TrimLeft s x = [] \<or> hd (TrimLeft s x) \<noteq> x"
  by (induction s) auto

lemma TrimLeft_idem [simp]: "TrimLeft (TrimLeft s x) x = TrimLeft s x"
  using TrimLeft_no_lead [of s x] by (rule TrimLeft_id)

text \<open>A prefix without leading and with a trailing slash, unless it is empty.\<close>

definition norm_prefix :: "string \<Rightarrow> string" where
  "norm_prefix pre =
     (let p = TrimLeft pre CHR ''/'' in if p \<noteq> [] \<and> \<not> HasSuffix p ''/'' then p @ ''/'' else p)"

lemma join_prefix_path_norm:
  "join_prefix_path pre path = CHR ''/'' # norm_prefix pre @ TrimLeft path CHR ''/''"
  by (simp add: join_prefix_path_def norm_prefix_def Let_def)

lemma norm_prefix_no_lead: "norm_prefix pre = [] \<or> hd (norm_prefix pre) \<noteq> CHR ''/''"
  using TrimLeft_no_lead [of pre "CHR ''/''"] by (auto simp: norm_prefix_def Let_def)

lemma join_single_slash:
  "\<exists>r. join_prefix_path pre path = CHR ''/'' # r \<and> (r = [] \<or> hd r \<noteq> CHR ''/'')"
  using norm_prefix_no_lead [of pre] TrimLeft_no_lead [of path "CHR ''/''"]
  by (cases "norm_prefix pre = []") (auto simp: join_prefix_path_norm)

lemma TrimLeft_join: "TrimLeft (join_prefix_path pre path) CHR ''/'' = norm_prefix pre @ TrimLeft path CHR ''/''"
  using norm_prefix_no_lead [of pre] TrimLeft_no_lead [of path "CHR ''/''"]
  by (cases "norm_prefix pre = []") (auto simp: join_prefix_path_norm intro!: TrimLeft_id)

text \<open>A pattern put together from a method and a path is split there.\<close>

lemma split_method_path_join:
  "CHR '' '' \<notin> set meth \<Longrightarrow> meth \<noteq> [] \<Longrightarrow> split_method_path (meth @ '' '' @ CHR ''/'' # r) = (meth, CHR ''/'' # r)"
  using IndexByte_append [of "CHR '' ''" meth "CHR ''/'' # r"] by (simp add: split_method_path_def)

lemma split_method_path_meth:
  "split_method_path pattern = (meth, path) \<Longrightarrow> CHR '' '' \<notin> set meth"
  by (auto simp: split_method_path_def Let_def split: option.splits if_splits dest: IndexByte_Some)

lemma split_method_path_plain:
  "split_method_path pattern = ([], path) \<Longrightarrow> pattern = path \<or> pattern = '' '' @ path"
  by (auto simp: split_method_path_def Let_def split: option.splits if_splits dest!: IndexByte_Some)

lemma split_plain_slash: "CHR '' '' \<notin> set s \<Longrightarrow> split_method_path s = ([], s)"
  using IndexByte_None [of s "CHR '' ''"] by (simp add: split_method_path_def)

subsection \<open>Templates\<close>

text \<open>A path as its author writes it: literal text, parameters, the end-of-path anchor.\<close>

datatype piece = Lit string | Param string | Anchor

fun render_piece :: "piece \<Rightarrow> string" where
  "render_piece (Lit s) = s"
| "render_piece (Param n) = ''{'' @ n @ ''}''"
| "render_piece Anchor = ''{$}''"

fun piece_ok :: "piece \<Rightarrow> bool" where
  "piece_ok (Lit s) \<longleftrightarrow> CHR ''{'' \<notin> set s"
| "piece_ok (Param n) \<longleftrightarrow> n \<noteq> [] \<and> list_all name_char n"
| "piece_ok Anchor \<longleftrightarrow> True"

definition render :: "piece list \<Rightarrow> string" where
  "render ps = concat (map render_piece ps)"

definition is_param :: "piece \<Rightarrow> bool" where
  "is_param p \<longleftrightarrow> (case p of Param n \<Rightarrow> True | _ \<Rightarrow> False)"

fun fill :: "piece list \<Rightarrow> goval list \<Rightarrow> string" where
  "fill [] args = []"
| "fill (Lit s # ps) args = s @ fill ps args"
| "fill (Anchor # ps) args = fill ps args"
| "fill (Param n # ps) args = (case args of [] \<Rightarrow> [] | a # as \<Rightarrow> sprint a @ fill ps as)"

lemma render_simps [simp]: "render [] = []" "render (p # ps) = render_piece p @ render ps"
  by (simp_all add: render_def)

lemma ReplaceAll_skip:
  "CHR ''{'' \<notin> set s \<Longrightarrow> ReplaceAll (s @ rest) ''{$}'' [] = s @ ReplaceAll rest ''{$}'' []"
  by (induction s) auto

lemma name_char_no_open: "list_all name_char n \<Longrightarrow> CHR ''{'' \<notin> set n \<and> CHR ''$'' \<notin> set n \<and> CHR ''}'' \<notin> set n"
  by (induction n) (auto simp: name_char_def)

lemma remove_anchors:
  "list_all piece_ok ps \<Longrightarrow> ReplaceAll (render ps) ''{$}'' [] = render (filter (\<lambda>p. p \<noteq> Anchor) ps)"
proof (induction ps)
  case (Cons p ps)
  show ?case
  proof (cases p)
    case (Lit s)
    with Cons show ?thesis by (simp add: ReplaceAll_skip)
  next
    case (Param n)
    with Cons.prems obtain c m where n: "n = c # m" and c: "c \<noteq> CHR ''$''" and no: "CHR ''{'' \<notin> set (n @ ''}'')"
      using name_char_no_open [of n] by (cases n) auto
    from ReplaceAll_skip [OF no, of "render ps"] c Cons show ?thesis by (simp add: Param n)
  qed (use Cons in simp)
qed simp

lemma find_all_skip: "CHR ''{'' \<notin> set s \<Longrightarrow> find_all pos (s @ rest) = find_all (pos + length s) rest"
  by (induction s arbitrary: pos) auto

lemma match_name_param: "n \<noteq> [] \<Longrightarrow> list_all name_char n \<Longrightarrow> match_name (n @ CHR ''}'' # rest) = Some (length n)"
proof -
  assume "n \<noteq> []" and n: "list_all name_char n"
  have "takeWhile name_char (n @ CHR ''}'' # rest) = n"
    using n by (subst takeWhile_append2) (auto simp: list_all_iff name_char_def)
  with \<open>n \<noteq> []\<close> show ?thesis by (simp add: match_name_def)
qed

text \<open>The loop of \<open>Reverse\<close>: \<open>u\<close> is the text before the current match, read up to \<open>pos\<close>.\<close>

lemma substitute_render:
  "list_all piece_ok ps \<Longrightarrow> Anchor \<notin> set ps \<Longrightarrow> length args = length (filter is_param ps) \<Longrightarrow> pos \<le> length u \<Longrightarrow>
     length (find_all (length u) (render ps)) = length (filter is_param ps) \<and>
     substitute (u @ render ps) pos (find_all (length u) (render ps)) args = drop pos u @ fill ps args"
proof (induction ps arbitrary: u pos args)
  case (Cons p ps)
  show ?case
  proof (cases p)
    case (Lit s)
    with Cons.prems Cons.IH [of args pos "u @ s"] show ?thesis by (simp add: find_all_skip is_param_def)
  next
    case (Param n)
    with Cons.prems obtain a as where args: "args = a # as" by (cases args) (auto simp: is_param_def)
    let ?u = "u @ ''{'' @ n @ ''}''"
    have "find_all (length u) (render (p # ps)) = (length u, length ?u) # find_all (length ?u) (render ps)"
      using Cons.prems Param match_name_param [of n "render ps"] by (simp add: add.assoc)
    with Cons.IH [of as "length ?u" ?u] Cons.prems show ?thesis
      by (simp add: args Param is_param_def substr_def)
  qed (use Cons.prems in simp)
qed simp

lemma fill_filter: "fill (filter (\<lambda>p. p \<noteq> Anchor) ps) args = fill ps args"
  by (induction ps args rule: fill.induct) (auto split: list.splits)

lemma filter_param_anchor: "filter is_param (filter (\<lambda>p. p \<noteq> Anchor) ps) = filter is_param ps"
  by (induction ps) (auto simp: is_param_def)

lemma find_all_length:
  "list_all piece_ok ps \<Longrightarrow> Anchor \<notin> set ps \<Longrightarrow> length (find_all pos (render ps)) = length (filter is_param ps)"
  using substitute_render [of ps "replicate (length (filter is_param ps)) VNil" 0 "replicate pos CHR ''a''"]
  by simp

text \<open>Reading the arguments of a path back, by the segments of its template.\<close>

fun parse_url :: "piece list \<Rightarrow> string \<Rightarrow> string list option" where
  "parse_url [] url = (if url = [] then Some [] else None)"
| "parse_url (Lit s # ps) url = (if HasPrefix url s then parse_url ps (drop (length s) url) else None)"
| "parse_url (Anchor # ps) url = (if url = [] then parse_url ps url else None)"
| "parse_url (Param n # ps) url =
     (let seg = takeWhile (\<lambda>c. c \<noteq> CHR ''/'') url
      in if seg = [] then None else map_option ((#) seg) (parse_url ps (drop (length seg) url)))"

text \<open>Parameters fill whole segments: a slash, or the end, follows each; an anchor is last.\<close>

fun segmented :: "piece list \<Rightarrow> bool" where
  "segmented [] \<longleftrightarrow> True"
| "segmented (Lit s # ps) \<longleftrightarrow> segmented ps"
| "segmented (Anchor # ps) \<longleftrightarrow> ps = []"
| "segmented (Param n # ps) \<longleftrightarrow>
     (ps = [] \<or> ps = [Anchor] \<or> (\<exists>s qs. ps = Lit (CHR ''/'' # s) # qs)) \<and> segmented ps"

lemma parse_url_fill:
  "segmented ps \<Longrightarrow> length args = length (filter is_param ps) \<Longrightarrow>
   (\<forall>a \<in> set args. sprint a \<noteq> [] \<and> CHR ''/'' \<notin> set (sprint a)) \<Longrightarrow>
   parse_url ps (fill ps args) = Some (map sprint args)"
proof (induction ps args rule: fill.induct)
  case (4 n ps args)
  then obtain a as where args: "args = a # as" by (cases args) (auto simp: is_param_def)
  have "takeWhile (\<lambda>c. c \<noteq> CHR ''/'') (sprint a @ fill ps as) = sprint a"
    using 4(2,4) by (subst takeWhile_append2) (auto simp: args)
  with 4 show ?case by (auto simp: args is_param_def)
qed (auto simp: is_param_def)

subsection \<open>Names\<close>

lemma add_route_Inr:
  assumes "add_route conflict r route = Inr r'"
  shows "rt_mux r' = rt_mux r @ [(ro_pattern route, ro_handler route)] \<and>
    (if ro_name route = [] then rt_by_name r' = rt_by_name r
     else rt_by_name r (ro_name route) = None \<and> rt_by_name r' = (rt_by_name r)(ro_name route \<mapsto> ro_pattern route))"
  using assms unfolding add_route_def Let_def by (elim result_elims) auto

definition named :: "'h route list \<Rightarrow> 'h route list" where
  "named routes = filter (\<lambda>r. ro_name r \<noteq> []) routes"

lemma named_simps [simp]:
  "named [] = []" "named (r # rs) = (if ro_name r = [] then named rs else r # named rs)"
  "named (rs @ [r]) = named rs @ (if ro_name r = [] then [] else [r])"
  by (simp_all add: named_def)

lemma map_of_snoc: "k \<notin> fst ` set xs \<Longrightarrow> [k \<mapsto> v] ++ map_of xs = (map_of xs)(k \<mapsto> v)"
  using map_of_eq_None_iff [of xs k] by (auto simp: fun_eq_iff map_add_def split: option.splits)

text \<open>The loop of the router from any point: the routes added so far are \<open>prev\<close>.\<close>

lemma loop_add_route:
  "(\<forall>ps p. conflict ps p = None) \<Longrightarrow> rt_by_name r = map_of (map (\<lambda>x. (ro_name x, ro_pattern x)) (named prev)) \<Longrightarrow>
   distinct (map ro_name (named prev)) \<Longrightarrow>
   (if distinct (map ro_name (named (prev @ routes)))
    then \<exists>r'. loop_err (add_route conflict) r routes = Inr r' \<and>
      rt_mux r' = rt_mux r @ map (\<lambda>x. (ro_pattern x, ro_handler x)) routes \<and>
      rt_by_name r' = map_of (map (\<lambda>x. (ro_name x, ro_pattern x)) (named (prev @ routes)))
    else \<exists>n. loop_err (add_route conflict) r routes = Inl (DuplicateRouteName n))"
proof (induction routes arbitrary: r prev)
  case Nil
  then show ?case by simp
next
  case (Cons x routes)
  have none: "conflict ps p = None" for ps p using Cons.prems(1) by blast
  show ?case
  proof (cases "ro_name x \<noteq> [] \<and> ro_name x \<in> ro_name ` set (named prev)")
    case True
    then have "rt_by_name r (ro_name x) \<noteq> None"
      using Cons.prems(2) by (simp add: map_of_map_eq_None)
    then have "add_route conflict r x = Inl (DuplicateRouteName (ro_name x))"
      using True none by (simp add: add_route_def Let_def)
    moreover have "\<not> distinct (map ro_name (named (prev @ x # routes)))"
      using True by (auto simp: named_def image_iff)
    ultimately show ?thesis by simp
  next
    case False
    then have free: "ro_name x \<noteq> [] \<Longrightarrow> rt_by_name r (ro_name x) = None"
      using Cons.prems(2) by (simp add: map_of_map_eq_None)
    define r1 where "r1 = r\<lparr>rt_mux := rt_mux r @ [(ro_pattern x, ro_handler x)],
        rt_by_name := (if ro_name x = [] then rt_by_name r else (rt_by_name r)(ro_name x \<mapsto> ro_pattern x))\<rparr>"
    have add: "add_route conflict r x = Inr r1"
      using none free by (auto simp: add_route_def Let_def r1_def)
    have "rt_by_name r1 = map_of (map (\<lambda>x. (ro_name x, ro_pattern x)) (named (prev @ [x])))"
      using False Cons.prems(2) by (auto simp: r1_def map_of_snoc image_image)
    moreover have "distinct (map ro_name (named (prev @ [x])))"
      using False Cons.prems(3) by auto
    ultimately have ih: "if distinct (map ro_name (named ((prev @ [x]) @ routes)))
      then \<exists>r'. loop_err (add_route conflict) r1 routes = Inr r' \<and>
        rt_mux r' = rt_mux r1 @ map (\<lambda>x. (ro_pattern x, ro_handler x)) routes \<and>
        rt_by_name r' = map_of (map (\<lambda>x. (ro_name x, ro_pattern x)) (named ((prev @ [x]) @ routes)))
      else \<exists>n. loop_err (add_route conflict) r1 routes = Inl (DuplicateRouteName n)"
      by (rule Cons.IH [OF Cons.prems(1)])
    have mux: "rt_mux r1 = rt_mux r @ [(ro_pattern x, ro_handler x)]" by (simp add: r1_def)
    have app: "prev @ x # routes = (prev @ [x]) @ routes" by simp
    from ih show ?thesis unfolding app loop_err.simps add sum.case mux
      by (simp only: append_assoc append_Cons append_Nil list.map)
  qed
qed

subsection \<open>Properties\<close>


text \<open>A route with a method, two parameters and an anchor.\<close>

definition detail_route :: "nat route" where
  "detail_route = Path ''GET /posts/{year}/{slug}/{$}'' 1 ''blog:detail''"


text \<open>Include prefixes the path of every route, keeping its method and its handler, so that the path
  has one leading slash and the prefix none doubled, and puts the namespace before its name; nested
  includes put the outer prefix and namespace first.\<close>

theorem include_nests:
  assumes "split_method_path (ro_pattern r) = (meth, path)" and "CHR '' '' \<notin> set (path @ p1 @ p2)"
    and "include_route p1 n1 (include_route p2 n2 r) = r'"
  shows "split_method_path (ro_pattern r') =
      (meth, CHR ''/'' # norm_prefix p1 @ norm_prefix p2 @ TrimLeft path CHR ''/'') \<and>
    ro_handler r' = ro_handler r \<and>
    (ro_name r = [] \<longrightarrow> ro_name r' = []) \<and>
    (ro_name r \<noteq> [] \<longrightarrow> n1 \<noteq> [] \<longrightarrow> n2 \<noteq> [] \<longrightarrow> ro_name r' = n1 @ '':'' @ n2 @ '':'' @ ro_name r)"
proof -
  have trim: "CHR '' '' \<notin> set s \<Longrightarrow> CHR '' '' \<notin> set (TrimLeft s x)" for s x
    by (induction s) auto
  have norm: "CHR '' '' \<notin> set p \<Longrightarrow> CHR '' '' \<notin> set (norm_prefix p)" for p
    using trim [of p "CHR ''/''"] by (auto simp: norm_prefix_def Let_def)
  have join: "split_method_path (if meth \<noteq> [] then meth @ '' '' @ join_prefix_path p q else join_prefix_path p q) =
      (meth, join_prefix_path p q)" if "CHR '' '' \<notin> set (p @ q)" for p q
  proof (cases "meth = []")
    case True
    have "CHR '' '' \<notin> set (join_prefix_path p q)"
      using that norm [of p] trim [of q "CHR ''/''"] by (simp add: join_prefix_path_norm)
    with True split_plain_slash show ?thesis by simp
  next
    case False
    then show ?thesis
      using split_method_path_join [OF split_method_path_meth [OF assms(1)]]
      by (simp add: join_prefix_path_norm)
  qed
  have inner: "split_method_path (ro_pattern (include_route p2 n2 r)) = (meth, join_prefix_path p2 path)"
    using join [of p2 path] assms(1,2) by (simp add: include_route_def Let_def)
  have "CHR '' '' \<notin> set (p1 @ join_prefix_path p2 path)"
    using assms(2) norm [of p2] trim [of path "CHR ''/''"] by (simp add: join_prefix_path_norm)
  from join [OF this] inner have
    "split_method_path (ro_pattern r') = (meth, join_prefix_path p1 (join_prefix_path p2 path))"
    by (simp add: assms(3) [symmetric] include_route_def [of p1] Let_def)
  moreover have "join_prefix_path p1 (join_prefix_path p2 path) =
      CHR ''/'' # norm_prefix p1 @ norm_prefix p2 @ TrimLeft path CHR ''/''"
    by (subst join_prefix_path_norm) (simp add: TrimLeft_join)
  moreover have "ro_handler r' = ro_handler r \<and>
    (ro_name r = [] \<longrightarrow> ro_name r' = []) \<and>
    (ro_name r \<noteq> [] \<longrightarrow> n1 \<noteq> [] \<longrightarrow> n2 \<noteq> [] \<longrightarrow> ro_name r' = n1 @ '':'' @ n2 @ '':'' @ ro_name r)"
    by (simp add: assms(3) [symmetric] include_route_def Let_def case_prod_beta)
  ultimately show ?thesis by simp
qed

theorem include_nests_witness:
  "split_method_path (ro_pattern (include_route ''/api'' ''api'' (include_route ''blog/'' ''blog''
     (Path ''GET /{id}/'' (1 :: nat) ''detail'')))) = (''GET'', ''/api/blog/{id}/'')"
  using include_nests [of "Path ''GET /{id}/'' (1 :: nat) ''detail''" "''GET''" "''/{id}/''" "''/api''" "''blog/''" "''api''" "''blog''"]
  by (simp add: Path_def split_method_path_def norm_prefix_def HasSuffix_def)

text \<open>A router is built exactly when no name is given to two routes; it then serves every pattern with
  its handler, in order, and knows each name by the pattern of its route. (Where \<open>ServeMux\<close> itself has
  nothing against the patterns.)\<close>

theorem router_knows_every_name:
  assumes "\<forall>ps p. conflict ps p = None"
  shows "if distinct (map ro_name (named routes))
    then \<exists>r. new_router_checked conflict routes = Inr r \<and>
      rt_mux r = map (\<lambda>x. (ro_pattern x, ro_handler x)) routes \<and>
      (\<forall>x \<in> set routes. ro_name x \<noteq> [] \<longrightarrow> rt_by_name r (ro_name x) = Some (ro_pattern x)) \<and>
      (\<forall>n. n \<notin> ro_name ` set (named routes) \<longrightarrow> rt_by_name r n = None)
    else \<exists>n. new_router_checked conflict routes = Inl (DuplicateRouteName n)"
proof -
  have "map_of (map (\<lambda>x. (ro_name x, ro_pattern x)) (named routes)) (ro_name x) = Some (ro_pattern x)"
    if "distinct (map ro_name (named routes))" and "x \<in> set routes" and "ro_name x \<noteq> []" for x
    using that by (intro map_of_map_Some) (simp_all add: named_def)
  then show ?thesis
    using loop_add_route [OF assms, of "\<lparr>rt_mux = [], rt_by_name = Map.empty\<rparr>" "[]" routes]
    by (auto simp: new_router_checked_def map_of_map_eq_None)
qed

theorem router_knows_every_name_witness:
  "(\<exists>r. new_router_checked (\<lambda>ps p. None) [detail_route, Path ''/'' 2 [], Path ''/x/'' 3 []] = Inr r \<and>
      rt_by_name r ''blog:detail'' = Some (ro_pattern detail_route)) \<and>
   (\<exists>n. new_router_checked (\<lambda>ps p. None) [detail_route, detail_route] = Inl (DuplicateRouteName n))"
  using router_knows_every_name [of "\<lambda>ps p. None" "[detail_route, Path ''/'' 2 [], Path ''/x/'' 3 []]"]
    router_knows_every_name [of "\<lambda>ps p. None" "[detail_route, detail_route]"]
  by (auto simp: detail_route_def Path_def)

end
