(* ===== verification/Web_Csrf.thy ===== *)
theory Web_Csrf
  imports Web_Sessions
begin

text \<open>
  The package \<open>csrf\<close>: the token of a session, the origin check and the middleware. \<open>url.Parse\<close> is a
  parameter that returns scheme and host, or nothing on an error; the 32 random bytes of a new token are an
  argument. The middleware either answers 403 or calls the next handler with the token bound to the
  context, if there is one; the session it may have changed is returned.
\<close>

type_synonym url_parse = "string \<Rightarrow> (string \<times> string) option"

definition csrf_session_key :: string where
  "csrf_session_key = ''_csrf_token''"

definition csrf_form_field :: string where
  "csrf_form_field = ''csrfmiddlewaretoken''"

definition csrf_header_name :: string where
  "csrf_header_name = ''X-CSRFToken''"

definition safe_method :: "string \<Rightarrow> bool" where
  "safe_method m \<longleftrightarrow> m \<in> set [''GET'', ''HEAD'', ''OPTIONS'', ''TRACE'']"

definition new_token :: "string \<Rightarrow> string" where
  "new_token rnd = url_encode64 rnd"

definition request_scheme :: "request \<Rightarrow> string" where
  "request_scheme r = (if rq_tls r then ''https'' else ''http'')"

definition referer_ok :: "url_parse \<Rightarrow> request \<Rightarrow> bool" where
  "referer_ok parse r =
     (let referer = rq_header r ''Referer''
      in if referer = [] then False
         else (case parse referer of
                 None \<Rightarrow> False
               | Some (scheme, host) \<Rightarrow>
                   if scheme = [] \<or> host = [] then False
                   else if scheme \<noteq> ''https'' then False
                   else EqualFold host (rq_host r)))"

definition origin_or_referer_ok :: "url_parse \<Rightarrow> request \<Rightarrow> bool" where
  "origin_or_referer_ok parse r =
     (let origin = rq_header r ''Origin''
      in if origin \<noteq> [] then EqualFold origin (request_scheme r @ ''://'' @ rq_host r)
         else if rq_tls r then referer_ok parse r
         else True)"

definition submitted_token :: "request \<Rightarrow> string" where
  "submitted_token r =
     (let submitted = post_form_value r csrf_form_field
      in if submitted = [] then rq_header r csrf_header_name else submitted)"

definition validate_token :: "request \<Rightarrow> string \<Rightarrow> bool" where
  "validate_token r sessionToken =
     (if sessionToken = [] then False
      else if submitted_token r = [] then False
      else submitted_token r = sessionToken)"

definition session_token :: "session \<Rightarrow> string" where
  "session_token sess = (case session_get sess csrf_session_key of Some (VString t) \<Rightarrow> t | _ \<Rightarrow> [])"

definition bootstrap_token :: "string \<Rightarrow> session \<Rightarrow> string \<times> session" where
  "bootstrap_token rnd sess =
     (let t = session_token sess
      in if t = [] then (new_token rnd, session_set csrf_session_key (VString (new_token rnd)) sess)
         else (t, sess))"

datatype verdict = Forbidden | Passed "string option"

definition csrf_middleware ::
  "url_parse \<Rightarrow> string \<Rightarrow> request \<Rightarrow> session option \<Rightarrow> verdict \<times> session option" where
  "csrf_middleware parse rnd r sess =
     (let (sessionToken, sess1) =
            (case sess of
               None \<Rightarrow> ([], None)
             | Some s \<Rightarrow> (let (t, s1) = bootstrap_token rnd s in (t, Some s1)));
          bound = (case sess of None \<Rightarrow> None | Some s \<Rightarrow> Some sessionToken)
      in if safe_method (rq_method r) then (Passed bound, sess1)
         else if \<not> origin_or_referer_ok parse r then (Forbidden, sess1)
         else if \<not> validate_token r sessionToken then (Forbidden, sess1)
         else (Passed bound, sess1))"

subsection \<open>The token of a session\<close>

lemma session_token_set [simp]: "session_token (session_set csrf_session_key (VString t) s) = t"
  by (simp add: session_token_def session_set_def session_get_def)

lemma bootstrap_token_session:
  "rnd \<noteq> [] \<Longrightarrow> bootstrap_token rnd s = (t, s1) \<Longrightarrow>
    t \<noteq> [] \<and> session_token s1 = t \<and> (session_token s \<noteq> [] \<longrightarrow> t = session_token s \<and> s1 = s) \<and>
    (\<forall>k. k \<noteq> csrf_session_key \<longrightarrow> session_get s1 k = session_get s k)"
  by (auto simp: bootstrap_token_def Let_def new_token_def url_encode64_nonempty session_set_def
      session_get_def session_token_def split: if_splits)

subsection \<open>Properties\<close>

text \<open>C21: A request is let through exactly when its method is safe, or it has a session, comes from the
  site itself as far as its Origin or, over TLS, its Referer tells, and submits the token of that session,
  which is never empty. The session keeps its token from then on, and a request without a session or with
  another token never gets through with an unsafe method.\<close>

theorem csrf_passes_iff:
  assumes "rnd \<noteq> []" and "csrf_middleware parse rnd r sess = (v, sess1)"
  shows "(v \<noteq> Forbidden \<longleftrightarrow> safe_method (rq_method r) \<or>
      (\<exists>s. sess = Some s \<and> origin_or_referer_ok parse r \<and>
        submitted_token r = (if session_token s = [] then new_token rnd else session_token s))) \<and>
    (case sess of
       None \<Rightarrow> sess1 = None \<and> (v = Forbidden \<or> v = Passed None)
     | Some s \<Rightarrow> (\<exists>s1. sess1 = Some s1 \<and> session_token s1 \<noteq> [] \<and>
         (session_token s \<noteq> [] \<longrightarrow> s1 = s) \<and> (v = Forbidden \<or> v = Passed (Some (session_token s1))) \<and>
         (\<forall>k. k \<noteq> csrf_session_key \<longrightarrow> session_get s1 k = session_get s k)))"
proof (cases sess)
  case None
  with assms(2) show ?thesis
    by (auto simp: csrf_middleware_def validate_token_def split: if_splits)
next
  case (Some s)
  obtain t s1 where b: "bootstrap_token rnd s = (t, s1)" by fastforce
  from bootstrap_token_session [OF assms(1) b] have t: "t \<noteq> []" "session_token s1 = t"
    "session_token s \<noteq> [] \<longrightarrow> t = session_token s \<and> s1 = s"
    "\<forall>k. k \<noteq> csrf_session_key \<longrightarrow> session_get s1 k = session_get s k" by auto
  have eq: "t = (if session_token s = [] then new_token rnd else session_token s)"
    using b by (auto simp: bootstrap_token_def Let_def split: if_splits)
  have run: "csrf_middleware parse rnd r sess =
      (if safe_method (rq_method r) \<or> origin_or_referer_ok parse r \<and> submitted_token r = t
       then Passed (Some t) else Forbidden, Some s1)"
    unfolding csrf_middleware_def Some option.case b Let_def prod.case validate_token_def
    using t(1) by (cases "submitted_token r = t") simp_all
  from assms(2) run have v: "v = (if safe_method (rq_method r) \<or> origin_or_referer_ok parse r \<and>
      submitted_token r = t then Passed (Some t) else Forbidden)" and s: "sess1 = Some s1" by simp_all
  have "v \<noteq> Forbidden \<longleftrightarrow> safe_method (rq_method r) \<or>
      (\<exists>s. sess = Some s \<and> origin_or_referer_ok parse r \<and>
        submitted_token r = (if session_token s = [] then new_token rnd else session_token s))"
    unfolding v Some option.inject eq by simp
  moreover have "v = Forbidden \<or> v = Passed (Some (session_token s1))" by (simp add: v t(2))
  ultimately show ?thesis
    unfolding Some s option.case using t(1,3,4) t(2) by blast
qed

text \<open>A form posted with the token that an earlier response was given.\<close>

definition post_request :: "string \<Rightarrow> request" where
  "post_request token = plain_request\<lparr>rq_method := ''POST'',
     rq_header := (\<lambda>n. if n = ''Origin'' then ''http://example.org'' else []),
     rq_form := [(csrf_form_field, token)]\<rparr>"

theorem csrf_passes_iff_witness:
  "fst (csrf_middleware (\<lambda>u. None) ''r'' (post_request (new_token ''r''))
     (snd (csrf_middleware (\<lambda>u. None) ''r'' plain_request (Some new_session)))) \<noteq> Forbidden \<and>
   fst (csrf_middleware (\<lambda>u. None) ''s'' (post_request (new_token ''r'')) None) = Forbidden"
proof -
  let ?s1 = "session_set csrf_session_key (VString (new_token ''r'')) new_session"
  have s1: "snd (csrf_middleware (\<lambda>u. None) ''r'' plain_request (Some new_session)) = Some ?s1"
    by (simp add: csrf_middleware_def bootstrap_token_def session_token_def session_get_def new_session_def
        safe_method_def plain_request_def Let_def)
  have t: "session_token ?s1 = new_token ''r''" "new_token ''r'' \<noteq> []"
    by (simp_all add: new_token_def url_encode64_nonempty)
  have ok: "origin_or_referer_ok (\<lambda>u. None) (post_request (new_token ''r''))"
    "submitted_token (post_request (new_token ''r'')) = new_token ''r''" "\<not> safe_method ''POST''"
    "rq_method (post_request (new_token ''r'')) = ''POST''"
    using t(2) by (simp_all add: origin_or_referer_ok_def post_request_def plain_request_def request_scheme_def
        submitted_token_def post_form_value_def safe_method_def)
  obtain v s2 where v: "csrf_middleware (\<lambda>u. None) ''r'' (post_request (new_token ''r'')) (Some ?s1) = (v, s2)"
    by fastforce
  obtain v' s2' where v': "csrf_middleware (\<lambda>u. None) ''s'' (post_request (new_token ''r'')) None = (v', s2')"
    by fastforce
  from csrf_passes_iff [OF _ v] csrf_passes_iff [OF _ v'] t ok show ?thesis
    by (simp add: s1 v v')
qed

end
