(* ===== verification/Web_Admin.thy ===== *)
theory Web_Admin
  imports Web_ModelForms Web_Auth Web_Urls Web_Csrf
begin

text \<open>
  The package \<open>admin\<close>: the site with its registered models, the operations on their rows, and the views:
  login, index, changelist, add, change, delete. A view returns what it answers with, a page of the template
  engine being the template's name with its context; the engine is a function \<open>eng\<close> that may fail. The
  \<open>String\<close> methods of the model types, the key derivation and the random bytes are arguments.
\<close>

subsection \<open>The site\<close>

record model_admin =
  ma_list_display :: "string list"
  ma_ordering :: "string list"
  ma_search_fields :: "string list"
  ma_readonly_fields :: "string list"
  ma_exclude_fields :: "string list"

record admin_entry =
  ae_slug :: string
  ae_model :: model
  ae_admin :: model_admin

record admin_site =
  as_entries :: "admin_entry list"
  as_by_slug :: "string \<rightharpoonup> admin_entry"
  as_prefix :: string
  as_login_url :: string

definition new_admin_site :: admin_site where
  "new_admin_site = \<lparr>as_entries = [], as_by_slug = Map.empty, as_prefix = ''/admin'',
     as_login_url = ''/admin/login/''\<rparr>"

definition admin_register :: "orm_db \<Rightarrow> rtype \<Rightarrow> model_admin \<Rightarrow> admin_site \<Rightarrow> (string, admin_site) go_result" where
  "admin_register db t ma site =
     (case model_of (db_registry db) (Some t) of
        None \<Rightarrow> Panic (''admin: Register: no ORM model registered for '' @ rt_name t)
      | Some m \<Rightarrow>
          (let slug = ToLower (m_name m);
               e = \<lparr>ae_slug = slug, ae_model = m, ae_admin = ma\<rparr>
           in Value (site\<lparr>as_entries := as_entries site @ [e], as_by_slug := (as_by_slug site)(slug \<mapsto> e)\<rparr>)))"

subsection \<open>Operations on rows\<close>

definition entry_type :: "admin_entry \<Rightarrow> rtype" where
  "entry_type e = m_go_type (ae_model e)"

definition ops_new :: "'s env \<Rightarrow> admin_entry \<Rightarrow> struct_val" where
  "ops_new en e = zero_struct (en_layouts en (entry_type e))"

definition ops_all ::
  "'s env \<Rightarrow> go_ctx \<Rightarrow> admin_entry \<Rightarrow> string list \<Rightarrow> 's \<Rightarrow> (exec_error + struct_val list) \<times> 's" where
  "ops_all en c e terms s =
     all_rows en c (fold (\<lambda>tm q. OrderBy [tm] q) terms (new_query (en_db en) (entry_type e))) s"

definition ops_get :: "'s env \<Rightarrow> go_ctx \<Rightarrow> admin_entry \<Rightarrow> int \<Rightarrow> 's \<Rightarrow> (exec_error + struct_val) \<times> 's" where
  "ops_get en c e pk s = get_row en c [VString ''id'', VInt I64 pk] (new_query (en_db en) (entry_type e)) s"

definition ops_create :: "'s env \<Rightarrow> go_ctx \<Rightarrow> admin_entry \<Rightarrow> struct_val \<Rightarrow> 's \<Rightarrow> exec_error option \<times> 's" where
  "ops_create en c e obj s =
     (case create_row en c (new_query (en_db en) (entry_type e)) obj s of ((err, obj'), s1) \<Rightarrow> (err, s1))"

text \<open>The fields that an update assigns: all but an automatic primary key.\<close>

definition assigned_fields :: "model \<Rightarrow> field list" where
  "assigned_fields m =
     map (\<lambda>i. m_fields m ! i)
       (filter (\<lambda>i. \<not> (m_pk m = Some i \<and> f_kind (m_fields m ! i) = KindAuto)) [0..<length (m_fields m)])"

definition update_pairs :: "model \<Rightarrow> struct_val \<Rightarrow> goval list" where
  "update_pairs m obj = concat (map (\<lambda>f. [VString (f_column f), obj ! f_index f]) (assigned_fields m))"

definition ops_update :: "'s env \<Rightarrow> go_ctx \<Rightarrow> admin_entry \<Rightarrow> int \<Rightarrow> struct_val \<Rightarrow> 's \<Rightarrow> exec_error option \<times> 's" where
  "ops_update en c e pk obj s =
     (case update_rows en c (update_pairs (ae_model e) obj)
             (Filter [VString ''id'', VInt I64 pk] (new_query (en_db en) (entry_type e))) s of
        (Inl err, s1) \<Rightarrow> (Some err, s1)
      | (Inr n, s1) \<Rightarrow> (None, s1))"

definition ops_del :: "'s env \<Rightarrow> go_ctx \<Rightarrow> admin_entry \<Rightarrow> int \<Rightarrow> 's \<Rightarrow> exec_error option \<times> 's" where
  "ops_del en c e pk s =
     (case delete_terminal en c (Filter [VString ''id'', VInt I64 pk] (new_query (en_db en) (entry_type e))) s of
        (Inl err, s1) \<Rightarrow> (Some err, s1)
      | (Inr n, s1) \<Rightarrow> (None, s1))"

subsection \<open>Cells\<close>

definition display_columns :: "admin_entry \<Rightarrow> field list" where
  "display_columns e =
     (if ma_list_display (ae_admin e) = [] then m_fields (ae_model e)
      else List.map_filter (field_by_name (ae_model e)) (ma_list_display (ae_admin e)))"

definition format_cell :: "goval \<Rightarrow> string" where
  "format_cell v = (case v of VFK pk obj \<Rightarrow> itoa pk | _ \<Rightarrow> sprint v)"

definition fk_cell_label :: "goval \<Rightarrow> (string \<rightharpoonup> string) \<Rightarrow> string" where
  "fk_cell_label v labels =
     (case v of
        VFK pk obj \<Rightarrow>
          (if pk = 0 then []
           else (case labels (itoa pk) of Some lab \<Rightarrow> lab | None \<Rightarrow> itoa pk))
      | _ \<Rightarrow> format_cell v)"

text \<open>\<open>reflect.Value.Int\<close> panics on a value that is no signed integer.\<close>

definition pk_of :: "admin_entry \<Rightarrow> struct_val \<Rightarrow> int option" where
  "pk_of e obj =
     (case primary_key (ae_model e) of
        None \<Rightarrow> Some 0
      | Some pk \<Rightarrow> (case obj ! f_index pk of VInt k n \<Rightarrow> Some n | _ \<Rightarrow> None))"

subsection \<open>Requests and answers\<close>

record admin_request = request +
  aq_path_value :: "string \<Rightarrow> string"
  aq_query :: url_values
  aq_post_form :: "url_values option"
  aq_user :: "struct_val option"
  aq_session :: "session option"
  aq_csrf_token :: string

datatype ctx_val = CText string | CNumber int | CTexts "string list" | CMaps "(string \<times> ctx_val) list list"

type_synonym page_ctx = "(string \<times> ctx_val) list"

type_synonym engine = "string \<Rightarrow> page_ctx \<Rightarrow> string option"

datatype reply =
    NotFoundReply
  | ErrorReply string nat
  | RedirectReply string
  | PageReply string page_ctx string
  | PanicReply string

definition render_page :: "engine \<Rightarrow> string \<Rightarrow> page_ctx \<Rightarrow> reply" where
  "render_page eng name ctx =
     (case eng name ctx of Some body \<Rightarrow> PageReply name ctx body | None \<Rightarrow> ErrorReply ''template error'' 500)"

type_synonym stringers = "rtype \<Rightarrow> (instance_val \<Rightarrow> string) option"

definition object_label :: "stringers \<Rightarrow> admin_entry \<Rightarrow> struct_val \<Rightarrow> string" where
  "object_label str e obj = label (str (entry_type e)) (ae_model e) (StructInstance obj)"

subsection \<open>Login\<close>

definition safe_next :: "string \<Rightarrow> string" where
  "safe_next n = (if HasPrefix n ''/'' \<and> \<not> HasPrefix n ''//'' then n else [])"

definition render_login :: "admin_site \<Rightarrow> engine \<Rightarrow> admin_request \<Rightarrow> string \<Rightarrow> string \<Rightarrow> reply" where
  "render_login site eng r n errMsg =
     render_page eng ''login.html''
       [(''csrf_token'', CText (aq_csrf_token r)), (''action'', CText (as_login_url site)), (''next'', CText n),
        (''error'', CText errMsg), (''prefix'', CText (as_prefix site))]"

definition login_post ::
  "admin_site \<Rightarrow> engine \<Rightarrow> 's env \<Rightarrow> go_ctx \<Rightarrow> kdf \<Rightarrow> string \<Rightarrow> admin_request \<Rightarrow> 's \<Rightarrow> (reply \<times> session option) \<times> 's"
where
  "login_post site eng en c kdf rnd r s =
     (case aq_post_form r of
        None \<Rightarrow> ((ErrorReply ''bad form'' 400, aq_session r), s)
      | Some form \<Rightarrow>
          (let n = safe_next (values_get form ''next''); username = values_get form ''username'';
               password = values_get form ''password'';
               refused = render_login site eng r n
                 ''Please enter a correct username and password, or you are not staff.''
           in case get_row en c [VString ''username'', VString username] (new_query (en_db en) user_type) s of
                (Inl e, s1) \<Rightarrow> ((refused, aq_session r), s1)
              | (Inr user, s1) \<Rightarrow>
                  (if \<not> user_check_password kdf password user \<or> \<not> is_staff user \<or> \<not> is_active user
                   then ((refused, aq_session r), s1)
                   else
                     (case aq_session r of
                        None \<Rightarrow> ((ErrorReply ''no session'' 500, None), s1)
                      | Some sess \<Rightarrow>
                          ((RedirectReply (if n = [] then as_prefix site @ ''/'' else n),
                            Some (login rnd user sess)), s1)))))"

definition admin_login ::
  "admin_site \<Rightarrow> engine \<Rightarrow> 's env \<Rightarrow> go_ctx \<Rightarrow> kdf \<Rightarrow> string \<Rightarrow> admin_request \<Rightarrow> 's \<Rightarrow> (reply \<times> session option) \<times> 's"
where
  "admin_login site eng en c kdf rnd r s =
     (if rq_method r = ''POST'' then login_post site eng en c kdf rnd r s
      else ((render_login site eng r (safe_next (values_get (aq_query r) ''next'')) [], aq_session r), s))"

subsection \<open>Index and changelist\<close>

definition admin_index :: "admin_site \<Rightarrow> engine \<Rightarrow> reply" where
  "admin_index site eng =
     render_page eng ''index.html''
       [(''prefix'', CText (as_prefix site)),
        (''entries'', CMaps (map (\<lambda>e. [(''slug'', CText (ae_slug e)), (''name'', CText (m_name (ae_model e)))])
                              (as_entries site)))]"

text \<open>The labels of the relations among the columns: a query for each, none where it fails.\<close>

definition target_model :: "'s env \<Rightarrow> field \<Rightarrow> model option" where
  "target_model en f =
     (case f_rel f of
        None \<Rightarrow> None
      | Some rel \<Rightarrow> map_option (\<lambda>i. reg_models (db_registry (en_db en)) ! i) (rel_target rel))"

fun column_labels ::
  "'s env \<Rightarrow> go_ctx \<Rightarrow> stringers \<Rightarrow> field list \<Rightarrow> 's \<Rightarrow> (string \<rightharpoonup> string) list \<times> 's" where
  "column_labels en c str [] s = ([], s)"
| "column_labels en c str (f # fs) s =
     (case target_model en f of
        None \<Rightarrow> (case column_labels en c str fs s of (ls, s1) \<Rightarrow> (Map.empty # ls, s1))
      | Some m \<Rightarrow>
          (case labeled_rows en c (str (m_go_type m)) m s of
             (Inl e, s1) \<Rightarrow> (case column_labels en c str fs s1 of (ls, s2) \<Rightarrow> (Map.empty # ls, s2))
           | (Inr opts, s1) \<Rightarrow>
               (case column_labels en c str fs s1 of (ls, s2) \<Rightarrow> (map_of (rev opts) # ls, s2))))"

definition list_cell :: "struct_val \<Rightarrow> field \<times> (string \<rightharpoonup> string) \<Rightarrow> string" where
  "list_cell obj = (\<lambda>(f, labels).
     if f_rel f \<noteq> None then fk_cell_label (obj ! f_index f) labels else format_cell (obj ! f_index f))"

definition list_row ::
  "stringers \<Rightarrow> admin_entry \<Rightarrow> (field \<times> (string \<rightharpoonup> string)) list \<Rightarrow> struct_val \<Rightarrow> page_ctx option" where
  "list_row str e cols obj =
     (case pk_of e obj of
        None \<Rightarrow> None
      | Some pk \<Rightarrow>
          Some [(''pk'', CNumber pk), (''cells'', CTexts (map (list_cell obj) cols)),
                (''label'', CText (object_label str e obj))])"

definition admin_changelist ::
  "admin_site \<Rightarrow> engine \<Rightarrow> 's env \<Rightarrow> go_ctx \<Rightarrow> stringers \<Rightarrow> admin_request \<Rightarrow> 's \<Rightarrow> reply \<times> 's" where
  "admin_changelist site eng en c str r s =
     (case as_by_slug site (aq_path_value r ''model'') of
        None \<Rightarrow> (NotFoundReply, s)
      | Some e \<Rightarrow>
          (case ops_all en c e (ma_ordering (ae_admin e)) s of
             (Inl err, s1) \<Rightarrow> (ErrorReply ''failed to load rows'' 500, s1)
           | (Inr objs, s1) \<Rightarrow>
               (let cols = display_columns e
                in case column_labels en c str cols s1 of
                     (labels, s2) \<Rightarrow>
                       (case those (map (list_row str e (zip cols labels)) objs) of
                          None \<Rightarrow> (PanicReply ''reflect: call of reflect.Value.Int'', s2)
                        | Some rows \<Rightarrow>
                            (render_page eng ''changelist.html''
                               [(''prefix'', CText (as_prefix site)), (''slug'', CText (ae_slug e)),
                                (''model'', CText (m_name (ae_model e))), (''columns'', CTexts (map f_name cols)),
                                (''rows'', CMaps rows)], s2)))))"

subsection \<open>The form of an entry\<close>

definition excluded :: "admin_entry \<Rightarrow> string list" where
  "excluded e = ma_exclude_fields (ae_admin e) @ ma_readonly_fields (ae_admin e)"

fun populate_choices_of ::
  "'s env \<Rightarrow> go_ctx \<Rightarrow> stringers \<Rightarrow> string list \<Rightarrow> field list \<Rightarrow> form \<Rightarrow> 's \<Rightarrow> form \<times> 's" where
  "populate_choices_of en c str present [] form s = (form, s)"
| "populate_choices_of en c str present (mf # mfs) form s =
     (case target_model en mf of
        None \<Rightarrow> populate_choices_of en c str present mfs form s
      | Some m \<Rightarrow>
          (if f_name mf \<notin> set present then populate_choices_of en c str present mfs form s
           else
             (case labeled_rows en c (str (m_go_type m)) m s of
                (Inl e, s1) \<Rightarrow> populate_choices_of en c str present mfs form s1
              | (Inr opts, s1) \<Rightarrow> populate_choices_of en c str present mfs (set_choices (f_name mf) opts form) s1)))"

definition populate_choices ::
  "'s env \<Rightarrow> go_ctx \<Rightarrow> stringers \<Rightarrow> form \<Rightarrow> admin_entry \<Rightarrow> 's \<Rightarrow> form \<times> 's" where
  "populate_choices en c str form e s =
     populate_choices_of en c str (map ff_name (fm_fields form)) (relations (ae_model e)) form s"

definition form_for :: "'s env \<Rightarrow> go_ctx \<Rightarrow> stringers \<Rightarrow> admin_entry \<Rightarrow> 's \<Rightarrow> form \<times> 's" where
  "form_for en c str e s =
     populate_choices en c str (from_model (ae_model e) [with_exclude (excluded e)]) e s"

definition render_admin_form :: "admin_site \<Rightarrow> engine \<Rightarrow> admin_request \<Rightarrow> admin_entry \<Rightarrow> string \<Rightarrow> form \<Rightarrow> reply" where
  "render_admin_form site eng r e title form =
     render_page eng ''change_form.html''
       [(''title'', CText title), (''form_html'', CText (render_form form)), (''csrf_token'', CText (aq_csrf_token r)),
        (''action'', CText (rq_path r)), (''prefix'', CText (as_prefix site)), (''model'', CText (ae_slug e))]"

definition changelist_url :: "admin_site \<Rightarrow> admin_entry \<Rightarrow> string" where
  "changelist_url site e = as_prefix site @ ''/'' @ ae_slug e @ ''/''"

text \<open>What a failed \<open>PopulateStruct\<close> answers; the panics of reflection go through.\<close>

definition populate_failed :: "populate_error \<Rightarrow> reply" where
  "populate_failed e =
     (case e of ReflectPanic name \<Rightarrow> PanicReply name | _ \<Rightarrow> ErrorReply ''failed to populate object'' 500)"

subsection \<open>Add, change, delete\<close>

definition add_post ::
  "admin_site \<Rightarrow> engine \<Rightarrow> 's env \<Rightarrow> go_ctx \<Rightarrow> stringers \<Rightarrow> admin_request \<Rightarrow> admin_entry \<Rightarrow> 's \<Rightarrow> reply \<times> 's"
where
  "add_post site eng en c str r e s =
     (case aq_post_form r of
        None \<Rightarrow> (ErrorReply ''bad form'' 400, s)
      | Some data \<Rightarrow>
          (case form_for en c str e s of
             (form, s1) \<Rightarrow>
               (case is_valid (bind_form data form) of
                  (valid, form) \<Rightarrow>
                    (if \<not> valid then (render_admin_form site eng r e (''Add '' @ m_name (ae_model e)) form, s1)
                     else
                       (case populate_struct (ae_model e) (fm_cleaned form) (ops_new en e) of
                          Inl err \<Rightarrow> (populate_failed err, s1)
                        | Inr obj \<Rightarrow>
                            (case ops_create en c e obj s1 of
                               (Some err, s2) \<Rightarrow> (ErrorReply ''failed to create row'' 500, s2)
                             | (None, s2) \<Rightarrow> (RedirectReply (changelist_url site e), s2)))))))"

definition admin_add ::
  "admin_site \<Rightarrow> engine \<Rightarrow> 's env \<Rightarrow> go_ctx \<Rightarrow> stringers \<Rightarrow> admin_request \<Rightarrow> 's \<Rightarrow> reply \<times> 's" where
  "admin_add site eng en c str r s =
     (case as_by_slug site (aq_path_value r ''model'') of
        None \<Rightarrow> (NotFoundReply, s)
      | Some e \<Rightarrow>
          if rq_method r = ''POST'' then add_post site eng en c str r e s
          else (case form_for en c str e s of
                  (form, s1) \<Rightarrow> (render_admin_form site eng r e (''Add '' @ m_name (ae_model e)) form, s1)))"

definition load_failed :: "exec_error \<Rightarrow> reply" where
  "load_failed err = (if err = DoesNotExist then NotFoundReply else ErrorReply ''failed to load row'' 500)"

definition change_post ::
  "admin_site \<Rightarrow> engine \<Rightarrow> 's env \<Rightarrow> go_ctx \<Rightarrow> stringers \<Rightarrow> admin_request \<Rightarrow> admin_entry \<Rightarrow> int \<Rightarrow> 's \<Rightarrow> reply \<times> 's"
where
  "change_post site eng en c str r e pk s =
     (case aq_post_form r of
        None \<Rightarrow> (ErrorReply ''bad form'' 400, s)
      | Some data \<Rightarrow>
          (case form_for en c str e s of
             (form, s1) \<Rightarrow>
               (case is_valid (bind_form data form) of
                  (valid, form) \<Rightarrow>
                    (if \<not> valid then (render_admin_form site eng r e (''Change '' @ m_name (ae_model e)) form, s1)
                     else
                       (case ops_get en c e pk s1 of
                          (Inl err, s2) \<Rightarrow> (load_failed err, s2)
                        | (Inr obj, s2) \<Rightarrow>
                            (case populate_struct (ae_model e) (fm_cleaned form) obj of
                               Inl err \<Rightarrow> (populate_failed err, s2)
                             | Inr obj \<Rightarrow>
                                 (case ops_update en c e pk obj s2 of
                                    (Some err, s3) \<Rightarrow> (ErrorReply ''failed to update row'' 500, s3)
                                  | (None, s3) \<Rightarrow> (RedirectReply (changelist_url site e), s3))))))))"

definition change_get ::
  "admin_site \<Rightarrow> engine \<Rightarrow> 's env \<Rightarrow> go_ctx \<Rightarrow> stringers \<Rightarrow> admin_request \<Rightarrow> admin_entry \<Rightarrow> int \<Rightarrow> 's \<Rightarrow> reply \<times> 's"
where
  "change_get site eng en c str r e pk s =
     (case ops_get en c e pk s of
        (Inl err, s1) \<Rightarrow> (load_failed err, s1)
      | (Inr obj, s1) \<Rightarrow>
          (case populate_choices en c str (from_struct (ae_model e) obj [with_exclude (excluded e)]) e s1 of
             (form, s2) \<Rightarrow> (render_admin_form site eng r e (''Change '' @ m_name (ae_model e)) form, s2)))"

text \<open>The entry and the key that the URL names, or not found.\<close>

definition with_object ::
  "admin_site \<Rightarrow> admin_request \<Rightarrow> (admin_entry \<Rightarrow> int \<Rightarrow> 's \<Rightarrow> reply \<times> 's) \<Rightarrow> 's \<Rightarrow> reply \<times> 's" where
  "with_object site r k s =
     (case as_by_slug site (aq_path_value r ''model'') of
        None \<Rightarrow> (NotFoundReply, s)
      | Some e \<Rightarrow>
          (case parse_int64 (aq_path_value r ''pk'') of None \<Rightarrow> (NotFoundReply, s) | Some pk \<Rightarrow> k e pk s))"

definition admin_change ::
  "admin_site \<Rightarrow> engine \<Rightarrow> 's env \<Rightarrow> go_ctx \<Rightarrow> stringers \<Rightarrow> admin_request \<Rightarrow> 's \<Rightarrow> reply \<times> 's" where
  "admin_change site eng en c str r s =
     with_object site r (if rq_method r = ''POST'' then change_post site eng en c str r
                         else change_get site eng en c str r) s"

definition delete_post ::
  "admin_site \<Rightarrow> 's env \<Rightarrow> go_ctx \<Rightarrow> admin_entry \<Rightarrow> int \<Rightarrow> 's \<Rightarrow> reply \<times> 's" where
  "delete_post site en c e pk s =
     (case ops_del en c e pk s of
        (Some err, s1) \<Rightarrow> (ErrorReply ''failed to delete row'' 500, s1)
      | (None, s1) \<Rightarrow> (RedirectReply (changelist_url site e), s1))"

definition delete_get ::
  "admin_site \<Rightarrow> engine \<Rightarrow> 's env \<Rightarrow> go_ctx \<Rightarrow> stringers \<Rightarrow> admin_request \<Rightarrow> admin_entry \<Rightarrow> int \<Rightarrow> 's \<Rightarrow> reply \<times> 's"
where
  "delete_get site eng en c str r e pk s =
     (case ops_get en c e pk s of
        (Inl err, s1) \<Rightarrow> (load_failed err, s1)
      | (Inr obj, s1) \<Rightarrow>
          (render_page eng ''delete_confirm.html''
             [(''title'', CText (''Delete '' @ m_name (ae_model e))), (''object'', CText (object_label str e obj)),
              (''csrf_token'', CText (aq_csrf_token r)), (''action'', CText (rq_path r)),
              (''prefix'', CText (as_prefix site)), (''model'', CText (ae_slug e))], s1))"

definition admin_delete ::
  "admin_site \<Rightarrow> engine \<Rightarrow> 's env \<Rightarrow> go_ctx \<Rightarrow> stringers \<Rightarrow> admin_request \<Rightarrow> 's \<Rightarrow> reply \<times> 's" where
  "admin_delete site eng en c str r s =
     with_object site r (if rq_method r = ''POST'' then delete_post site en c
                         else delete_get site eng en c str r) s"

subsection \<open>Routes\<close>

datatype admin_view = IndexView | ChangelistView | AddView | ChangeView | DeleteView

datatype admin_handler = LoginHandler | Staff admin_view

definition admin_routes :: "admin_site \<Rightarrow> admin_handler route list" where
  "admin_routes site =
     (let p = as_prefix site
      in [Path (as_login_url site @ ''{$}'') LoginHandler ''admin-login'',
          Path (p @ ''/{$}'') (Staff IndexView) ''admin-index'',
          Path (p @ ''/{model}/{$}'') (Staff ChangelistView) ''admin-changelist'',
          Path (p @ ''/{model}/add/{$}'') (Staff AddView) ''admin-add'',
          Path (p @ ''/{model}/{pk}/change/{$}'') (Staff ChangeView) ''admin-change'',
          Path (p @ ''/{model}/{pk}/delete/{$}'') (Staff DeleteView) ''admin-delete''])"

definition run_view ::
  "admin_site \<Rightarrow> engine \<Rightarrow> 's env \<Rightarrow> go_ctx \<Rightarrow> stringers \<Rightarrow> admin_view \<Rightarrow> admin_request \<Rightarrow> 's \<Rightarrow> reply \<times> 's" where
  "run_view site eng en c str v r s =
     (case v of
        IndexView \<Rightarrow> (admin_index site eng, s)
      | ChangelistView \<Rightarrow> admin_changelist site eng en c str r s
      | AddView \<Rightarrow> admin_add site eng en c str r s
      | ChangeView \<Rightarrow> admin_change site eng en c str r s
      | DeleteView \<Rightarrow> admin_delete site eng en c str r s)"

definition staff_required :: "admin_site \<Rightarrow> ('s \<Rightarrow> reply \<times> 's) \<Rightarrow> admin_request \<Rightarrow> 's \<Rightarrow> reply \<times> 's" where
  "staff_required site k r s =
     (case aq_user r of
        Some u \<Rightarrow>
          if is_staff u then k s
          else (RedirectReply (as_login_url site @ ''?next='' @ query_escape (rq_path r)), s)
      | None \<Rightarrow> (RedirectReply (as_login_url site @ ''?next='' @ query_escape (rq_path r)), s))"

definition run_handler ::
  "admin_site \<Rightarrow> engine \<Rightarrow> 's env \<Rightarrow> go_ctx \<Rightarrow> stringers \<Rightarrow> kdf \<Rightarrow> string \<Rightarrow> admin_handler \<Rightarrow> admin_request \<Rightarrow> 's \<Rightarrow>
     (reply \<times> session option) \<times> 's"
where
  "run_handler site eng en c str kdf rnd h r s =
     (case h of
        LoginHandler \<Rightarrow> admin_login site eng en c kdf rnd r s
      | Staff v \<Rightarrow>
          (case staff_required site (run_view site eng en c str v r) r s of
             (reply, s1) \<Rightarrow> ((reply, aq_session r), s1)))"

subsection \<open>Properties\<close>

text \<open>C31: Every admin page but the login runs only for a user whom the session authenticates and who is active
  and staff: for any other request it answers with a redirect to the login page that carries the escaped
  path, and changes neither the session nor the database.\<close>

theorem admin_pages_need_active_staff:
  assumes "ro \<in> set (admin_routes site)" and "ro_name ro \<noteq> ''admin-login''"
    and "aq_user r = fst (auth_middleware en c (aq_session r) s0)"
  shows "(run_handler site eng en c str kdf rnd (ro_handler ro) r s =
        ((RedirectReply (as_login_url site @ ''?next='' @ query_escape (rq_path r)), aq_session r), s)) \<or>
    (\<exists>sess raw uid u s1. aq_session r = Some sess \<and> session_get sess session_user_key = Some raw \<and>
       as_user_id raw = Some uid \<and>
       get_row en c [VString ''id'', VInt I64 uid] (new_query (en_db en) user_type) s0 = (Inr u, s1) \<and>
       aq_user r = Some u \<and> is_active u \<and> is_staff u)"
proof -
  obtain v where v: "ro_handler ro = Staff v"
    using assms(1,2) by (auto simp: admin_routes_def Let_def Path_def)
  show ?thesis
  proof (cases "\<exists>u. aq_user r = Some u \<and> is_staff u")
    case False
    then show ?thesis by (auto simp: run_handler_def v staff_required_def split: option.splits)
  next
    case True
    then obtain u where u: "aq_user r = Some u" "is_staff u" by blast
    with assms(3) obtain sess where "aq_session r = Some sess" "fst (user_from_session en c sess s0) = Some u"
      by (auto simp: auth_middleware_def split: option.splits)
    with u show ?thesis
      by (auto simp: user_from_session_def split: option.splits prod.splits sum.splits if_splits)
  qed
qed

text \<open>The fields of an entry's form.\<close>

lemma model_form_fields_excluded:
  assumes "fld \<in> set (model_form_fields m [with_exclude names])"
  shows "ff_name fld \<notin> set names"
proof -
  let ?cfg = "new_form_config [with_exclude names]"
  let ?made = "List.map_filter form_field_for (m_fields m)"
  from assms obtain ff name where fld: "fld = apply_config ?cfg ff"
    and name: "name \<in> set (included_names ?cfg (map ff_name ?made))"
    and ff: "map_of (rev (map (\<lambda>ff. (ff_name ff, ff)) ?made)) name = Some ff"
    by (auto simp: model_form_fields_def Let_def List.map_filter_def)
  have "name \<notin> set names"
    using name by (simp add: included_names_def new_form_config_def with_exclude_def)
  moreover have "ff_name ff = name" using map_of_SomeD [OF ff] by auto
  ultimately show ?thesis by (simp add: fld)
qed

lemma populate_choices_of_fills:
  "\<exists>cs. fst (populate_choices_of en c str present mfs form s) = fill_choices cs form"
proof (induction en c str present mfs form s rule: populate_choices_of.induct)
  case (1 en c str present form s)
  show ?case by (rule exI [of _ "[]"]) (simp add: fill_choices_def)
next
  case (2 en c str present mf mfs form s)
  have step: "fill_choices cs (set_choices n opts form) = fill_choices ((n, opts) # cs) form" for cs n opts
    by (simp add: fill_choices_def)
  show ?case
    using 2 step by (simp split: option.splits sum.splits prod.splits) metis
qed

lemma form_for_names:
  "\<exists>cs. fst (form_for en c str e s) = fill_choices cs (from_model (ae_model e) [with_exclude (excluded e)])"
  unfolding form_for_def populate_choices_def by (rule populate_choices_of_fills)

lemma bind_fill_names:
  "ff_name ` set (fm_fields (bind_form data (fill_choices cs f))) = ff_name ` set (fm_fields f)"
  using arg_cong [OF fill_choices_simps(2) [of cs f], of set] by (simp add: bind_form_def)

text \<open>A field that the form does not have keeps its value.\<close>

lemma populate_keeps:
  assumes "loop_err (populate_field cleaned) obj ms = Inr obj'" and "i \<notin> f_index ` {mf \<in> set ms. cleaned (f_name mf) \<noteq> None}"
  shows "obj' ! i = obj ! i"
  using assms
proof (induction ms arbitrary: obj)
  case (Cons mf ms)
  from Cons.prems(1) obtain o1 where o1: "populate_field cleaned obj mf = Inr o1"
    and rest: "loop_err (populate_field cleaned) o1 ms = Inr obj'"
    by (auto split: sum.splits)
  have "cleaned (f_name mf) \<noteq> None \<Longrightarrow> i \<noteq> f_index mf" using Cons.prems(2) by auto
  then have "o1 ! i = obj ! i"
    using o1 by (auto simp: populate_field_def Let_def bind_err_Inr_iff split: option.splits if_splits)
  moreover have "obj' ! i = o1 ! i" using Cons.IH [OF rest] Cons.prems(2) by auto
  ultimately show ?case by simp
qed simp

lemma not_in_form:
  assumes "model_wf m" and "mf \<in> set (m_fields m)"
    and "f_name mf \<in> set names \<or> f_auto_now mf \<or> f_auto_now_add mf"
  shows "f_name mf \<notin> ff_name ` set (fm_fields (from_model m [with_exclude names]))"
proof
  assume "f_name mf \<in> ff_name ` set (fm_fields (from_model m [with_exclude names]))"
  then obtain fld where fld: "fld \<in> set (model_form_fields m [with_exclude names])" "ff_name fld = f_name mf"
    by (auto simp: from_model_def new_form_def)
  from model_form_fields_from [OF fld(1)] fld(2) obtain mf' where
    mf': "mf' \<in> set (m_fields m)" "f_name mf' = f_name mf" "from_field mf' fld" by auto
  have "mf' = mf" using model_names(1) [OF assms(1) assms(2)] model_names(1) [OF assms(1) mf'(1)] mf'(2) by simp
  with mf'(3) have "\<not> f_auto_now mf \<and> \<not> f_auto_now_add mf" by (auto simp: from_field_def form_field_for_def)
  with assms(3) model_form_fields_excluded [OF fld(1)] fld(2) show False by simp
qed


lemma assignments_update_pairs:
  "assignments (concat (map (\<lambda>f. [VString (f_column f), obj ! f_index f]) fs)) =
     Inr (map (\<lambda>f. (f_column f, obj ! f_index f)) fs)"
  by (induction fs) simp_all

lemma assigned_fields_auto_now:
  assumes "f \<in> set (m_fields m)" and "f_kind f \<noteq> KindAuto"
  shows "f \<in> set (assigned_fields m)"
proof -
  from assms(1) obtain i where "i < length (m_fields m)" "f = m_fields m ! i" by (auto simp: in_set_conv_nth)
  with assms(2) show ?thesis by (auto simp: assigned_fields_def)
qed

text \<open>The update that the admin writes assigns every column but an automatic key, the \<open>auto_now\<close> ones
  included, with the values of the object: the ORM then stamps none of them, and the update does not depend
  on the time at all. With the form keeping what was read, a row changed in the admin keeps its old stamps.\<close>

theorem admin_update_ignores_clock:
  assumes "model_wf (ae_model e)"
    and "model_of (db_registry (en_db en)) (Some (entry_type e)) = Some (ae_model e)"
    and "\<forall>f \<in> set (m_fields (ae_model e)). f_auto_now f \<longrightarrow> f_kind f \<noteq> KindAuto"
  shows "ops_update (en\<lparr>en_now := t\<rparr>) c e pk obj s = ops_update en c e pk obj s \<and>
    (\<exists>assigns. assignments (update_pairs (ae_model e) obj) = Inr assigns \<and>
       with_auto_now t (m_fields (ae_model e)) assigns = assigns \<and>
       (\<forall>f \<in> set (m_fields (ae_model e)). f_auto_now f \<longrightarrow> (f_column f, obj ! f_index f) \<in> set assigns))"
proof -
  let ?m = "ae_model e"
  let ?as = "map (\<lambda>f. (f_column f, obj ! f_index f)) (assigned_fields ?m)"
  have assigns: "assignments (update_pairs ?m obj) = Inr ?as"
    unfolding update_pairs_def by (rule assignments_update_pairs)
  have stamped: "(f_column f, obj ! f_index f) \<in> set ?as" if "f \<in> set (m_fields ?m)" "f_auto_now f" for f
    using assigned_fields_auto_now [of f ?m] that assms(3) by auto
  then have "f_column f \<in> fst ` set ?as" if "f \<in> set (m_fields ?m)" "f_auto_now f" for f
    using that by force
  then have none: "filter (\<lambda>f. f_auto_now f \<and> f_column f \<notin> fst ` set ?as) (m_fields ?m) = []"
    by (simp add: filter_empty_conv)
  have d: "distinct (map f_column (m_fields ?m))"
    using model_wf_distinct_columns [OF assms(1)] by (simp add: columns_def)
  have same: "with_auto_now now (m_fields ?m) ?as = ?as" for now
    unfolding with_auto_now_closed_form [OF d] none by simp
  have q: "q_model (Filter [VString ''id'', VInt I64 pk] (new_query (en_db en) (entry_type e))) = Some ?m"
    by (simp add: filter_pair_simps new_query_model [OF assms(2)])
  have "exec_affected (en\<lparr>en_now := t\<rparr>) = exec_affected en"
    by (intro ext) (simp add: exec_affected_def)
  then have "ops_update (en\<lparr>en_now := t\<rparr>) c e pk obj s = ops_update en c e pk obj s"
    by (simp add: ops_update_def update_rows_def on_query_def q assigns same split: option.splits sum.split)
  with assigns same stamped show ?thesis by blast
qed


subsection \<open>Witnesses\<close>

text \<open>A database that answers every query with the same rows.\<close>

definition fixed_driver :: "goval list list \<Rightarrow> unit driver" where
  "fixed_driver rows = \<lparr>drv_begin = (\<lambda>s. (None, s)), drv_commit = (\<lambda>s. (None, s)), drv_rollback = (\<lambda>s. s),
     drv_exec = (\<lambda>tx sql args s. (Inr \<lparr>er_last_insert_id = Inr 0, er_rows_affected = Inr 1\<rparr>, s)),
     drv_query = (\<lambda>tx sql args s. (Inr \<lparr>qr_rows = rows, qr_err = None\<rparr>, s))\<rparr>"

definition one_model_env :: "model \<Rightarrow> gotype list \<Rightarrow> goval list list \<Rightarrow> unit env" where
  "one_model_env m layout rows = \<lparr>en_db = \<lparr>db_dialect = sqlite, db_registry =
       \<lparr>reg_models = [m], reg_by_type = [m_go_type m \<mapsto> 0], reg_by_name = [m_name m \<mapsto> 0], reg_frozen = True\<rparr>\<rparr>,
     en_driver = fixed_driver rows, en_now = zero_time, en_layouts = (\<lambda>t. layout), en_signals = new_signals\<rparr>"

definition admin_sample :: admin_request where
  "admin_sample = \<lparr>rq_method = ''POST'', rq_path = ''/admin/'', rq_host = ''example.org'', rq_tls = True,
     rq_header = (\<lambda>n. []), rq_cookies = [], rq_form = [], aq_path_value = (\<lambda>n. []), aq_query = Map.empty,
     aq_post_form = Some Map.empty, aq_user = None, aq_session = None, aq_csrf_token = []\<rparr>"

definition no_page :: engine where
  "no_page name ctx = None"

definition no_stringers :: stringers where
  "no_stringers t = None"

theorem admin_pages_need_active_staff_witness:
  "run_handler new_admin_site no_page perm_env background no_stringers pad_kdf [] (Staff IndexView) admin_sample () =
     ((RedirectReply ''/admin/login/?next=%2Fadmin%2F'', None), ())"
proof -
  have route: "Path ''/admin/{$}'' (Staff IndexView) ''admin-index'' \<in> set (admin_routes new_admin_site)"
    by (simp add: admin_routes_def new_admin_site_def Let_def)
  have anon: "aq_user admin_sample = fst (auth_middleware perm_env background (aq_session admin_sample) ())"
    by (simp add: admin_sample_def auth_middleware_def)
  have esc: "as_login_url new_admin_site @ ''?next='' @ query_escape (rq_path admin_sample) =
      ''/admin/login/?next=%2Fadmin%2F''" by code_simp
  from admin_pages_need_active_staff [OF route _ anon, of no_page no_stringers pad_kdf "[]" "()"] show ?thesis
    unfolding esc by (simp add: Path_def admin_sample_def)
qed

definition event_entry :: admin_entry where
  "event_entry = \<lparr>ae_slug = ''event'', ae_model = event_model, ae_admin = \<lparr>ma_list_display = [], ma_ordering = [],
     ma_search_fields = [], ma_readonly_fields = [''Due''], ma_exclude_fields = []\<rparr>\<rparr>"

definition event_env :: "unit env" where
  "event_env = one_model_env event_model [TInt I64, TInt I8, TTime] [[VInt I64 1, VInt I64 5, VTime zero_time]]"

definition event_post :: admin_request where
  "event_post = admin_sample\<lparr>aq_post_form := Some [''Seats'' \<mapsto> [''7''], ''Due'' \<mapsto> [''2024-05-01T10:00:00Z'']]\<rparr>"


theorem admin_update_ignores_clock_witness:
  "ops_update (event_env\<lparr>en_now := zero_time\<lparr>t_year := 2024\<rparr>\<rparr>) background event_entry 1 new_event () =
     ops_update event_env background event_entry 1 new_event ()"
proof -
  have m: "ae_model event_entry = event_model" by (simp add: event_entry_def)
  have reg: "model_of (db_registry (en_db event_env)) (Some (entry_type event_entry)) = Some (ae_model event_entry)"
    by (simp add: event_env_def one_model_env_def model_of_def entry_type_def m)
  have "\<forall>f \<in> set (m_fields (ae_model event_entry)). f_auto_now f \<longrightarrow> f_kind f \<noteq> KindAuto"
    by (simp add: m event_model_def seats_field_def due_field_def id_field_def promote_def)
  from admin_update_ignores_clock [OF event_facts(1) [folded m] reg this] show ?thesis by blast
qed

definition staff_row :: "goval list" where
  "staff_row = [VInt I64 3, VString ''ann'',
     VString (projr (make_password pad_kdf 3 (Some ''salty'') ''secret'')), VString [], VBool True, VBool True,
     VBool False, VTime zero_time]"

definition login_sample :: admin_request where
  "login_sample = admin_sample\<lparr>aq_session := Some new_session, aq_post_form := Some [''username'' \<mapsto> [''ann''],
     ''password'' \<mapsto> [''secret''], ''next'' \<mapsto> [''//evil.example'']]\<rparr>"


end
