(* ===== verification/Web_Templates.thy ===== *)
theory Web_Templates
  imports Web_Urls Web_Widgets Orm_Rows
begin

text \<open>
  The package \<open>templates\<close>: the tags \<open>static\<close>, \<open>url\<close> and \<open>csrf_token\<close>, the engine with its resolver, and the
  view of a model instance that templates get. The template language itself (pongo2) is not part of the
  repository: loading, parsing and executing a template, parsing and evaluating an expression and the text
  of a value are parameters.
\<close>

subsection \<open>Values and contexts\<close>

datatype resolve_error = NotConfigured string | NotReversed reverse_error

type_synonym resolver = "string \<Rightarrow> goval list \<Rightarrow> resolve_error + string"

text \<open>A value of a context: any Go value, a \<open>ModelMap\<close>, a slice of such, a resolver that may be nil.\<close>

datatype tval =
    TGo goval
  | TModel "string \<rightharpoonup> goval"
  | TSeq "tval list"
  | TResolver "resolver option"

type_synonym tctx = "string \<rightharpoonup> tval"

definition model_label_key :: string where
  "model_label_key = ''__str__''"

definition model_map_string :: "(string \<rightharpoonup> goval) \<Rightarrow> string" where
  "model_map_string m = (case m model_label_key of Some (VString s) \<Rightarrow> s | _ \<Rightarrow> [])"

text \<open>\<open>pongo2.Value.Interface\<close>: the value itself; one that is no \<open>goval\<close> keeps its printed form.\<close>

fun tprint :: "tval \<Rightarrow> string" where
  "tprint (TGo v) = sprint v"
| "tprint (TModel m) = model_map_string m"
| "tprint (TSeq vs) = ''['' @ Join (map tprint vs) '' '' @ '']''"
| "tprint (TResolver r) = (case r of None \<Rightarrow> ''<nil>'' | Some f \<Rightarrow> ''0x0'')"

definition tinterface :: "tval \<Rightarrow> goval" where
  "tinterface v =
     (case v of
        TGo g \<Rightarrow> g
      | TModel m \<Rightarrow> VOther ''templates.ModelMap'' (tprint v)
      | TSeq vs \<Rightarrow> VOther ''[]interface {}'' (tprint v)
      | TResolver r \<Rightarrow> VOther ''templates.Resolver'' (tprint v))"

subsection \<open>Resolvers\<close>

definition resolver_context_key :: string where
  "resolver_context_key = ''__djangogo_url_resolver__''"

definition default_resolver :: resolver where
  "default_resolver = (\<lambda>name args. Inl (NotConfigured name))"

definition router_resolver :: "'h router \<Rightarrow> resolver" where
  "router_resolver r = (\<lambda>name args. case reverse r name args of Inl e \<Rightarrow> Inl (NotReversed e) | Inr u \<Rightarrow> Inr u)"

text \<open>The process-global resolver is a state of its own: \<open>SetURLResolver\<close> and \<open>URLResolverFunc\<close>.\<close>

definition set_url_resolver :: "resolver \<Rightarrow> resolver \<Rightarrow> resolver" where
  "set_url_resolver r global = r"

definition url_resolver_func :: "resolver \<Rightarrow> resolver" where
  "url_resolver_func global = global"

definition resolver_from :: "resolver \<Rightarrow> tctx \<Rightarrow> resolver" where
  "resolver_from global ctx =
     (case ctx resolver_context_key of
        Some (TResolver (Some r)) \<Rightarrow> r
      | _ \<Rightarrow> url_resolver_func global)"

subsection \<open>Tags\<close>

type_synonym evaluator = "tctx \<Rightarrow> string + tval"

datatype tag_error =
    EvalFailed string
  | UrlFailed string resolve_error
  | ParseFailed string
  | StaticArgs
  | CsrfArgs

definition join_static :: "string \<Rightarrow> string \<Rightarrow> string" where
  "join_static base path = TrimRight base CHR ''/'' @ ''/'' @ TrimLeft path CHR ''/''"

definition static_base :: string where
  "static_base = ''/static/''"

definition static_execute :: "string \<Rightarrow> (tval \<Rightarrow> string) \<Rightarrow> evaluator \<Rightarrow> tctx \<Rightarrow> tag_error + string" where
  "static_execute base str path_expr ctx =
     (case path_expr ctx of Inl e \<Rightarrow> Inl (EvalFailed e) | Inr v \<Rightarrow> Inr (join_static base (str v)))"

definition url_execute ::
  "resolver \<Rightarrow> (tval \<Rightarrow> string) \<Rightarrow> evaluator \<times> evaluator list \<Rightarrow> tctx \<Rightarrow> tag_error + string"
where
  "url_execute global str node ctx =
     (case node of (name_expr, arg_exprs) \<Rightarrow>
        (case name_expr ctx of
           Inl e \<Rightarrow> Inl (EvalFailed e)
         | Inr name \<Rightarrow>
             (case collect_err (\<lambda>x. x ctx) arg_exprs of
                Inl e \<Rightarrow> Inl (EvalFailed e)
              | Inr args \<Rightarrow>
                  (case resolver_from global ctx (str name) (map tinterface args) of
                     Inl e \<Rightarrow> Inl (UrlFailed (str name) e)
                   | Inr u \<Rightarrow> Inr u))))"

definition csrf_field :: "string \<Rightarrow> string" where
  "csrf_field token =
     ''<input type='' @ [dquote] @ ''hidden'' @ [dquote] @ '' name='' @ [dquote] @ ''csrfmiddlewaretoken'' @ [dquote] @
     '' value='' @ [dquote] @ html_escape token @ [dquote] @ ''>''"

definition csrf_execute :: "(tval \<Rightarrow> string) \<Rightarrow> tctx \<Rightarrow> tag_error + string" where
  "csrf_execute str ctx =
     Inr (csrf_field (case ctx ''csrf_token'' of
                        Some v \<Rightarrow> if v = TGo VNil then [] else str v
                      | None \<Rightarrow> []))"

text \<open>The parsers of the tags, over the parser of their arguments.\<close>

record 'p arg_parser =
  parse_expression :: "'p \<Rightarrow> string + evaluator \<times> 'p"
  remaining :: "'p \<Rightarrow> nat"

definition static_tag_parser :: "'p arg_parser \<Rightarrow> 'p \<Rightarrow> tag_error + evaluator" where
  "static_tag_parser P p =
     (case parse_expression P p of
        Inl e \<Rightarrow> Inl (ParseFailed e)
      | Inr (x, p1) \<Rightarrow> if 0 < remaining P p1 then Inl StaticArgs else Inr x)"

partial_function (option) url_tag_args ::
  "'p arg_parser \<Rightarrow> evaluator list \<Rightarrow> 'p \<Rightarrow> (tag_error + evaluator list) option"
where
  "url_tag_args P xs p =
     (if 0 < remaining P p then
        (case parse_expression P p of
           Inl e \<Rightarrow> Some (Inl (ParseFailed e))
         | Inr (x, p1) \<Rightarrow> url_tag_args P (xs @ [x]) p1)
      else Some (Inr xs))"

definition url_tag_parser :: "'p arg_parser \<Rightarrow> 'p \<Rightarrow> (tag_error + evaluator \<times> evaluator list) option" where
  "url_tag_parser P p =
     (case parse_expression P p of
        Inl e \<Rightarrow> Some (Inl (ParseFailed e))
      | Inr (x, p1) \<Rightarrow> map_option (map_sum (\<lambda>e. e) (Pair x)) (url_tag_args P [] p1))"

definition csrf_token_tag_parser :: "'p arg_parser \<Rightarrow> 'p \<Rightarrow> tag_error + unit" where
  "csrf_token_tag_parser P p = (if 0 < remaining P p then Inl CsrfArgs else Inr ())"

text \<open>\<open>registerTags\<close>: the names under which the tags are known; a name taken is a panic.\<close>

definition must_register :: "string \<Rightarrow> string list \<Rightarrow> (string, string list) go_result" where
  "must_register name tags =
     (if name \<in> set tags then Panic (''templates: register tag '' @ name) else Value (tags @ [name]))"

definition register_tags :: "string list \<Rightarrow> (string, string list) go_result" where
  "register_tags tags =
     (case must_register ''static'' tags of
        Panic e \<Rightarrow> Panic e
      | Value t1 \<Rightarrow>
          (case must_register ''url'' t1 of
             Panic e \<Rightarrow> Panic e
           | Value t2 \<Rightarrow> must_register ''csrf_token'' t2))"

subsection \<open>The engine\<close>

datatype template_error =
    LoadFailed string string
  | RenderFailed string string
  | ParseStringFailed string
  | RenderStringFailed string
  | LoadDirFailed string string
  | NilFs

datatype loader = DirLoader string | FsLoader | StringOnlyLoader

text \<open>The template set of pongo2: a named or given template, executed on a context.\<close>

record template_set =
  from_cache :: "string \<Rightarrow> string + (tctx \<Rightarrow> string + string)"
  from_string :: "string \<Rightarrow> string + (tctx \<Rightarrow> string + string)"

record template_engine =
  te_set :: template_set
  te_resolver :: "resolver option"

definition set_resolver :: "resolver option \<Rightarrow> template_engine \<Rightarrow> template_engine" where
  "set_resolver r e = e\<lparr>te_resolver := r\<rparr>"

definition engine_context :: "template_engine \<Rightarrow> tctx \<Rightarrow> tctx" where
  "engine_context e ctx =
     (case te_resolver e of
        None \<Rightarrow> ctx
      | Some r \<Rightarrow> ctx(resolver_context_key \<mapsto> TResolver (Some r)))"

definition engine_of :: "(loader list \<Rightarrow> template_set) \<Rightarrow> loader list \<Rightarrow> template_engine" where
  "engine_of new_set loaders =
     \<lparr>te_set = new_set (if loaders = [] then [StringOnlyLoader] else loaders), te_resolver = None\<rparr>"

definition new_engine ::
  "(loader list \<Rightarrow> template_set) \<Rightarrow> (string \<Rightarrow> string option) \<Rightarrow> string list \<Rightarrow> template_error + template_engine"
where
  "new_engine new_set dir_error dirs =
     (case collect_err (\<lambda>dir. case dir_error dir of
                               Some e \<Rightarrow> Inl (LoadDirFailed dir e) | None \<Rightarrow> Inr (DirLoader dir)) dirs of
        Inl e \<Rightarrow> Inl e
      | Inr loaders \<Rightarrow> Inr (engine_of new_set loaders))"

definition new_engine_fs :: "(loader list \<Rightarrow> template_set) \<Rightarrow> bool \<Rightarrow> template_error + template_engine" where
  "new_engine_fs new_set nil_fs = (if nil_fs then Inl NilFs else Inr (engine_of new_set [FsLoader]))"

definition render_template :: "template_engine \<Rightarrow> string \<Rightarrow> tctx \<Rightarrow> template_error + string" where
  "render_template e name ctx =
     (case from_cache (te_set e) name of
        Inl err \<Rightarrow> Inl (LoadFailed name err)
      | Inr tpl \<Rightarrow> map_inl (RenderFailed name) (tpl (engine_context e ctx)))"

text \<open>\<open>RenderTo\<close>: the executed template is appended to what the writer holds, nothing on an error.\<close>

definition render_to :: "template_engine \<Rightarrow> string \<Rightarrow> tctx \<Rightarrow> string \<Rightarrow> template_error option \<times> string" where
  "render_to e name ctx w =
     (case from_cache (te_set e) name of
        Inl err \<Rightarrow> (Some (LoadFailed name err), w)
      | Inr tpl \<Rightarrow>
          (case tpl (engine_context e ctx) of
             Inl err \<Rightarrow> (Some (RenderFailed name err), w)
           | Inr out \<Rightarrow> (None, w @ out)))"

definition render_string :: "template_engine \<Rightarrow> string \<Rightarrow> tctx \<Rightarrow> template_error + string" where
  "render_string e src ctx =
     (case from_string (te_set e) src of
        Inl err \<Rightarrow> Inl (ParseStringFailed err)
      | Inr tpl \<Rightarrow> map_inl RenderStringFailed (tpl (engine_context e ctx)))"

subsection \<open>Model instances\<close>

definition expose_field :: "struct_val \<Rightarrow> field \<Rightarrow> (string \<rightharpoonup> goval) \<Rightarrow> (string \<rightharpoonup> goval)" where
  "expose_field v f out =
     (if f_rel f \<noteq> None then out
      else
        (let val = v ! f_index f; out1 = out(f_column f \<mapsto> val)
         in if f_primary_key f then out1(''pk'' \<mapsto> val, ''id'' \<mapsto> val) else out1))"

definition model_context ::
  "(instance_val \<Rightarrow> string) option \<Rightarrow> model \<Rightarrow> instance_val \<Rightarrow> (string \<rightharpoonup> goval)"
where
  "model_context str m inst =
     (case inst of
        StructInstance v \<Rightarrow> fold (expose_field v) (m_fields m) Map.empty
      | _ \<Rightarrow> Map.empty)(model_label_key \<mapsto> VString (label str m inst))"

subsection \<open>Context lookups\<close>

lemma expose_other:
  "k \<noteq> f_column f \<Longrightarrow> k \<noteq> ''pk'' \<Longrightarrow> k \<noteq> ''id'' \<Longrightarrow> expose_field v f out k = out k"
  by (simp add: expose_field_def Let_def)

lemma fold_expose_other:
  "k \<notin> f_column ` set fs \<Longrightarrow> k \<noteq> ''pk'' \<Longrightarrow> k \<noteq> ''id'' \<Longrightarrow> fold (expose_field v) fs out k = out k"
  by (induction fs arbitrary: out) (simp_all add: expose_other)

lemma fold_expose:
  assumes "distinct (map f_column fs)" and "f \<in> set fs" and "f_rel f = None"
    and "f_column f \<notin> {''pk'', ''id''}"
  shows "fold (expose_field v) fs out (f_column f) = Some (v ! f_index f)"
  using assms
proof (induction fs arbitrary: out)
  case (Cons g fs)
  show ?case
  proof (cases "g = f")
    case True
    with Cons have "expose_field v f out (f_column f) = Some (v ! f_index f)"
      by (simp add: expose_field_def Let_def)
    with True Cons show ?thesis by (simp add: fold_expose_other)
  qed (use Cons in simp)
qed simp

text \<open>The names of the primary key, unless another scalar field is stored under one of them.\<close>

lemma fold_expose_pk:
  assumes "k \<in> {''pk'', ''id''}" and "\<forall>g \<in> set fs. f_primary_key g \<longrightarrow> g = pk"
    and "\<forall>g \<in> set fs. g \<noteq> pk \<longrightarrow> f_column g \<noteq> k" and "f_rel pk = None" and "f_primary_key pk"
  shows "fold (expose_field v) fs out k = (if pk \<in> set fs then Some (v ! f_index pk) else out k)"
  using assms(2,3)
proof (induction fs arbitrary: out)
  case (Cons g fs)
  have ih: "fold (expose_field v) fs out' k = (if pk \<in> set fs then Some (v ! f_index pk) else out' k)" for out'
    by (rule Cons.IH) (use Cons.prems in auto)
  show ?case
  proof (cases "g = pk")
    case True
    from assms(1) have "k = ''pk'' \<or> k = ''id''" by simp
    then have "expose_field v pk out k = Some (v ! f_index pk)"
      using assms(4,5) by (elim disjE) (simp_all add: expose_field_def Let_def)
    with True show ?thesis by (simp add: ih)
  next
    case False
    with Cons.prems have "\<not> f_primary_key g" "f_column g \<noteq> k" by auto
    then have "expose_field v g out k = out k" by (simp add: expose_field_def Let_def)
    with False show ?thesis by (simp add: ih)
  qed
qed simp

lemma model_context_struct:
  assumes "model_wf m"
  shows "f \<in> set (m_fields m) \<Longrightarrow> f_rel f = None \<Longrightarrow> f_column f \<notin> {''pk'', ''id'', model_label_key} \<Longrightarrow>
      model_context str m (StructInstance v) (f_column f) = Some (v ! f_index f)"
    and "model_context str m (StructInstance v) model_label_key = Some (VString (label str m (StructInstance v)))"
proof -
  have "distinct (map f_column (m_fields m))"
    using model_wf_distinct_columns [OF assms] by (simp add: columns_def)
  then show "f \<in> set (m_fields m) \<Longrightarrow> f_rel f = None \<Longrightarrow> f_column f \<notin> {''pk'', ''id'', model_label_key} \<Longrightarrow>
      model_context str m (StructInstance v) (f_column f) = Some (v ! f_index f)"
    by (simp add: model_context_def fold_expose)
qed (simp add: model_context_def)

subsection \<open>Tags\<close>


definition word_args :: "string list arg_parser" where
  "word_args =
     \<lparr>parse_expression = (\<lambda>p. case p of [] \<Rightarrow> Inl ''unexpected EOF'' | w # r \<Rightarrow> Inr ((\<lambda>ctx. Inr (TGo (VString w))), r)),
      remaining = length\<rparr>"


lemma csrf_field_reads_back:
  "read_html (csrf_field token) = [Tag [''input type='', ''hidden'', '' name='', ''csrfmiddlewaretoken'', '' value='', token, []]]"
proof -
  have "html_escape ''hidden'' = ''hidden''" "html_escape ''csrfmiddlewaretoken'' = ''csrfmiddlewaretoken''"
    by code_simp+
  then have "reads_as (csrf_field token) [Tag [''input type='', ''hidden'', '' name='', ''csrfmiddlewaretoken'', '' value='', token, []]]"
    using reads_tag_body [of "[(''input type='', ''hidden''), ('' name='', ''csrfmiddlewaretoken''), ('' value='', token)]" "[]"]
    by (simp add: csrf_field_def tag_body_def plain_markup_def)
  then show ?thesis by (simp add: reads_as_def) (metis append_Nil2 read_html.simps(1))
qed

end
