(* ===== verification/Web_Views.thy ===== *)
theory Web_Views
  imports Web_Templates Web_DbSessions
begin

text \<open>
  The package \<open>views\<close>: the helpers that render a template, redirect, or answer with JSON, and the generic
  views for one object and for a list of objects. A response writer is the response of \<open>Web_Http\<close> with
  its \<open>Content-Type\<close>; a type parameter is the type of the model's struct.
\<close>

subsection \<open>Responses\<close>

record http_out =
  ho_type :: "string option"
  ho_response :: response

definition out_type :: "string \<Rightarrow> http_out \<Rightarrow> http_out" where
  "out_type t w = (if rs_status (ho_response w) = None then w\<lparr>ho_type := Some t\<rparr> else w)"

definition out_error :: "string \<Rightarrow> nat \<Rightarrow> http_out \<Rightarrow> http_out" where
  "out_error msg status w =
     (let w1 = out_type ''text/plain; charset=utf-8'' w
      in w1\<lparr>ho_response := http_error msg status (ho_response w1)\<rparr>)"

definition out_not_found :: "http_out \<Rightarrow> http_out" where
  "out_not_found w = out_error ''404 page not found'' 404 w"

definition out_body :: "string \<Rightarrow> nat \<Rightarrow> string \<Rightarrow> http_out \<Rightarrow> http_out" where
  "out_body t status body w =
     (let w1 = out_type t w
      in w1\<lparr>ho_response := write_body body (write_header status (ho_response w1))\<rparr>)"

definition view_render ::
  "http_out \<Rightarrow> template_engine \<Rightarrow> string \<Rightarrow> tctx \<Rightarrow> template_error option \<times> http_out"
where
  "view_render w e name ctx =
     (case render_template e name ctx of
        Inl err \<Rightarrow> (Some err, out_error ''internal server error'' 500 w)
      | Inr body \<Rightarrow> (None, out_body ''text/html; charset=utf-8'' 200 body w))"

definition view_redirect :: "string \<Rightarrow> nat \<Rightarrow> http_out \<Rightarrow> http_out" where
  "view_redirect url status w = w\<lparr>ho_response := http_redirect url status (ho_response w)\<rparr>"

definition view_json :: "('v \<Rightarrow> string + string) \<Rightarrow> nat \<Rightarrow> 'v \<Rightarrow> http_out \<Rightarrow> string option \<times> http_out" where
  "view_json marshal status v w =
     (case marshal v of
        Inl err \<Rightarrow> (Some err, out_error ''internal server error'' 500 w)
      | Inr body \<Rightarrow> (None, out_body ''application/json; charset=utf-8'' status body w))"

subsection \<open>Generic views\<close>

record view_request =
  vr_request :: request
  vr_path_value :: "string \<Rightarrow> string"

text \<open>The \<open>String\<close> method of a type, if it has one.\<close>

type_synonym string_methods = "rtype \<Rightarrow> (instance_val \<Rightarrow> string) option"

definition wrap_object :: "string_methods \<Rightarrow> orm_db \<Rightarrow> rtype \<Rightarrow> struct_val \<Rightarrow> tval" where
  "wrap_object str db t obj =
     (case model_of (db_registry db) (Some t) of
        Some m \<Rightarrow> TModel (model_context (str t) m (StructInstance obj))
      | None \<Rightarrow> TGo (VOther (rt_name t) (''{'' @ Join (map sprint obj) '' '' @ ''}'')))"

definition wrap_objects :: "string_methods \<Rightarrow> orm_db \<Rightarrow> rtype \<Rightarrow> struct_val list \<Rightarrow> tval" where
  "wrap_objects str db t objs = TSeq (map (wrap_object str db t) objs)"

definition merge_extra :: "view_request \<Rightarrow> (view_request \<Rightarrow> tctx) option \<Rightarrow> tctx" where
  "merge_extra r extra = (case extra of None \<Rightarrow> Map.empty | Some f \<Rightarrow> f r)"

record detail_view =
  dv_type :: rtype
  dv_engine :: template_engine
  dv_template :: string
  dv_pk_param :: string
  dv_context_name :: string
  dv_extra :: "(view_request \<Rightarrow> tctx) option"

definition detail_context :: "string_methods \<Rightarrow> orm_db \<Rightarrow> detail_view \<Rightarrow> view_request \<Rightarrow> struct_val \<Rightarrow> tctx" where
  "detail_context str db v r obj =
     (merge_extra r (dv_extra v))
       ((if dv_context_name v = [] then ''object'' else dv_context_name v) \<mapsto> wrap_object str db (dv_type v) obj)"

definition detail_serve ::
  "'s env \<Rightarrow> go_ctx \<Rightarrow> string_methods \<Rightarrow> detail_view \<Rightarrow> view_request \<Rightarrow> http_out \<Rightarrow> 's \<Rightarrow> http_out \<times> 's"
where
  "detail_serve en c str v r w s =
     (let param = (if dv_pk_param v = [] then ''pk'' else dv_pk_param v)
      in case parse_int64 (vr_path_value r param) of
           None \<Rightarrow> (out_not_found w, s)
         | Some pk \<Rightarrow>
             (case get_row en c [VString ''id'', VInt I64 pk] (new_query (en_db en) (dv_type v)) s of
                (Inl err, s1) \<Rightarrow>
                  (if err = DoesNotExist then out_not_found w else out_error ''internal server error'' 500 w, s1)
              | (Inr obj, s1) \<Rightarrow>
                  (snd (view_render w (dv_engine v) (dv_template v) (detail_context str (en_db en) v r obj)), s1)))"

record list_view =
  lv_type :: rtype
  lv_engine :: template_engine
  lv_template :: string
  lv_context_name :: string
  lv_query :: "(orm_db \<Rightarrow> queryset) option"
  lv_extra :: "(view_request \<Rightarrow> tctx) option"

definition list_context :: "string_methods \<Rightarrow> orm_db \<Rightarrow> list_view \<Rightarrow> view_request \<Rightarrow> struct_val list \<Rightarrow> tctx" where
  "list_context str db v r objs =
     (let name = (if lv_context_name v = [] then ''objects'' else lv_context_name v);
          wrapped = wrap_objects str db (lv_type v) objs;
          ctx = (merge_extra r (lv_extra v))(name \<mapsto> wrapped)
      in if name \<noteq> ''object_list'' then ctx(''object_list'' \<mapsto> wrapped) else ctx)"

definition list_serve ::
  "'s env \<Rightarrow> go_ctx \<Rightarrow> string_methods \<Rightarrow> list_view \<Rightarrow> view_request \<Rightarrow> http_out \<Rightarrow> 's \<Rightarrow> http_out \<times> 's"
where
  "list_serve en c str v r w s =
     (let qs = (case lv_query v of None \<Rightarrow> new_query (en_db en) (lv_type v) | Some q \<Rightarrow> q (en_db en))
      in case all_rows en c qs s of
           (Inl err, s1) \<Rightarrow> (out_error ''internal server error'' 500 w, s1)
         | (Inr objs, s1) \<Rightarrow>
             (snd (view_render w (lv_engine v) (lv_template v) (list_context str (en_db en) v r objs)), s1))"

subsection \<open>What the detail view answers\<close>

definition status_of :: "http_out \<Rightarrow> nat option" where
  "status_of w = rs_status (ho_response w)"

definition pk_param :: "detail_view \<Rightarrow> string" where
  "pk_param v = (if dv_pk_param v = [] then ''pk'' else dv_pk_param v)"

definition detail_row ::
  "'s env \<Rightarrow> go_ctx \<Rightarrow> detail_view \<Rightarrow> int \<Rightarrow> 's \<Rightarrow> (exec_error + struct_val) \<times> 's" where
  "detail_row en c v pk s = get_row en c [VString ''id'', VInt I64 pk] (new_query (en_db en) (dv_type v)) s"

lemma out_status:
  assumes "status_of w = None"
  shows "status_of (out_error msg st w) = Some st" and "status_of (out_body t st body w) = Some st"
    and "status_of (out_not_found w) = Some 404"
    and "rs_body (ho_response (out_body t st body w)) = rs_body (ho_response w) @ body"
  using assms
  by (simp_all add: status_of_def out_error_def out_body_def out_not_found_def out_type_def http_error_def
      write_body_def write_header_def Let_def)

lemma detail_serve_cases:
  assumes "status_of w = None"
  obtains (bad_pk) "parse_int64 (vr_path_value r (pk_param v)) = None"
      "detail_serve en c str v r w s = (out_not_found w, s)"
  | (no_row) pk s1 where "parse_int64 (vr_path_value r (pk_param v)) = Some pk"
      "detail_row en c v pk s = (Inl DoesNotExist, s1)" "detail_serve en c str v r w s = (out_not_found w, s1)"
  | (failed) pk err s1 where "parse_int64 (vr_path_value r (pk_param v)) = Some pk"
      "detail_row en c v pk s = (Inl err, s1)" "err \<noteq> DoesNotExist"
      "detail_serve en c str v r w s = (out_error ''internal server error'' 500 w, s1)"
  | (no_page) pk obj s1 err where "parse_int64 (vr_path_value r (pk_param v)) = Some pk"
      "detail_row en c v pk s = (Inr obj, s1)"
      "render_template (dv_engine v) (dv_template v) (detail_context str (en_db en) v r obj) = Inl err"
      "detail_serve en c str v r w s = (out_error ''internal server error'' 500 w, s1)"
  | (page) pk obj s1 body where "parse_int64 (vr_path_value r (pk_param v)) = Some pk"
      "detail_row en c v pk s = (Inr obj, s1)"
      "render_template (dv_engine v) (dv_template v) (detail_context str (en_db en) v r obj) = Inr body"
      "detail_serve en c str v r w s = (out_body ''text/html; charset=utf-8'' 200 body w, s1)"
proof (cases "parse_int64 (vr_path_value r (pk_param v))")
  case None
  then show thesis using bad_pk by (simp add: detail_serve_def pk_param_def Let_def)
next
  case (Some pk)
  obtain res s1 where row: "detail_row en c v pk s = (res, s1)" by fastforce
  have serve: "detail_serve en c str v r w s =
    (case res of
       Inl err \<Rightarrow> (if err = DoesNotExist then out_not_found w else out_error ''internal server error'' 500 w, s1)
     | Inr obj \<Rightarrow> (snd (view_render w (dv_engine v) (dv_template v) (detail_context str (en_db en) v r obj)), s1))"
    using Some row by (simp add: detail_serve_def pk_param_def detail_row_def Let_def split: sum.split)
  show thesis
  proof (cases res)
    case (Inl err)
    with Some row serve no_row failed show thesis by (cases "err = DoesNotExist") simp_all
  next
    case (Inr obj)
    with Some row serve no_page page show thesis
      by (cases "render_template (dv_engine v) (dv_template v) (detail_context str (en_db en) v r obj)")
        (simp_all add: view_render_def)
  qed
qed

definition shown_object :: "detail_view \<Rightarrow> tctx \<Rightarrow> (string \<rightharpoonup> goval)" where
  "shown_object v ctx =
     (case ctx (if dv_context_name v = [] then ''object'' else dv_context_name v) of
        Some (TModel m) \<Rightarrow> m | _ \<Rightarrow> Map.empty)"

lemma detail_context_object:
  assumes "model_of (db_registry db) (Some (dv_type v)) = Some m"
  shows "shown_object v (detail_context str db v r obj) = model_context (str (dv_type v)) m (StructInstance obj)"
  using assms by (simp add: shown_object_def detail_context_def wrap_object_def)


definition title_engine :: template_engine where
  "title_engine =
     \<lparr>te_set = \<lparr>from_cache = (\<lambda>name. Inr (\<lambda>ctx. Inr
          (case ctx ''object'' of Some (TModel m) \<Rightarrow> (case m ''title'' of Some v \<Rightarrow> sprint v | None \<Rightarrow> []) | _ \<Rightarrow> []))),
        from_string = (\<lambda>src. Inl ''unused'')\<rparr>,
      te_resolver = None\<rparr>"

definition sample_view :: "rtype \<Rightarrow> detail_view" where
  "sample_view t = \<lparr>dv_type = t, dv_engine = title_engine, dv_template = ''post.html'', dv_pk_param = [],
     dv_context_name = [], dv_extra = None\<rparr>"

definition sample_request :: "string \<Rightarrow> view_request" where
  "sample_request pk = \<lparr>vr_request = \<lparr>rq_method = ''GET'', rq_path = ''/'', rq_host = ''example.org'', rq_tls = True,
     rq_header = (\<lambda>n. []), rq_cookies = [], rq_form = []\<rparr>, vr_path_value = (\<lambda>n. pk)\<rparr>"

definition no_out :: http_out where
  "no_out = \<lparr>ho_type = None, ho_response = new_response\<rparr>"

lemma no_out_status: "status_of no_out = None"
  by (simp add: no_out_def status_of_def new_response_def)


text \<open>A \<open>DetailView\<close> looks for a column named \<open>id\<close>, whatever the primary key is called: for a model without
  that column every request with an integer is answered with 500, and no row is ever shown.\<close>

theorem detail_view_needs_id_column:
  assumes "model_of (db_registry (en_db en)) (Some (dv_type v)) = Some m" and "m_by_column m ''id'' = None"
    and "status_of w = None" and "parse_int64 (vr_path_value r (pk_param v)) = Some pk"
  shows "detail_serve en c str v r w s = (out_error ''internal server error'' 500 w, s) \<and>
    status_of (fst (detail_serve en c str v r w s)) = Some 500"
proof -
  have plain: "LastIndex ''id'' ''__'' = None" by code_simp
  have "detail_row en c v pk s = (Inl (CompileError (UnknownField ''id'' (m_name m))), s)"
    by (simp add: detail_row_def get_row_def all_rows_def on_query_def new_query_def assms(1,2) Filter_def
        add_wheres_def Limit_def compile_select_def with_model_def compile_where_def build_predicate_def
        parse_lookup_def plain Let_def)
  with assms(4) have serve: "detail_serve en c str v r w s = (out_error ''internal server error'' 500 w, s)"
    by (cases rule: detail_serve_cases [OF assms(3), of r v en c str s]) auto
  then show ?thesis by (simp add: out_status [OF assms(3)])
qed

theorem detail_view_needs_id_column_witness:
  "status_of (fst (detail_serve session_env background (\<lambda>t. None) (sample_view record_type) (sample_request ''4'')
     no_out [])) = Some 500"
proof -
  have m: "model_of (db_registry (en_db session_env)) (Some (dv_type (sample_view record_type))) = Some record_model"
    by (simp add: sample_view_def session_env_model)
  have "m_by_column record_model ''id'' = None" by (simp add: record_model_def)
  moreover have "parse_int64 (vr_path_value (sample_request ''4'') (pk_param (sample_view record_type))) = Some 4"
    by code_simp
  ultimately show ?thesis using detail_view_needs_id_column [OF m _ no_out_status] by blast
qed

end
