(* ===== verification/App_Core.thy ===== *)
theory App_Core
  imports Web_Admin Mig_Writer "HOL-Library.List_Lexorder"
begin

text \<open>
  The packages \<open>conf\<close>, \<open>apps\<close> and \<open>manage\<close>: the settings with their defaults and check, the registry of
  installed apps with their \<open>Ready\<close> hooks, and the registry of management commands with its dispatch. What
  an app's or a command's own code does is a function on a state \<open>'s\<close>.
\<close>

subsection \<open>Settings\<close>

record database =
  db_driver_name :: string
  db_dsn :: string

record settings =
  st_debug :: bool
  st_secret_key :: string
  st_allowed_hosts :: "string list"
  st_installed_apps :: "string list"
  st_host :: string
  st_port :: string
  st_database :: database

definition default_host :: string where "default_host = ''127.0.0.1''"

definition default_port :: string where "default_port = ''8000''"

definition default_driver :: string where "default_driver = ''sqlite''"

definition apply_default_settings :: "settings \<Rightarrow> settings" where
  "apply_default_settings s =
     (let s = (if st_host s = [] then s\<lparr>st_host := default_host\<rparr> else s);
          s = (if st_port s = [] then s\<lparr>st_port := default_port\<rparr> else s);
          s = (if st_allowed_hosts s = [] then s\<lparr>st_allowed_hosts := [''localhost'', ''127.0.0.1'']\<rparr> else s)
      in if db_driver_name (st_database s) = []
         then s\<lparr>st_database := (st_database s)\<lparr>db_driver_name := default_driver\<rparr>\<rparr> else s)"

definition check_settings :: "settings \<Rightarrow> string option" where
  "check_settings s = (if st_secret_key s = [] then Some ''conf: SecretKey must be set'' else None)"

text \<open>The active settings of the process, set by \<open>Configure\<close>; \<open>Active\<close> panics before.\<close>

definition configure :: "settings \<Rightarrow> settings option \<Rightarrow> settings \<times> settings option" where
  "configure s active = (let s = apply_default_settings s in (s, Some s))"

definition active_settings :: "settings option \<Rightarrow> (string, settings) go_result" where
  "active_settings active =
     (case active of
        None \<Rightarrow> Panic ''conf: settings not configured; call conf.Configure first''
      | Some s \<Rightarrow> Value s)"

subsection \<open>Apps\<close>

text \<open>An app: its name and, where it implements the optional interfaces, their methods.\<close>

record ('s, 'h) app_config =
  ac_name :: string
  ac_ready :: "('s \<Rightarrow> string option \<times> 's) option"
  ac_models :: "reg_arg list option"
  ac_urls :: "'h route list option"
  ac_admin :: "(admin_site \<Rightarrow> (string, admin_site) go_result) option"

record ('s, 'h) app_registry =
  ar_order :: "string list"
  ar_by_name :: "string \<rightharpoonup> ('s, 'h) app_config"

datatype app_error = EmptyAppName | DuplicateApp string | ReadyFailed string string

definition new_app_registry :: "('s, 'h) app_registry" where
  "new_app_registry = \<lparr>ar_order = [], ar_by_name = Map.empty\<rparr>"

definition app_register :: "('s, 'h) app_config \<Rightarrow> ('s, 'h) app_registry \<Rightarrow> app_error + ('s, 'h) app_registry" where
  "app_register c r =
     (let name = ac_name c
      in if name = [] then Inl EmptyAppName
         else if ar_by_name r name \<noteq> None then Inl (DuplicateApp name)
         else Inr (r\<lparr>ar_by_name := (ar_by_name r)(name \<mapsto> c), ar_order := ar_order r @ [name]\<rparr>))"

definition app_get :: "('s, 'h) app_registry \<Rightarrow> string \<Rightarrow> ('s, 'h) app_config option" where
  "app_get r name = ar_by_name r name"

definition app_names :: "('s, 'h) app_registry \<Rightarrow> string list" where
  "app_names r = ar_order r"

fun ready_in :: "('s, 'h) app_registry \<Rightarrow> string list \<Rightarrow> 's \<Rightarrow> app_error option \<times> 's" where
  "ready_in r [] s = (None, s)"
| "ready_in r (name # names) s =
     (case Option.bind (ar_by_name r name) ac_ready of
        None \<Rightarrow> ready_in r names s
      | Some init \<Rightarrow>
          (case init s of
             (Some e, s1) \<Rightarrow> (Some (ReadyFailed name e), s1)
           | (None, s1) \<Rightarrow> ready_in r names s1))"

definition apps_ready :: "('s, 'h) app_registry \<Rightarrow> 's \<Rightarrow> app_error option \<times> 's" where
  "apps_ready r s = ready_in r (ar_order r) s"

subsection \<open>Commands\<close>

text \<open>A command runs on a state \<open>'s\<close>; its errors are of a type \<open>'e\<close>, into which \<open>err\<close> puts a text.\<close>

record ('e, 's) command =
  cm_name :: string
  cm_help :: string
  cm_run :: "string list \<Rightarrow> 's \<Rightarrow> 'e option \<times> 's"

text \<open>The map of a registry, as the list of its entries: every entry is added with a new name.\<close>

type_synonym ('e, 's) command_registry = "(string \<times> ('e, 's) command) list"

definition command_register ::
  "(string \<Rightarrow> bool) \<Rightarrow> ('e, 's) command \<Rightarrow> ('e, 's) command_registry \<Rightarrow> string + ('e, 's) command_registry"
where
  "command_register pr c r =
     (if map_of r (cm_name c) \<noteq> None then Inl (''manage: duplicate command '' @ go_quote pr (cm_name c))
      else Inr (r @ [(cm_name c, c)]))"

text \<open>The names of the registry, sorted as byte strings.\<close>

definition command_names :: "('e, 's) command_registry \<Rightarrow> string list" where
  "command_names r = sort (map fst r)"

text \<open>The verb \<open>%-16s\<close>, which counts runes.\<close>

definition pad16 :: "string \<Rightarrow> string" where
  "pad16 s = s @ replicate (16 - rune_count s) CHR '' ''"

definition usage :: "('e, 's) command_registry \<Rightarrow> string" where
  "usage r =
     ''usage: djangogo <command> [args]'' @ [newline] @ [newline] @ ''Available commands:'' @ [newline] @
     concat (map (\<lambda>n. ''  '' @ pad16 n @ '' '' @ (case map_of r n of Some c \<Rightarrow> cm_help c | None \<Rightarrow> []) @ [newline])
       (command_names r))"

text \<open>Dispatch: the text it prints itself, the error, and the state the command leaves.\<close>

definition command_execute ::
  "(string \<Rightarrow> bool) \<Rightarrow> (string \<Rightarrow> 'e) \<Rightarrow> ('e, 's) command_registry \<Rightarrow> string list \<Rightarrow> 's \<Rightarrow>
     (string \<times> 'e option) \<times> 's"
where
  "command_execute pr err r args s =
     (case args of
        [] \<Rightarrow> ((usage r, None), s)
      | name # rest \<Rightarrow>
          (case map_of r name of
             None \<Rightarrow>
               (([], Some (err (''manage: unknown command '' @ go_quote pr name @ '' (run with no arguments to list commands)''))), s)
           | Some c \<Rightarrow> (case cm_run c rest s of (e, s1) \<Rightarrow> (([], e), s1))))"

subsection \<open>Facts\<close>

definition app_registry_wf :: "('s, 'h) app_registry \<Rightarrow> bool" where
  "app_registry_wf r \<longleftrightarrow> distinct (ar_order r) \<and> set (ar_order r) = dom (ar_by_name r) \<and>
     [] \<notin> dom (ar_by_name r) \<and> (\<forall>n c. ar_by_name r n = Some c \<longrightarrow> ac_name c = n)"

text \<open>
  The contract the registries share: entries are added one after the other, each under a new name, and an
  entry keeps its place and its name for good. \<open>names\<close> is the order of registration.
\<close>

locale ordered_registry =
  fixes add :: "'r \<Rightarrow> 'x \<Rightarrow> 'e + 'r"
    and inv :: "'r \<Rightarrow> bool"
    and names :: "'r \<Rightarrow> string list"
    and lookup :: "'r \<Rightarrow> string \<Rightarrow> 'v option"
    and key :: "'x \<Rightarrow> string"
    and admissible :: "'x \<Rightarrow> bool"
  assumes inv_names: "inv r \<Longrightarrow> distinct (names r) \<and> dom (lookup r) = set (names r)"
    and add_appends: "add r x = Inr r' \<Longrightarrow> inv r \<Longrightarrow> admissible x \<Longrightarrow> inv r' \<and> names r' = names r @ [key x]"
    and add_keeps: "add r x = Inr r' \<Longrightarrow> inv r \<Longrightarrow> admissible x \<Longrightarrow> n \<in> set (names r) \<Longrightarrow> lookup r' n = lookup r n"
begin

lemma add_new:
  assumes "add r x = Inr r'" and "inv r" and "admissible x"
  shows "lookup r (key x) = None"
proof -
  from add_appends [OF assms] inv_names have "distinct (names r @ [key x])" by metis
  then have "key x \<notin> dom (lookup r)" using inv_names [OF assms(2)] by simp
  then show ?thesis by blast
qed

lemma add_all:
  assumes "loop_err add r xs = Inr r'" and "inv r" and "\<forall>x \<in> set xs. admissible x"
  shows "inv r' \<and> names r' = names r @ map key xs"
  using assms
proof (induction xs arbitrary: r)
  case (Cons x xs)
  then obtain r1 where r1: "add r x = Inr r1" "loop_err add r1 xs = Inr r'" by (auto split: sum.splits)
  with add_appends [OF r1(1)] Cons.prems Cons.IH [OF r1(2)] show ?case by simp
qed simp

lemma add_all_distinct:
  assumes "loop_err add r xs = Inr r'" and "inv r" and "\<forall>x \<in> set xs. admissible x"
  shows "distinct (map key xs) \<and> set (map key xs) \<inter> set (names r) = {}"
proof -
  from add_all [OF assms] inv_names have "distinct (names r @ map key xs)" by metis
  then show ?thesis by auto
qed

lemma add_all_keeps:
  assumes "loop_err add r xs = Inr r'" and "inv r" and "\<forall>x \<in> set xs. admissible x" and "n \<in> set (names r)"
  shows "lookup r' n = lookup r n"
  using assms
proof (induction xs arbitrary: r)
  case (Cons x xs)
  then obtain r1 where r1: "add r x = Inr r1" "loop_err add r1 xs = Inr r'" by (auto split: sum.splits)
  with add_appends [OF r1(1)] add_keeps [OF r1(1)] Cons.prems Cons.IH [OF r1(2)] show ?case by simp
qed simp

end

text \<open>A registry that answers with the entries themselves.\<close>

locale stored_registry = ordered_registry add inv names lookup key admissible
  for add :: "'r \<Rightarrow> 'x \<Rightarrow> 'e + 'r"
    and inv :: "'r \<Rightarrow> bool"
    and names :: "'r \<Rightarrow> string list"
    and lookup :: "'r \<Rightarrow> string \<Rightarrow> 'x option"
    and key :: "'x \<Rightarrow> string"
    and admissible :: "'x \<Rightarrow> bool" +
  assumes add_stores: "add r x = Inr r' \<Longrightarrow> inv r \<Longrightarrow> admissible x \<Longrightarrow> lookup r' (key x) = Some x"
begin

lemma add_all_finds:
  assumes "loop_err add r xs = Inr r'" and "inv r" and "\<forall>x \<in> set xs. admissible x" and "x \<in> set xs"
  shows "lookup r' (key x) = Some x"
  using assms
proof (induction xs arbitrary: r)
  case (Cons y xs)
  then obtain r1 where r1: "add r y = Inr r1" "loop_err add r1 xs = Inr r'" by (auto split: sum.splits)
  with Cons.prems have "inv r1" "names r1 = names r @ [key y]" using add_appends [OF r1(1)] by simp_all
  with add_all_keeps [OF r1(2), of "key y"] add_stores [OF r1(1)] Cons.prems Cons.IH [OF r1(2)] show ?case by auto
qed simp

end

lemma new_app_registry_wf: "app_registry_wf new_app_registry"
  by (simp add: app_registry_wf_def new_app_registry_def)

interpretation apps: stored_registry "\<lambda>r c. app_register c r" app_registry_wf app_names app_get ac_name "\<lambda>c. True"
  by unfold_locales
    (auto simp: app_registry_wf_def app_register_def app_names_def app_get_def Let_def domIff split: if_splits)

lemma command_registered: "command_register pr c r = Inr r' \<longleftrightarrow> map_of r (cm_name c) = None \<and> r' = r @ [(cm_name c, c)]"
  by (auto simp: command_register_def split: if_splits)

interpretation commands: stored_registry "\<lambda>r c. command_register pr c r"
  "\<lambda>r. distinct (map fst r)" "map fst" map_of cm_name "\<lambda>c. True" for pr
  by unfold_locales (auto simp: command_registered dom_map_of_conv_image_fst map_add_def map_of_eq_None_iff [symmetric])

lemma register_apps_wf:
  assumes "loop_err (\<lambda>r c. app_register c r) new_app_registry configs = Inr r"
  shows "app_registry_wf r \<and> ar_order r = map ac_name configs"
  using apps.add_all [OF assms new_app_registry_wf] by (simp add: app_names_def new_app_registry_def)

lemma register_apps_get:
  assumes "loop_err (\<lambda>r c. app_register c r) new_app_registry configs = Inr r" and "c \<in> set configs"
  shows "app_get r (ac_name c) = Some c"
  using apps.add_all_finds [OF assms(1) new_app_registry_wf] assms(2) by simp

lemma command_names_sorted: "sorted (command_names r) \<and> set (command_names r) = fst ` set r"
  by (simp add: command_names_def)

text \<open>Commands that register are dispatched by their names, and no later one takes a name over.\<close>

lemma registered_commands_dispatch:
  assumes "loop_err (\<lambda>r c. command_register pr c r) [] cs = Inr r"
  shows "c \<in> set cs \<Longrightarrow> command_execute pr err r (cm_name c # args) s = (([], fst (cm_run c args s)), snd (cm_run c args s))"
    and "n \<notin> cm_name ` set cs \<Longrightarrow> fst (fst (command_execute pr err r (n # args) s)) = [] \<and>
      snd (fst (command_execute pr err r (n # args) s)) \<noteq> None \<and> snd (command_execute pr err r (n # args) s) = s"
proof -
  show "c \<in> set cs \<Longrightarrow> command_execute pr err r (cm_name c # args) s = (([], fst (cm_run c args s)), snd (cm_run c args s))"
    using commands.add_all_finds [OF assms] by (simp add: command_execute_def split: prod.split)
  from commands.add_all [OF assms] have "map fst r = map cm_name cs" by simp
  then have "fst ` set r = cm_name ` set cs" by (metis list.set_map)
  then have "n \<notin> cm_name ` set cs \<Longrightarrow> map_of r n = None" by (simp add: map_of_eq_None_iff)
  then show "n \<notin> cm_name ` set cs \<Longrightarrow> fst (fst (command_execute pr err r (n # args) s)) = [] \<and>
      snd (fst (command_execute pr err r (n # args) s)) \<noteq> None \<and> snd (command_execute pr err r (n # args) s) = s"
    by (simp add: command_execute_def)
qed

end
