(* ===== verification/App_Scaffold.thy ===== *)
theory App_Scaffold
  imports App_Core
begin

text \<open>
  The package \<open>scaffold\<close> and the commands \<open>startproject\<close>, \<open>startapp\<close> and \<open>version\<close>: the skeletons of a
  project and of an app, the part of \<open>text/template\<close> they use, and the files that are written. The files
  of the disk and the errors of the operating system are those of \<open>Mig_Writer\<close>.
\<close>

subsection \<open>Templates\<close>

text \<open>
  A parsed template: bytes, \<open>{{.Field}}\<close>, \<open>{{if .Field}}\<close> and \<open>{{end}}\<close>. The condition of an \<open>if\<close> holds for a
  text that is not empty.
\<close>

datatype tmpl_piece = TChar char | TField string | TIf string | TEnd

definition tmpl_action :: "string \<Rightarrow> tmpl_piece option" where
  "tmpl_action a =
     (if HasPrefix a ''.'' then Some (TField (drop 1 a))
      else if HasPrefix a ''if .'' then Some (TIf (drop 4 a))
      else if a = ''end'' then Some TEnd
      else None)"

text \<open>The text up to the closing braces of an action, and what follows them.\<close>

fun action_end :: "string \<Rightarrow> (string \<times> string) option" where
  "action_end [] = None"
| "action_end (c # s) =
     (if HasPrefix (c # s) ''}}'' then Some ([], drop 1 s) else map_option (apfst ((#) c)) (action_end s))"

lemma action_end_shorter: "action_end s = Some (a, r) \<Longrightarrow> length r < length s"
  by (induction s arbitrary: a r) (fastforce split: if_splits)+

function tmpl_parse :: "string \<Rightarrow> tmpl_piece list option" where
  "tmpl_parse [] = Some []"
| "tmpl_parse (c # s) =
     (if HasPrefix (c # s) ''{{'' then
        (case action_end (drop 1 s) of
           None \<Rightarrow> None
         | Some (a, r) \<Rightarrow>
             (case tmpl_action a of None \<Rightarrow> None | Some p \<Rightarrow> map_option ((#) p) (tmpl_parse r)))
      else map_option ((#) (TChar c)) (tmpl_parse s))"
  by pat_completeness auto
termination
  by (relation "measure length") (auto dest!: action_end_shorter)

text \<open>Execution; the list holds the conditions of the enclosing \<open>if\<close> actions.\<close>

fun tmpl_execute :: "(string \<rightharpoonup> string) \<Rightarrow> tmpl_piece list \<Rightarrow> bool list \<Rightarrow> string option" where
  "tmpl_execute d [] st = (if st = [] then Some [] else None)"
| "tmpl_execute d (p # ps) st =
     (case p of
        TChar c \<Rightarrow> map_option ((@) (if list_all id st then [c] else [])) (tmpl_execute d ps st)
      | TField f \<Rightarrow>
          if list_all id st then (case d f of None \<Rightarrow> None | Some v \<Rightarrow> map_option ((@) v) (tmpl_execute d ps st))
          else tmpl_execute d ps st
      | TIf f \<Rightarrow>
          if list_all id st then (case d f of None \<Rightarrow> None | Some v \<Rightarrow> tmpl_execute d ps ((v \<noteq> []) # st))
          else tmpl_execute d ps (False # st)
      | TEnd \<Rightarrow> (case st of [] \<Rightarrow> None | b # st1 \<Rightarrow> tmpl_execute d ps st1))"

definition project_go_mod :: string where \<open>
  project_go_mod =
     line 0 ''module {{.Module}}'' @
     line 0 [] @
     line 0 ''go {{.GoVersion}}'' @
     line 0 [] @
     line 0 ''require github.com/oliverhaas/djangogo v0.0.0-00010101000000-000000000000'' @
     line 0 ''{{if .ReplacePath}}'' @
     line 0 ''replace github.com/oliverhaas/djangogo => {{.ReplacePath}}'' @
     ''{{end}}''\<close>

definition project_settings :: string where \<open>
  project_settings =
     line 0 ''package main'' @
     line 0 [] @
     line 0 ''import "github.com/oliverhaas/djangogo/conf"'' @
     line 0 [] @
     line 0 ''// settings returns the configuration for this project. Edit it to point at your'' @
     line 0 ''// database and to set a real SecretKey before deploying.'' @
     line 0 ''func settings() conf.Settings {'' @
     line 1 ''return conf.Settings{'' @
     line 2 ''Debug:     true,'' @
     line 2 ''SecretKey: "change-me-to-a-real-secret-key",'' @
     line 2 ''Database: conf.Database{'' @
     line 3 ''Driver: "sqlite",'' @
     line 3 ''DSN:    "file:db.sqlite3?cache=shared",'' @
     line 2 ''},'' @
     line 1 ''}'' @
     line 0 ''}''\<close>

definition project_main :: string where \<open>
  project_main =
     line 0 ''package main'' @
     line 0 [] @
     line 0 ''import ('' @
     line 1 ''"fmt"'' @
     line 1 ''"os"'' @
     line 0 [] @
     line 1 ''"github.com/oliverhaas/djangogo"'' @
     line 1 ''"github.com/oliverhaas/djangogo/auth"'' @
     line 0 [] @
     line 1 ''"{{.Module}}/{{.AppName}}"'' @
     line 0 '')'' @
     line 0 [] @
     line 0 ''func main() {'' @
     line 1 ''app, err := djangogo.New(settings(), &{{.AppName}}.App{}, auth.App{})'' @
     line 1 ''if err != nil {'' @
     line 2 ''fmt.Fprintln(os.Stderr, "error:", err)'' @
     line 2 ''os.Exit(1)'' @
     line 1 ''}'' @
     line 1 ''if err := app.Execute(os.Args[1:]); err != nil {'' @
     line 2 ''fmt.Fprintln(os.Stderr, "error:", err)'' @
     line 2 ''os.Exit(1)'' @
     line 1 ''}'' @
     line 0 ''}''\<close>

definition app_config_tmpl :: string where \<open>
  app_config_tmpl =
     line 0 ''package {{.AppName}}'' @
     line 0 [] @
     line 0 ''// App is the application config for the {{.AppName}} package. It reports the app'' @
     line 0 ''// name and the models the app declares.'' @
     line 0 ''type App struct{}'' @
     line 0 [] @
     line 0 ''// Name reports the app's unique name.'' @
     line 0 ''func (App) Name() string { return "{{.AppName}}" }'' @
     line 0 [] @
     line 0 ''// Models returns pointers to the zero-valued models this app declares.'' @
     line 0 ''func (App) Models() []any { return []any{&Post{}} }''\<close>

definition app_models_tmpl :: string where \<open>
  app_models_tmpl =
     line 0 ''package {{.AppName}}'' @
     line 0 [] @
     line 0 ''// Post is a sample model. Replace it with your own models and run'' @
     line 0 ''// "go run . makemigrations" to generate migrations.'' @
     line 0 ''type Post struct {'' @
     line 1 ''ID        int64'' @
     line 1 ''Title     string `orm:"max_length=200"`'' @
     line 1 ''Body      string `orm:"type=text"`'' @
     line 1 ''Published bool'' @
     line 0 ''}'' @
     line 0 [] @
     line 0 ''// String is Django's __str__: the admin changelist and templates use it as the'' @
     line 0 ''// object's label.'' @
     line 0 ''func (p Post) String() string { return p.Title }''\<close>

definition app_admin_tmpl :: string where \<open>
  app_admin_tmpl =
     line 0 ''package {{.AppName}}'' @
     line 0 [] @
     line 0 ''import "github.com/oliverhaas/djangogo/admin"'' @
     line 0 [] @
     line 0 ''// RegisterAdmin registers this app's models with the project's admin site.'' @
     line 0 ''// djangogo.New calls it automatically and mounts the admin at /admin/.'' @
     line 0 ''func (App) RegisterAdmin(site *admin.AdminSite) {'' @
     line 1 ''admin.Register[Post](site, admin.ModelAdmin{'' @
     line 2 ''ListDisplay: []string{"ID", "Title", "Published"},'' @
     line 2 ''Ordering:    []string{"-id"},'' @
     line 1 ''})'' @
     line 0 ''}''\<close>

definition app_urls_tmpl :: string where \<open>
  app_urls_tmpl =
     line 0 ''package {{.AppName}}'' @
     line 0 [] @
     line 0 ''import ('' @
     line 1 ''"net/http"'' @
     line 0 [] @
     line 1 ''"github.com/oliverhaas/djangogo/urls"'' @
     line 0 '')'' @
     line 0 [] @
     line 0 ''// URLs returns this app's routes, mounted at the site root by djangogo.New.'' @
     line 0 ''func (App) URLs() []urls.Route {'' @
     line 1 ''return []urls.Route{'' @
     line 2 ''urls.PathFunc("GET /{$}", welcome, "home"),'' @
     line 1 ''}'' @
     line 0 ''}'' @
     line 0 [] @
     line 0 ''// welcome is a placeholder landing page. Replace it with your own views.'' @
     line 0 ''func welcome(w http.ResponseWriter, _ *http.Request) {'' @
     line 1 ''w.Header().Set("Content-Type", "text/html; charset=utf-8")'' @
     line 1 ''_, _ = w.Write([]byte(`<h1>It worked!</h1>'' @
     line 0 ''<p>Your {{.AppName}} app is running. The admin is at <a href="/admin/">/admin/</a>.</p>`))'' @
     line 0 ''}''\<close>
subsection \<open>The skeletons\<close>

record scaffold_data =
  sd_name :: string
  sd_app_name :: string
  sd_module :: string
  sd_replace_path :: string
  sd_go_version :: string

definition scaffold_fields :: "scaffold_data \<Rightarrow> (string \<rightharpoonup> string)" where
  "scaffold_fields d =
     [''Name'' \<mapsto> sd_name d, ''AppName'' \<mapsto> sd_app_name d, ''Module'' \<mapsto> sd_module d,
      ''ReplacePath'' \<mapsto> sd_replace_path d, ''GoVersion'' \<mapsto> sd_go_version d]"

definition go_version :: string where "go_version = ''1.26''"

type_synonym scaffold_file = "string \<times> string"

text \<open>\<open>filepath.Dir\<close>: the path up to its last slash, cleaned.\<close>

definition path_dir :: "string \<Rightarrow> string" where
  "path_dir p = clean_path (case LastIndex p ''/'' of None \<Rightarrow> [] | Some i \<Rightarrow> take (Suc i) p)"

datatype scaffold_error =
    CreateDirFailed string string
  | TemplateFailed string
  | WriteFileError string string

definition render_file :: "string \<Rightarrow> scaffold_data \<Rightarrow> disk \<Rightarrow> scaffold_file \<Rightarrow> scaffold_error + disk" where
  "render_file dir d dk = (\<lambda>(path, tmpl).
     let out = path_join [dir, path]
     in case d_mkdir_error dk (path_dir out) of
          Some e \<Rightarrow> Inl (CreateDirFailed path e)
        | None \<Rightarrow>
            (case Option.bind (tmpl_parse tmpl) (\<lambda>ps. tmpl_execute (scaffold_fields d) ps []) of
               None \<Rightarrow> Inl (TemplateFailed path)
             | Some txt \<Rightarrow>
                 (case d_write_error dk out of
                    Some e \<Rightarrow> Inl (WriteFileError path e)
                  | None \<Rightarrow> Inr (dk\<lparr>d_files := (d_files dk)(out \<mapsto> txt)\<rparr>))))"

text \<open>\<open>render\<close>: the files one after the other; those before a failure stay written.\<close>

fun render_files :: "string \<Rightarrow> scaffold_data \<Rightarrow> scaffold_file list \<Rightarrow> disk \<Rightarrow> scaffold_error option \<times> disk" where
  "render_files dir d [] dk = (None, dk)"
| "render_files dir d (f # fs) dk =
     (case render_file dir d dk f of Inl e \<Rightarrow> (Some e, dk) | Inr dk1 \<Rightarrow> render_files dir d fs dk1)"

definition app_files :: "scaffold_file list" where
  "app_files =
     [(''app.go'', app_config_tmpl), (''models.go'', app_models_tmpl), (''admin.go'', app_admin_tmpl),
      (''urls.go'', app_urls_tmpl)]"

definition scaffold_project :: "string \<Rightarrow> string \<Rightarrow> string \<Rightarrow> disk \<Rightarrow> scaffold_error option \<times> disk" where
  "scaffold_project dir name replacePath dk =
     (let d = \<lparr>sd_name = name, sd_app_name = name @ ''app'', sd_module = name, sd_replace_path = replacePath,
               sd_go_version = go_version\<rparr>
      in render_files dir d
           ([(''go.mod'', project_go_mod), (''settings.go'', project_settings), (''main.go'', project_main)] @
            map (\<lambda>(p, t). (path_join [sd_app_name d, p], t)) app_files) dk)"

definition app_package :: "string \<Rightarrow> string" where
  "app_package name = (if HasSuffix name ''app'' then name else name @ ''app'')"

definition scaffold_app :: "string \<Rightarrow> string \<Rightarrow> string \<Rightarrow> disk \<Rightarrow> scaffold_error option \<times> disk" where
  "scaffold_app dir name replacePath dk =
     (let pkg = app_package name;
          d = \<lparr>sd_name = name, sd_app_name = pkg, sd_module = pkg, sd_replace_path = [], sd_go_version = go_version\<rparr>
      in render_files (path_join [dir, pkg]) d app_files dk)"

subsection \<open>The commands\<close>

datatype start_error = StartUsage string | ScaffoldFailed scaffold_error

text \<open>A command's printed text and error.\<close>

definition startproject_run ::
  "(string \<Rightarrow> bool) \<Rightarrow> string list \<Rightarrow> disk \<Rightarrow> (string \<times> start_error option) \<times> disk"
where
  "startproject_run pr args dk =
     (case args of
        [] \<Rightarrow> (([], Some (StartUsage ''startproject: usage: startproject <name>'')), dk)
      | name # rest \<Rightarrow>
          if name = [] then (([], Some (StartUsage ''startproject: usage: startproject <name>'')), dk)
          else
            (let dir = ''./'' @ name
             in case scaffold_project dir name [] dk of
                  (Some e, dk1) \<Rightarrow> (([], Some (ScaffoldFailed e)), dk1)
                | (None, dk1) \<Rightarrow>
                    ((''Created project '' @ go_quote pr name @ '' in '' @ dir @ [newline] @
                      ''Next: cd '' @ name @ '' && go mod tidy && go run . runserver'' @ [newline], None), dk1)))"

definition startapp_run ::
  "(string \<Rightarrow> bool) \<Rightarrow> string list \<Rightarrow> disk \<Rightarrow> (string \<times> start_error option) \<times> disk"
where
  "startapp_run pr args dk =
     (case args of
        [] \<Rightarrow> (([], Some (StartUsage ''startapp: usage: startapp <name>'')), dk)
      | name # rest \<Rightarrow>
          if name = [] then (([], Some (StartUsage ''startapp: usage: startapp <name>'')), dk)
          else
            (case scaffold_app ''.'' name [] dk of
               (Some e, dk1) \<Rightarrow> (([], Some (ScaffoldFailed e)), dk1)
             | (None, dk1) \<Rightarrow> ((''Created app '' @ go_quote pr name @ [newline], None), dk1)))"

definition version :: string where "version = ''0.0.1-dev''"

definition version_run :: "string \<times> string option" where
  "version_run = (''djangogo '' @ version @ [newline], None)"

subsection \<open>Executing templates\<close>

fun piece_text :: "(string \<rightharpoonup> string) \<Rightarrow> tmpl_piece \<Rightarrow> string" where
  "piece_text d (TChar c) = [c]"
| "piece_text d (TField f) = (case d f of Some v \<Rightarrow> v | None \<Rightarrow> [])"
| "piece_text d p = []"

definition plain_piece :: "(string \<rightharpoonup> string) \<Rightarrow> tmpl_piece \<Rightarrow> bool" where
  "plain_piece d p \<longleftrightarrow> (case p of TChar c \<Rightarrow> True | TField f \<Rightarrow> d f \<noteq> None | _ \<Rightarrow> False)"

lemma execute_plain:
  "list_all (plain_piece d) ps \<Longrightarrow> tmpl_execute d ps [] = Some (concat (map (piece_text d) ps))"
  by (induction ps) (auto simp: plain_piece_def split: tmpl_piece.splits option.splits)

lemma scaffold_field_names: "f \<in> {''Name'', ''AppName'', ''Module'', ''ReplacePath'', ''GoVersion''} \<Longrightarrow> scaffold_fields d f \<noteq> None"
  by (auto simp: scaffold_fields_def)

text \<open>The pieces of a template without conditions whose fields are those of the data.\<close>

definition plain_template :: "string \<Rightarrow> bool" where
  "plain_template t \<longleftrightarrow>
     (case tmpl_parse t of
        None \<Rightarrow> False
      | Some ps \<Rightarrow>
          list_all (\<lambda>p. case p of
             TChar c \<Rightarrow> True
           | TField f \<Rightarrow> f \<in> {''Name'', ''AppName'', ''Module'', ''ReplacePath'', ''GoVersion''}
           | _ \<Rightarrow> False) ps)"

definition rendered :: "scaffold_data \<Rightarrow> string \<Rightarrow> string" where
  "rendered d t = (case tmpl_parse t of None \<Rightarrow> [] | Some ps \<Rightarrow> concat (map (piece_text (scaffold_fields d)) ps))"

lemma render_plain:
  assumes "plain_template t"
  shows "Option.bind (tmpl_parse t) (\<lambda>ps. tmpl_execute (scaffold_fields d) ps []) = Some (rendered d t)"
proof -
  from assms obtain ps where ps: "tmpl_parse t = Some ps"
    and ok: "list_all (\<lambda>p. case p of
             TChar c \<Rightarrow> True
           | TField f \<Rightarrow> f \<in> {''Name'', ''AppName'', ''Module'', ''ReplacePath'', ''GoVersion''}
           | _ \<Rightarrow> False) ps"
    unfolding plain_template_def by (auto split: option.splits)
  from ok have "list_all (plain_piece (scaffold_fields d)) ps"
    using scaffold_field_names [of _ d] unfolding list_all_iff plain_piece_def
    by (fastforce split: tmpl_piece.splits)
  then show ?thesis by (simp add: ps rendered_def execute_plain)
qed

lemma templates_plain:
  "plain_template app_config_tmpl" "plain_template app_models_tmpl" "plain_template app_admin_tmpl"
  "plain_template app_urls_tmpl" "plain_template project_settings" "plain_template project_main"
  by code_simp+

definition package_clause :: "string \<Rightarrow> bool" where
  "package_clause t \<longleftrightarrow>
     (case tmpl_parse t of
        None \<Rightarrow> False
      | Some ps \<Rightarrow> take 10 ps = map TChar ''package '' @ [TField ''AppName'', TChar newline])"

lemma app_templates_package:
  "package_clause app_config_tmpl" "package_clause app_models_tmpl" "package_clause app_admin_tmpl"
  "package_clause app_urls_tmpl"
  by code_simp+

lemma rendered_package:
  assumes "package_clause t"
  shows "HasPrefix (rendered d t) (''package '' @ sd_app_name d @ [newline])"
proof -
  from assms obtain ps where ps: "tmpl_parse t = Some ps"
    and "take 10 ps = map TChar ''package '' @ [TField ''AppName'', TChar newline]"
    by (auto simp: package_clause_def split: option.splits)
  then have split: "ps = (map TChar ''package '' @ [TField ''AppName'', TChar newline]) @ drop 10 ps"
    by (metis append_take_drop_id)
  have "rendered d t = concat (map (piece_text (scaffold_fields d)) ps)" by (simp add: rendered_def ps)
  also have "\<dots> = (''package '' @ sd_app_name d @ [newline]) @ concat (map (piece_text (scaffold_fields d)) (drop 10 ps))"
    by (subst split) (simp add: scaffold_fields_def)
  finally show ?thesis by (metis HasPrefix_append)
qed

subsection \<open>Paths\<close>

text \<open>A name that is one element of a path.\<close>

definition plain_name :: "string \<Rightarrow> bool" where
  "plain_name n \<longleftrightarrow> n \<noteq> [] \<and> CHR ''/'' \<notin> set n \<and> n \<noteq> ''.'' \<and> n \<noteq> ''..''"

lemma path_join_dot: "plain_name n \<Longrightarrow> path_join [''.'', n] = n"
  by (auto simp: path_join_def clean_path_def Let_def HasPrefix_def plain_name_def Split_single Split_append
      Join_Cons)

lemma path_join_two:
  assumes "plain_name n" and "plain_name f"
  shows "path_join [n, f] = n @ ''/'' @ f"
proof -
  from assms(1) have "\<not> HasPrefix (n @ ''/'' @ f) ''/''"
    by (cases n) (auto simp: plain_name_def HasPrefix_def)
  moreover have "Split (n @ ''/'' @ f) CHR ''/'' = [n, f]"
    using assms by (simp add: plain_name_def Split_append Split_single)
  ultimately show ?thesis using assms
    by (simp add: path_join_def clean_path_def Let_def plain_name_def)
qed

lemma app_package_plain: "CHR ''/'' \<notin> set n \<Longrightarrow> plain_name (app_package n)"
  by (cases "HasSuffix n ''app''") (auto simp: app_package_def plain_name_def HasSuffix_def)

lemma app_package_idem: "app_package (app_package n) = app_package n"
  by (auto simp: app_package_def HasSuffix_def)

lemma app_file_names: "\<forall>(p, t) \<in> set app_files. plain_name p \<and> plain_template t \<and> package_clause t"
  using templates_plain app_templates_package by (simp add: app_files_def plain_name_def)

lemma render_files_all:
  assumes "d_mkdir_error dk = (\<lambda>p. None)" and "d_write_error dk = (\<lambda>p. None)"
    and "\<forall>(p, t) \<in> set fs. plain_template t"
  shows "render_files dir d fs dk =
    (None, dk\<lparr>d_files := d_files dk ++ map_of (rev (map (\<lambda>(p, t). (path_join [dir, p], rendered d t)) fs))\<rparr>)"
  using assms
proof (induction fs arbitrary: dk)
  case (Cons f fs)
  obtain p t where f: "f = (p, t)" by (cases f)
  with Cons.prems have "render_file dir d dk f =
      Inr (dk\<lparr>d_files := (d_files dk)(path_join [dir, p] \<mapsto> rendered d t)\<rparr>)"
    by (simp add: render_file_def render_plain Let_def)
  with Cons f show ?case by (simp add: map_of_append map_add_assoc)
qed simp

lemma app_file_paths: "distinct (map fst app_files)"
  by (simp add: app_files_def)

definition app_data :: "string \<Rightarrow> scaffold_data" where
  "app_data name =
     \<lparr>sd_name = name, sd_app_name = app_package name, sd_module = app_package name, sd_replace_path = [],
      sd_go_version = go_version\<rparr>"

lemma startapp_run_ok:
  assumes "d_mkdir_error dk = (\<lambda>p. None)" and "d_write_error dk = (\<lambda>p. None)"
    and "name \<noteq> []" and "CHR ''/'' \<notin> set name"
  shows "startapp_run pr (name # rest) dk =
      ((''Created app '' @ go_quote pr name @ [newline], None),
       dk\<lparr>d_files := d_files dk ++
         map_of (rev (map (\<lambda>(p, t). (path_join [app_package name, p], rendered (app_data name) t)) app_files))\<rparr>)"
proof -
  have "\<forall>(p, t) \<in> set app_files. plain_template t" using app_file_names by auto
  from render_files_all [OF assms(1,2) this, of "app_package name" "app_data name"]
  have "scaffold_app ''.'' name [] dk = (None, dk\<lparr>d_files := d_files dk ++
      map_of (rev (map (\<lambda>(p, t). (path_join [app_package name, p], rendered (app_data name) t)) app_files))\<rparr>)"
    by (simp only: scaffold_app_def path_join_dot [OF app_package_plain [OF assms(4)]] app_data_def Let_def)
  with assms(3) show ?thesis by (simp add: startapp_run_def)
qed

text \<open>On a working disk \<open>startapp\<close> writes the four files of the app's package, each with its package clause,
  and changes no other file. What it writes depends on the name only, never on the files that are there: run
  again it puts the skeleton back over the models, routes and admin that were written since.\<close>

theorem startapp_overwrites_package:
  assumes "name \<noteq> []" and "CHR ''/'' \<notin> set name"
  shows "\<exists>files. (\<forall>dk. d_mkdir_error dk = (\<lambda>p. None) \<longrightarrow> d_write_error dk = (\<lambda>p. None) \<longrightarrow>
       startapp_run pr (name # rest) dk =
         ((''Created app '' @ go_quote pr name @ [newline], None), dk\<lparr>d_files := d_files dk ++ files\<rparr>)) \<and>
    dom files = {app_package name @ ''/'' @ f | f. f \<in> {''app.go'', ''models.go'', ''admin.go'', ''urls.go''}} \<and>
    (\<forall>p txt. files p = Some txt \<longrightarrow> HasPrefix txt (''package '' @ app_package name @ [newline]))"
proof -
  let ?pkg = "app_package name"
  let ?files = "map_of (rev (map (\<lambda>(p, t). (path_join [?pkg, p], rendered (app_data name) t)) app_files))"
  note plain = app_package_plain [OF assms(2)]
  have names: "plain_name ''app.go''" "plain_name ''models.go''" "plain_name ''admin.go''" "plain_name ''urls.go''"
    by (simp_all add: plain_name_def)
  have "dom ?files = {?pkg @ ''/'' @ f | f. f \<in> {''app.go'', ''models.go'', ''admin.go'', ''urls.go''}}"
    by (auto simp: dom_map_of_conv_image_fst app_files_def path_join_two [OF plain] names)
  moreover have "\<forall>p content. ?files p = Some content \<longrightarrow> HasPrefix content (''package '' @ ?pkg @ [newline])"
  proof (intro allI impI)
    fix p content assume "?files p = Some content"
    from map_of_SomeD [OF this] obtain t where "content = rendered (app_data name) t" "package_clause t"
      using app_file_names by auto
    with rendered_package [of t "app_data name"]
    show "HasPrefix content (''package '' @ ?pkg @ [newline])" by (simp add: app_data_def)
  qed
  moreover have "\<forall>dk. d_mkdir_error dk = (\<lambda>p. None) \<longrightarrow> d_write_error dk = (\<lambda>p. None) \<longrightarrow>
       startapp_run pr (name # rest) dk =
         ((''Created app '' @ go_quote pr name @ [newline], None), dk\<lparr>d_files := d_files dk ++ ?files\<rparr>)"
    by (intro allI impI startapp_run_ok assms)
  ultimately show ?thesis by (intro exI [of _ ?files]) (intro conjI; assumption)
qed

theorem startapp_overwrites_package_witness:
  "\<exists>files. snd (startapp_run (\<lambda>w. True) [''blog''] (sample_disk\<lparr>d_files := [''blogapp/models.go'' \<mapsto> ''my models'']\<rparr>)) =
       sample_disk\<lparr>d_files := [''blogapp/models.go'' \<mapsto> ''my models''] ++ files\<rparr> \<and>
     ''blogapp/models.go'' \<in> dom files"
proof -
  have "''blog'' \<noteq> []" "CHR ''/'' \<notin> set ''blog''" by simp_all
  from startapp_overwrites_package [OF this, of "\<lambda>w. True" "[]"] obtain files where
    all: "\<forall>dk. d_mkdir_error dk = (\<lambda>p. None) \<longrightarrow> d_write_error dk = (\<lambda>p. None) \<longrightarrow>
       startapp_run (\<lambda>w. True) [''blog''] dk =
         ((''Created app '' @ go_quote (\<lambda>w. True) ''blog'' @ [newline], None), dk\<lparr>d_files := d_files dk ++ files\<rparr>)"
    and dom: "dom files = {app_package ''blog'' @ ''/'' @ f | f. f \<in> {''app.go'', ''models.go'', ''admin.go'', ''urls.go''}}"
    by (elim exE conjE) (rule that)
  from all have run: "\<forall>dk. d_mkdir_error dk = (\<lambda>p. None) \<longrightarrow> d_write_error dk = (\<lambda>p. None) \<longrightarrow>
       snd (startapp_run (\<lambda>w. True) [''blog''] dk) = dk\<lparr>d_files := d_files dk ++ files\<rparr>" by simp
  have "app_package ''blog'' = ''blogapp''" by code_simp
  with dom have "''blogapp/models.go'' \<in> dom files" by auto
  moreover have "snd (startapp_run (\<lambda>w. True) [''blog''] (sample_disk\<lparr>d_files := [''blogapp/models.go'' \<mapsto> ''my models'']\<rparr>)) =
       sample_disk\<lparr>d_files := [''blogapp/models.go'' \<mapsto> ''my models''] ++ files\<rparr>"
    using run by (simp add: sample_disk_def)
  ultimately show ?thesis by blast
qed

end
