(* ===== verification/App_Application.thy ===== *)
theory App_Application
  imports App_Core Web_Templates
begin

text \<open>
  \<open>application.go\<close>: \<open>New\<close>, which configures the settings, readies the apps, collects models, migrations, routes
  and commands, and the handler it builds: the router behind the session, CSRF and authentication
  middlewares. A handler is kept as that chain; what each link does is in \<open>Web_Sessions\<close>, \<open>Web_Csrf\<close>,
  \<open>Web_Auth\<close> and \<open>Web_Urls\<close>. Opening a database and the conflicts of the router's patterns are parameters.
\<close>

subsection \<open>Handlers\<close>

datatype 'h site_handler = AppHandler 'h | AdminHandler admin_handler

text \<open>The chain, outermost link first. The session store signs with the secret key.\<close>

datatype 'h guarded_handler =
    RouterHandler "'h site_handler router"
  | AuthMiddleware "'h guarded_handler"
  | CsrfMiddleware "'h guarded_handler"

datatype 'h root_handler = Liveness | SessionMiddleware string string "'h guarded_handler"

datatype new_error =
    SettingsError string
  | AppError app_error
  | ModelError string registry_error
  | ResolveError registry_error
  | OpenError string
  | UnsupportedDriver string
  | AdminPanic string
  | RouterError router_error

subsection \<open>Collecting what the apps provide\<close>

definition register_models :: "registry \<Rightarrow> ('s, 'h) app_config \<Rightarrow> new_error + registry" where
  "register_models r c =
     (case ac_models c of
        None \<Rightarrow> Inr r
      | Some ms \<Rightarrow>
          loop_err (\<lambda>r m. case register r m of Inl e \<Rightarrow> Inl (ModelError (ac_name c) e) | Inr (r', i) \<Rightarrow> Inr r') r ms)"

definition collect_models :: "('s, 'h) app_config list \<Rightarrow> new_error + registry" where
  "collect_models configs =
     (case loop_err register_models new_registry configs of
        Inl e \<Rightarrow> Inl e
      | Inr r \<Rightarrow> (case resolve r of Inl e \<Rightarrow> Inl (ResolveError e) | Inr r' \<Rightarrow> Inr (freeze r')))"

definition migrations_app :: "('s, 'h) app_config list \<Rightarrow> string" where
  "migrations_app configs =
     (case filter (\<lambda>c. ac_models c \<noteq> None) configs of
        [c] \<Rightarrow> ac_name c
      | _ \<Rightarrow> ''app'')"

text \<open>The admin site, when an app registers with it; \<open>RegisterAdmin\<close> panics on an unknown model.\<close>

definition build_admin_site :: "('s, 'h) app_config list \<Rightarrow> new_error + admin_site option" where
  "build_admin_site configs =
     (case List.map_filter ac_admin configs of
        [] \<Rightarrow> Inr None
      | registrars \<Rightarrow>
          map_sum (\<lambda>e. e) Some
            (loop_err (\<lambda>site reg. case reg site of Panic e \<Rightarrow> Inl (AdminPanic e) | Value site' \<Rightarrow> Inr site')
               new_admin_site registrars))"

definition app_routes :: "('s, 'h) app_config list \<Rightarrow> 'h site_handler route list" where
  "app_routes configs =
     concat (map (\<lambda>c. case ac_urls c of
                       None \<Rightarrow> []
                     | Some rs \<Rightarrow> map (\<lambda>r. \<lparr>ro_pattern = ro_pattern r, ro_name = ro_name r,
                                            ro_handler = AppHandler (ro_handler r)\<rparr>) rs) configs)"

definition site_routes :: "admin_site option \<Rightarrow> 'h site_handler route list" where
  "site_routes site =
     (case site of
        None \<Rightarrow> []
      | Some st \<Rightarrow> map (\<lambda>r. \<lparr>ro_pattern = ro_pattern r, ro_name = ro_name r, ro_handler = AdminHandler (ro_handler r)\<rparr>)
                    (admin_routes st))"

text \<open>\<open>buildHandler\<close>: the handler, and the resolver that becomes the process-global one.\<close>

definition build_handler ::
  "(string list \<Rightarrow> string \<Rightarrow> string option) \<Rightarrow> settings \<Rightarrow> bool \<Rightarrow> ('s, 'h) app_config list \<Rightarrow> resolver \<Rightarrow>
     (new_error + 'h root_handler) \<times> resolver"
where
  "build_handler conflict s has_db configs global =
     (case (if has_db then build_admin_site configs else Inr None) of
        Inl e \<Rightarrow> (Inl e, global)
      | Inr site \<Rightarrow>
          (let routes = app_routes configs @ site_routes site
           in if routes = [] then (Inr Liveness, global)
              else
                (case new_router_checked conflict routes of
                   Inl e \<Rightarrow> (Inl (RouterError e), global)
                 | Inr router \<Rightarrow>
                     (let h = RouterHandler router;
                          h = (if has_db then AuthMiddleware h else h);
                          h = CsrfMiddleware h
                      in (Inr (SessionMiddleware (st_secret_key s) ''sessionid'' h),
                          set_url_resolver (router_resolver router) global)))))"

subsection \<open>The application\<close>

record ('s, 'h) application =
  ap_settings :: settings
  ap_apps :: "('s, 'h) app_registry"
  ap_models :: "registry option"
  ap_migrations :: mig_registry
  ap_migrations_app :: string
  ap_migrations_dir :: string
  ap_db :: "orm_db option"
  ap_handler :: "'h root_handler"
  ap_commands :: "(string \<times> string) list"

text \<open>The state of the process that \<open>New\<close> works on: the active settings, the resolver, the apps' own state.\<close>

record 's process =
  pr_active :: "settings option"
  pr_resolver :: resolver
  pr_apps :: 's

definition builtin_commands :: "(string \<times> string) list" where
  "builtin_commands =
     [(''version'', ''Print the Djan-Go-Go version''),
      (''runserver'', ''Start the development HTTP server''),
      (''makemigrations'', ''Create new migrations from model changes''),
      (''migrate'', ''Apply database migrations''),
      (''createsuperuser'', ''Create a superuser account''),
      (''startproject'', ''Generate a new project skeleton''),
      (''startapp'', ''Generate a new app package skeleton'')]"

text \<open>The database, opened when there is a DSN.\<close>

definition open_database ::
  "(string \<Rightarrow> string option) \<Rightarrow> settings \<Rightarrow> registry \<Rightarrow> new_error + orm_db option"
where
  "open_database sqlite_error s models =
     (if db_dsn (st_database s) = [] then Inr None
      else if db_driver_name (st_database s) = ''sqlite'' then
        (case sqlite_error (db_dsn (st_database s)) of
           Some e \<Rightarrow> Inl (OpenError e)
         | None \<Rightarrow> Inr (Some \<lparr>db_dialect = sqlite, db_registry = models\<rparr>))
      else Inl (UnsupportedDriver (db_driver_name (st_database s))))"

definition seed_migrations :: "mig_registry \<Rightarrow> mig_registry" where
  "seed_migrations default_registry = fold add_migration (all_migrations default_registry) new_mig_registry"

definition new_application ::
  "(string \<Rightarrow> string option) \<Rightarrow> (string list \<Rightarrow> string \<Rightarrow> string option) \<Rightarrow> mig_registry \<Rightarrow> settings \<Rightarrow>
     ('s, 'h) app_config list \<Rightarrow> 's process \<Rightarrow> (new_error + ('s, 'h) application) \<times> 's process"
where
  "new_application sqlite_error conflict default_migrations given configs p =
     (case configure given (pr_active p) of
        (s, active) \<Rightarrow>
          (let p = p\<lparr>pr_active := active\<rparr>
           in case check_settings s of
                Some e \<Rightarrow> (Inl (SettingsError e), p)
              | None \<Rightarrow>
                  (case loop_err (\<lambda>r c. app_register c r) new_app_registry configs of
                     Inl e \<Rightarrow> (Inl (AppError e), p)
                   | Inr apps \<Rightarrow>
                       (case apps_ready apps (pr_apps p) of
                          (Some e, s1) \<Rightarrow> (Inl (AppError e), p\<lparr>pr_apps := s1\<rparr>)
                        | (None, s1) \<Rightarrow>
                            (let p = p\<lparr>pr_apps := s1\<rparr>
                             in case collect_models configs of
                                  Inl e \<Rightarrow> (Inl e, p)
                                | Inr models \<Rightarrow>
                                    (case open_database sqlite_error s models of
                                       Inl e \<Rightarrow> (Inl e, p)
                                     | Inr db \<Rightarrow>
                                         (case build_handler conflict s (db \<noteq> None) configs (pr_resolver p) of
                                            (Inl e, g) \<Rightarrow> (Inl e, p\<lparr>pr_resolver := g\<rparr>)
                                          | (Inr h, g) \<Rightarrow>
                                              (Inr \<lparr>ap_settings = s, ap_apps = apps, ap_models = Some models,
                                                    ap_migrations = seed_migrations default_migrations,
                                                    ap_migrations_app = migrations_app configs,
                                                    ap_migrations_dir = ''migrations'', ap_db = db, ap_handler = h,
                                                    ap_commands = builtin_commands\<rparr>,
                                               p\<lparr>pr_resolver := g\<rparr>))))))))"

subsection \<open>The models of an application\<close>

definition pointers :: "('s, 'h) app_config list \<Rightarrow> reg_arg list" where
  "pointers configs = concat (map (\<lambda>c. case ac_models c of None \<Rightarrow> [] | Some ms \<Rightarrow> ms) configs)"

definition go_pointer :: "reg_arg \<Rightarrow> bool" where
  "go_pointer arg \<longleftrightarrow> (case arg of PointerToStruct st \<Rightarrow> go_struct st | _ \<Rightarrow> True)"

lemma register_name:
  assumes "register r arg = Inr (r', i)" and "registry_wf r" and "go_pointer arg"
  shows "registry_wf r' \<and> reg_frozen r' = reg_frozen r \<and>
    map m_name (reg_models r') = map m_name (reg_models r) @ [name_of arg]"
proof -
  from register_Inr [OF assms(1)] obtain st m where st: "arg = PointerToStruct st" "build_model st = Inr m"
    and r': "reg_models r' = reg_models r @ [m]" "reg_frozen r' = reg_frozen r" by auto
  from assms(3) st have go: "go_struct st" by (simp add: go_pointer_def)
  from build_model_wf [OF st(2) go] register_keeps_wf [OF _ assms(2) go, of r' i] assms(1) st r'
  show ?thesis by simp
qed

interpretation models: ordered_registry
  "\<lambda>r m. case register r m of Inl e \<Rightarrow> Inl (f e) | Inr (r', i) \<Rightarrow> Inr r'"
  "\<lambda>r. registry_wf r \<and> reg_frozen r = frozen" "\<lambda>r. map m_name (reg_models r)" registry_get name_of go_pointer for f frozen
proof unfold_locales
  fix r
  assume r: "registry_wf r \<and> reg_frozen r = frozen"
  then have "reg_by_name r n = Some i \<longleftrightarrow> i < length (reg_models r) \<and> map m_name (reg_models r) ! i = n" for n i
    by (auto simp: registry_wf_def)
  then have "(\<exists>i. reg_by_name r n = Some i) \<longleftrightarrow> n \<in> set (map m_name (reg_models r))" for n
    unfolding in_set_conv_nth by simp
  with r registry_wf_distinct_names
  show "distinct (map m_name (reg_models r)) \<and> dom (registry_get r) = set (map m_name (reg_models r))"
    by (auto simp: registry_get_def dom_def)
next
  fix r x r'
  assume "(case register r x of Inl e \<Rightarrow> Inl (f e) | Inr (r', i) \<Rightarrow> Inr r') = Inr r'"
    and "registry_wf r \<and> reg_frozen r = frozen" and "go_pointer x"
  with register_name show "(registry_wf r' \<and> reg_frozen r' = frozen) \<and>
      map m_name (reg_models r') = map m_name (reg_models r) @ [name_of x]"
    by (fastforce split: sum.splits prod.splits)
next
  fix r x r' n
  assume run: "(case register r x of Inl e \<Rightarrow> Inl (f e) | Inr (r', i) \<Rightarrow> Inr r') = Inr r'"
    and wf: "registry_wf r \<and> reg_frozen r = frozen" and n: "n \<in> set (map m_name (reg_models r))"
  from run obtain i where "register r x = Inr (r', i)" by (auto split: sum.splits)
  from register_Inr [OF this] obtain st :: struct_type and m where fresh: "reg_by_name r (rt_name (st_type st)) = None"
    and r': "r' = r\<lparr>reg_models := reg_models r @ [m], reg_by_type := (reg_by_type r)(st_type st \<mapsto> i),
        reg_by_name := (reg_by_name r)(rt_name (st_type st) \<mapsto> i)\<rparr>" by auto
  from n wf obtain k where "reg_by_name r n = Some k" "k < length (reg_models r)"
    by (auto simp: registry_wf_def in_set_conv_nth)
  with fresh r' show "registry_get r' n = registry_get r n" by (auto simp: registry_get_def nth_append)
qed

lemma register_loop_names:
  assumes "loop_err (\<lambda>r m. case register r m of Inl e \<Rightarrow> Inl (f e) | Inr (r', i) \<Rightarrow> Inr r') r ms = Inr r'"
    and "registry_wf r" and "\<forall>m \<in> set ms. go_pointer m"
  shows "registry_wf r' \<and> reg_frozen r' = reg_frozen r \<and>
    map m_name (reg_models r') = map m_name (reg_models r) @ map name_of ms"
  using models.add_all [OF assms(1), of "reg_frozen r"] assms(2,3) by simp

lemma register_models_names:
  assumes "loop_err register_models r configs = Inr r'" and "registry_wf r"
    and "\<forall>m \<in> set (pointers configs). go_pointer m"
  shows "registry_wf r' \<and> reg_frozen r' = reg_frozen r \<and>
    map m_name (reg_models r') = map m_name (reg_models r) @ map name_of (pointers configs)"
  using assms
proof (induction configs arbitrary: r)
  case (Cons c configs)
  then obtain r1 where r1: "register_models r c = Inr r1" and rest: "loop_err register_models r1 configs = Inr r'"
    by (auto split: sum.splits)
  show ?case
  proof (cases "ac_models c")
    case None
    with r1 have "r1 = r" by (simp add: register_models_def)
    with Cons.IH [OF rest] Cons.prems None show ?thesis by (simp add: pointers_def)
  next
    case (Some ms)
    from Cons.prems(3) Some have "\<forall>m \<in> set ms. go_pointer m" "\<forall>m \<in> set (pointers configs). go_pointer m"
      by (auto simp: pointers_def)
    with register_loop_names [of "ModelError (ac_name c)" r ms r1] r1 Some Cons.prems(2) Cons.IH [OF rest]
    show ?thesis by (simp add: register_models_def pointers_def)
  qed
qed (simp add: pointers_def)

lemma collect_models_wf:
  assumes "collect_models configs = Inr r" and "\<forall>m \<in> set (pointers configs). go_pointer m"
  shows "registry_wf r \<and> resolved r \<and> reg_frozen r \<and> map m_name (reg_models r) = map name_of (pointers configs)"
proof -
  from assms(1) obtain r0 r1 where r0: "loop_err register_models new_registry configs = Inr r0"
    and r1: "resolve r0 = Inr r1" and r: "r = freeze r1"
    by (auto simp: collect_models_def split: sum.splits)
  have "registry_wf (new_registry :: registry)" by (simp add: registry_wf_def new_registry_def)
  from register_models_names [OF r0 this assms(2)] have wf0: "registry_wf r0"
    and names0: "map m_name (reg_models r0) = map name_of (pointers configs)" by (simp_all add: new_registry_def)
  have "map m_name (reg_models r1) = map m_name (reg_models r0)"
    using r1 resolve_model_wf
    by (auto simp: resolve_def collect_err_list_all2 list_all2_conv_all_nth split: sum.splits
        intro!: nth_equalityI)
  with resolve_keeps_wf [OF r1 wf0] resolve_resolved [OF r1 wf0] names0 show ?thesis
    by (simp add: r freeze_def registry_wf_def resolved_def)
qed

subsection \<open>The chain of an application\<close>

fun mounted_in :: "'h guarded_handler \<Rightarrow> (string \<times> 'h site_handler) list" where
  "mounted_in (RouterHandler r) = rt_mux r"
| "mounted_in (AuthMiddleware h) = mounted_in h"
| "mounted_in (CsrfMiddleware h) = mounted_in h"

fun mounted :: "'h root_handler \<Rightarrow> (string \<times> 'h site_handler) list" where
  "mounted Liveness = []"
| "mounted (SessionMiddleware k c h) = mounted_in h"

lemma add_route_mux:
  "add_route conflict r route = Inr r' \<Longrightarrow> rt_mux r' = rt_mux r @ [(ro_pattern route, ro_handler route)]"
  by (auto simp: add_route_def Let_def split: option.splits if_splits)

lemma new_router_mux:
  assumes "new_router_checked conflict routes = Inr r"
  shows "rt_mux r = map (\<lambda>ro. (ro_pattern ro, ro_handler ro)) routes"
proof -
  have "rt_mux r = rt_mux r0 @ map (\<lambda>ro. (ro_pattern ro, ro_handler ro)) ros"
    if "loop_err (add_route conflict) r0 ros = Inr r" for r0 ros
    using that
  proof (induction ros arbitrary: r0)
    case (Cons ro ros)
    then obtain r1 where "add_route conflict r0 ro = Inr r1" "loop_err (add_route conflict) r1 ros = Inr r"
      by (auto split: sum.splits)
    with Cons.IH add_route_mux show ?case by fastforce
  qed simp
  from this assms show ?thesis by (fastforce simp: new_router_checked_def)
qed

lemma build_handler_chain:
  assumes "build_handler conflict s has_db configs global = (Inr h, g)"
  shows "\<exists>site. (if has_db then build_admin_site configs else Inr None) = Inr site \<and>
    (let routes = app_routes configs @ site_routes site
     in if routes = [] then h = Liveness \<and> g = global
        else \<exists>router. new_router_checked conflict routes = Inr router \<and> g = router_resolver router \<and>
          h = SessionMiddleware (st_secret_key s) ''sessionid''
                (CsrfMiddleware (if has_db then AuthMiddleware (RouterHandler router) else RouterHandler router)))"
proof -
  from assms obtain site where site: "(if has_db then build_admin_site configs else Inr None) = Inr site"
    by (auto simp: build_handler_def split: sum.splits)
  with assms show ?thesis
    by (intro exI [of _ site])
      (auto simp: build_handler_def set_url_resolver_def Let_def split: if_splits sum.splits)
qed

lemma new_application_Inr:
  assumes "new_application sqlite_error conflict migs given configs p = (Inr app, p')"
  obtains s1 g where
    "check_settings (ap_settings app) = None" "ap_settings app = apply_default_settings given"
    "loop_err (\<lambda>r c. app_register c r) new_app_registry configs = Inr (ap_apps app)"
    "apps_ready (ap_apps app) (pr_apps p) = (None, s1)"
    "\<exists>models. ap_models app = Some models \<and> collect_models configs = Inr models \<and>
       open_database sqlite_error (ap_settings app) models = Inr (ap_db app)"
    "build_handler conflict (ap_settings app) (ap_db app \<noteq> None) configs (pr_resolver p) = (Inr (ap_handler app), g)"
    "p' = \<lparr>pr_active = Some (ap_settings app), pr_resolver = g, pr_apps = s1\<rparr>"
    "ap_migrations_app app = migrations_app configs" "ap_migrations app = seed_migrations migs"
    "ap_migrations_dir app = ''migrations''"
proof -
  let ?s = "apply_default_settings given"
  from assms have check: "check_settings ?s = None"
    by (auto simp: new_application_def configure_def Let_def split: option.splits)
  note 1 = assms [unfolded new_application_def configure_def Let_def, simplified, unfolded check, simplified]
  from 1 obtain apps where apps: "loop_err (\<lambda>r c. app_register c r) new_app_registry configs = Inr apps"
    by (auto split: sum.splits)
  note 2 = 1 [unfolded apps, simplified]
  from 2 obtain s1 where ready: "apps_ready apps (pr_apps p) = (None, s1)"
    by (cases "apps_ready apps (pr_apps p)") (auto split: option.splits)
  note 3 = 2 [unfolded ready, simplified]
  from 3 obtain models where models: "collect_models configs = Inr models" by (auto split: sum.splits)
  note 4 = 3 [unfolded models, simplified]
  from 4 obtain db where db: "open_database sqlite_error ?s models = Inr db" by (auto split: sum.splits)
  note 5 = 4 [unfolded db, simplified]
  from 5 obtain h g where h: "build_handler conflict ?s (db \<noteq> None) configs (pr_resolver p) = (Inr h, g)"
    by (auto split: sum.splits prod.splits)
  from 5 [unfolded h [simplified], simplified] check apps ready models db h show thesis
    by (intro that) auto
qed

text \<open>C38: When \<open>New\<close> succeeds, the settings are checked and active, the apps are registered in order with
  distinct names and found under them, and the registry holds exactly their models: well formed, every
  relation linked, frozen. A request reaches a route only through the session middleware (signing with a
  secret that is not empty), then the CSRF middleware, then, with a database, the one that loads the user; the
  routes are those of the apps in order, then those of the admin, which needs a database and an app that
  registers with it; and the process-global resolver reverses exactly these routes.\<close>

theorem new_application_wires:
  assumes "new_application sqlite_error conflict migs given configs p = (Inr app, p')"
    and "\<forall>m \<in> set (pointers configs). go_pointer m"
  shows "pr_active p' = Some (ap_settings app) \<and> st_secret_key (ap_settings app) \<noteq> [] \<and>
    app_names (ap_apps app) = map ac_name configs \<and> distinct (map ac_name configs) \<and>
    map (app_get (ap_apps app)) (map ac_name configs) = map Some configs \<and>
    (\<exists>models. ap_models app = Some models \<and> registry_wf models \<and> resolved models \<and> reg_frozen models \<and>
       map m_name (reg_models models) = map name_of (pointers configs)) \<and>
    (\<exists>site. (if ap_db app \<noteq> None then build_admin_site configs else Inr None) = Inr site \<and>
       mounted (ap_handler app) =
         map (\<lambda>ro. (ro_pattern ro, ro_handler ro)) (app_routes configs @ site_routes site)) \<and>
    (mounted (ap_handler app) \<noteq> [] \<longrightarrow>
       (\<exists>router. ap_handler app = SessionMiddleware (st_secret_key (ap_settings app)) ''sessionid''
            (CsrfMiddleware (if ap_db app \<noteq> None then AuthMiddleware (RouterHandler router) else RouterHandler router)) \<and>
          pr_resolver p' = router_resolver router))"
  using assms(1)
proof (rule new_application_Inr)
  fix s1 g
  assume check: "check_settings (ap_settings app) = None"
    and apps: "loop_err (\<lambda>r c. app_register c r) new_app_registry configs = Inr (ap_apps app)"
    and models: "\<exists>models. ap_models app = Some models \<and> collect_models configs = Inr models \<and>
       open_database sqlite_error (ap_settings app) models = Inr (ap_db app)"
    and h: "build_handler conflict (ap_settings app) (ap_db app \<noteq> None) configs (pr_resolver p) = (Inr (ap_handler app), g)"
    and p': "p' = \<lparr>pr_active = Some (ap_settings app), pr_resolver = g, pr_apps = s1\<rparr>"
  from check have key: "st_secret_key (ap_settings app) \<noteq> []" by (auto simp: check_settings_def split: if_splits)
  from register_apps_wf [OF apps] have names: "ar_order (ap_apps app) = map ac_name configs" "distinct (map ac_name configs)"
    by (auto simp: app_registry_wf_def)
  have found: "map (app_get (ap_apps app)) (map ac_name configs) = map Some configs"
    by (simp add: register_apps_get [OF apps])
  from models collect_models_wf [OF _ assms(2)] have reg: "\<exists>models. ap_models app = Some models \<and> registry_wf models \<and>
      resolved models \<and> reg_frozen models \<and> map m_name (reg_models models) = map name_of (pointers configs)" by blast
  from build_handler_chain [OF h] obtain site where
    site: "(if ap_db app \<noteq> None then build_admin_site configs else Inr None) = Inr site"
    and chain: "let routes = app_routes configs @ site_routes site
      in if routes = [] then ap_handler app = Liveness \<and> g = pr_resolver p
         else \<exists>router. new_router_checked conflict routes = Inr router \<and> g = router_resolver router \<and>
           ap_handler app = SessionMiddleware (st_secret_key (ap_settings app)) ''sessionid''
             (CsrfMiddleware (if ap_db app \<noteq> None then AuthMiddleware (RouterHandler router) else RouterHandler router))"
    by blast
  show ?thesis
  proof (cases "app_routes configs @ site_routes site = []")
    case True
    with chain have "ap_handler app = Liveness" by (simp add: Let_def)
    with True p' key names found reg site show ?thesis by (simp add: app_names_def del: map_map)
  next
    case False
    with chain obtain router where r: "new_router_checked conflict (app_routes configs @ site_routes site) = Inr router"
      and g: "g = router_resolver router"
      and ah: "ap_handler app = SessionMiddleware (st_secret_key (ap_settings app)) ''sessionid''
        (CsrfMiddleware (if ap_db app \<noteq> None then AuthMiddleware (RouterHandler router) else RouterHandler router))"
      unfolding Let_def by (meson)
    from ah have "mounted (ap_handler app) = rt_mux router" by simp
    with new_router_mux [OF r] have "mounted (ap_handler app) =
        map (\<lambda>ro. (ro_pattern ro, ro_handler ro)) (app_routes configs @ site_routes site)" by simp
    with site have mounts: "\<exists>site. (if ap_db app \<noteq> None then build_admin_site configs else Inr None) = Inr site \<and>
       mounted (ap_handler app) =
         map (\<lambda>ro. (ro_pattern ro, ro_handler ro)) (app_routes configs @ site_routes site)" by (intro exI conjI)
    from ah g p' have guarded: "\<exists>router. ap_handler app = SessionMiddleware (st_secret_key (ap_settings app)) ''sessionid''
            (CsrfMiddleware (if ap_db app \<noteq> None then AuthMiddleware (RouterHandler router) else RouterHandler router)) \<and>
          pr_resolver p' = router_resolver router" by (intro exI conjI) simp_all
    from p' names found key show ?thesis
      by (intro conjI reg mounts impI guarded) (simp_all add: app_names_def del: map_map)
  qed
qed

definition blog_settings :: settings where
  "blog_settings = \<lparr>st_debug = True, st_secret_key = ''k'', st_allowed_hosts = [], st_installed_apps = [], st_host = [],
     st_port = [], st_database = \<lparr>db_driver_name = [], db_dsn = ''file:db''\<rparr>\<rparr>"

definition event_app :: "(unit, nat) app_config" where
  "event_app = \<lparr>ac_name = ''events'', ac_ready = Some (\<lambda>s. (None, s)), ac_models = Some [PointerToStruct event_struct],
     ac_urls = Some [Path ''GET /{$}'' 7 ''home''], ac_admin = Some Value\<rparr>"

definition fresh_process :: "unit process" where
  "fresh_process = \<lparr>pr_active = None, pr_resolver = default_resolver, pr_apps = ()\<rparr>"

lemma event_app_starts:
  "\<not> isl (fst (new_application (\<lambda>dsn. None) (\<lambda>ps q. None) new_mig_registry blog_settings [event_app] fresh_process))"
  by code_simp

theorem new_application_wires_witness:
  "\<exists>app p' models. new_application (\<lambda>dsn. None) (\<lambda>ps q. None) new_mig_registry blog_settings [event_app] fresh_process =
       (Inr app, p') \<and> ap_models app = Some models \<and> map m_name (reg_models models) = [''Event''] \<and>
     (''GET /{$}'', AppHandler 7) \<in> set (mounted (ap_handler app))"
proof -
  obtain app p' where run: "new_application (\<lambda>dsn. None) (\<lambda>ps q. None) new_mig_registry blog_settings [event_app]
      fresh_process = (Inr app, p')"
    using event_app_starts
    by (cases "new_application (\<lambda>dsn. None) (\<lambda>ps q. None) new_mig_registry blog_settings [event_app] fresh_process";
        cases "fst (new_application (\<lambda>dsn. None) (\<lambda>ps q. None) new_mig_registry blog_settings [event_app] fresh_process)")
      auto
  have ptr: "\<forall>m \<in> set (pointers [event_app]). go_pointer m"
    by (simp add: pointers_def event_app_def go_pointer_def go_struct_def event_struct_def)
  have "name_of (PointerToStruct event_struct) = ''Event''" by code_simp
  then have ev: "map name_of (pointers [event_app]) = [''Event'']" by (simp add: pointers_def event_app_def)
  note wires = new_application_wires [OF run ptr, unfolded ev, THEN conjunct2, THEN conjunct2, THEN conjunct2, THEN conjunct2,
    THEN conjunct2]
  from wires [THEN conjunct1] obtain models where m: "ap_models app = Some models"
      and n: "map m_name (reg_models models) = [''Event'']" by (elim exE conjE)
  from wires [THEN conjunct2, THEN conjunct1] obtain site where
    mt: "mounted (ap_handler app) = map (\<lambda>ro. (ro_pattern ro, ro_handler ro)) (app_routes [event_app] @ site_routes site)"
    by (elim exE conjE)
  have "(''GET /{$}'', AppHandler 7) \<in> set (mounted (ap_handler app))"
    unfolding mt by (auto simp: app_routes_def event_app_def Path_def)
  with run m n show ?thesis by (intro exI conjI)
qed

end
