(* ===== verification/App_Commands.thy ===== *)
theory App_Commands
  imports App_Application App_Scaffold
begin

text \<open>
  The built-in management commands over an application: \<open>makemigrations\<close>, \<open>migrate\<close>, \<open>createsuperuser\<close>,
  \<open>runserver\<close>, \<open>startproject\<close>, \<open>startapp\<close>, \<open>version\<close>, and the dispatch of a command line to them. They run on
  the state of a process: the application, its files, its database and what it has printed. Standard input,
  the environment variables, random bytes, the key derivation and the HTTP server are parameters.
\<close>

subsection \<open>The state of a command\<close>

record ('s, 'h, 't) shell =
  sh_app :: "('s, 'h) application"
  sh_disk :: disk
  sh_db :: 't
  sh_out :: string

record ('h, 't) services =
  sv_tools :: go_tools
  sv_env :: "orm_db \<Rightarrow> 't env"
  sv_kdf :: kdf
  sv_iterations :: nat
  sv_random :: "string option"
  sv_environ :: "string \<Rightarrow> string"
  sv_input :: string
  sv_listen :: "string \<Rightarrow> 'h root_handler \<Rightarrow> string option"

datatype command_error =
    CommandError string
  | CommandPanic
  | WriteError write_error
  | MigrateError run_error
  | InputEOF
  | SuperuserError create_error
  | StartError start_error
  | ListenError string

definition print_out :: "string \<Rightarrow> ('s, 'h, 't) shell \<Rightarrow> ('s, 'h, 't) shell" where
  "print_out s sh = sh\<lparr>sh_out := sh_out sh @ s\<rparr>"

definition print_line :: "string \<Rightarrow> ('s, 'h, 't) shell \<Rightarrow> ('s, 'h, 't) shell" where
  "print_line s sh = print_out (s @ [newline]) sh"

subsection \<open>makemigrations\<close>

text \<open>The loop over the runes of the name. A byte above 127 is part of no letter or digit it accepts.\<close>

definition is_valid_go_ident :: "string \<Rightarrow> bool" where
  "is_valid_go_ident s \<longleftrightarrow> s \<noteq> [] \<and>
     list_all (\<lambda>(i, c). c = CHR ''_'' \<or> is_lower c \<or> is_upper c \<or> is_digit c \<and> i \<noteq> 0) (List.enumerate 0 s)"

definition rename_warning :: "potential_rename \<Rightarrow> string" where
  "rename_warning r =
     ''Warning: '' @ rename_string r @ '' looks like a renamed field; the migration drops the old '' @
     ''column and adds a new empty one, discarding its data. Edit the '' @
     ''migration to rename the column instead if you meant to keep it.'' @ [newline]"

definition migrations_target :: "('s, 'h) application \<Rightarrow> string \<times> string" where
  "migrations_target app =
     (path_join [ap_migrations_dir app, ap_migrations_app app],
      if is_valid_go_ident (ap_migrations_app app) then ap_migrations_app app else ''migrations'')"

text \<open>\<open>MakeMigrations\<close> decides on the migration; writing its file is what changes the disk.\<close>

definition migration_writer ::
  "go_tools \<Rightarrow> ('s, 'h) application \<Rightarrow> disk \<Rightarrow> (migration \<Rightarrow> write_error + string) option"
where
  "migration_writer g app d =
     (case migrations_target app of
        (dir, pkg) \<Rightarrow> if dir = [] then None else Some (\<lambda>m. fst (write_migration g dir pkg m d)))"

definition disk_with_migration :: "go_tools \<Rightarrow> ('s, 'h) application \<Rightarrow> migration \<Rightarrow> disk \<Rightarrow> disk" where
  "disk_with_migration g app m d =
     (case migrations_target app of
        (dir, pkg) \<Rightarrow> if dir = [] then d else snd (write_migration g dir pkg m d))"

definition makemigrations_run ::
  "go_tools \<Rightarrow> ('s, 'h, 't) shell \<Rightarrow> command_error option \<times> ('s, 'h, 't) shell"
where
  "makemigrations_run g sh =
     (let app = sh_app sh
      in case ap_models app of
           None \<Rightarrow> (Some (CommandError ''djangogo: no model registry configured''), sh)
         | Some models \<Rightarrow>
             (case state_from_registry models of
                None \<Rightarrow> (Some CommandPanic, sh)
              | Some current \<Rightarrow>
                  (let prior = for_app (ap_migrations app) (ap_migrations_app app)
                   in case make_migrations (ap_migrations_app app) current prior
                             (migration_writer g app (sh_disk sh)) of
                        Inl NoChanges \<Rightarrow> (None, print_line ''No changes detected'' sh)
                      | Inl NilModelState \<Rightarrow> (Some CommandPanic, sh)
                      | Inl (WriteFailed e) \<Rightarrow> (Some (WriteError e), sh)
                      | Inr (m, path) \<Rightarrow>
                          (let sh = sh\<lparr>sh_app := app\<lparr>ap_migrations := add_migration m (ap_migrations app)\<rparr>,
                                       sh_disk := disk_with_migration g app m (sh_disk sh)\<rparr>;
                               sh = print_line (''Created migration '' @ mig_name m @
                                      (if path \<noteq> [] then '' -> '' @ path else [])) sh
                           in case Option.bind (state_from_migrations prior) (\<lambda>ps. detect_renames ps current) of
                                None \<Rightarrow> (Some CommandPanic, sh)
                              | Some rs \<Rightarrow> (None, print_out (concat (map rename_warning rs)) sh)))))"

subsection \<open>migrate\<close>

definition no_database :: command_error where
  "no_database = CommandError ''djangogo: no database configured (set Settings.Database.DSN)''"

definition migrate_run ::
  "(orm_db \<Rightarrow> 't env) \<Rightarrow> ('s, 'h, 't) shell \<Rightarrow> command_error option \<times> ('s, 'h, 't) shell"
where
  "migrate_run env sh =
     (case ap_db (sh_app sh) of
        None \<Rightarrow> (Some no_database, sh)
      | Some db \<Rightarrow>
          (case apply_migrations (en_driver (env db)) (db_dialect db) (en_now (env db))
                  (all_migrations (ap_migrations (sh_app sh))) (sh_db sh) of
             ((e, applied), s) \<Rightarrow>
               (let sh = sh\<lparr>sh_db := s\<rparr>
                in case e of
                     Some e \<Rightarrow> (Some (MigrateError e), sh)
                   | None \<Rightarrow>
                       if applied = [] then (None, print_line ''No migrations to apply.'' sh)
                       else
                         (None, print_out (concat (map (\<lambda>n. ''  '' @ n @ [newline]) applied))
                            (print_line ''Applied:'' sh)))))"

subsection \<open>createsuperuser: its flags\<close>

record su_flags =
  fl_username :: string
  fl_email :: string
  fl_noinput :: bool

datatype flag_error = FlagFailed string | HelpRequested

text \<open>\<open>strconv.ParseBool\<close>.\<close>

definition parse_bool :: "string \<Rightarrow> bool option" where
  "parse_bool s =
     (if s \<in> set [''1'', ''t'', ''T'', ''TRUE'', ''true'', ''True''] then Some True
      else if s \<in> set [''0'', ''f'', ''F'', ''FALSE'', ''false'', ''False''] then Some False else None)"

text \<open>An argument of the form \<open>-name\<close>, \<open>--name\<close> or \<open>-name=value\<close>: its name and value.\<close>

datatype flag_arg = NoFlag | EndOfFlags | BadFlag | Flag string "string option"

definition flag_arg :: "string \<Rightarrow> flag_arg" where
  "flag_arg s =
     (if length s < 2 \<or> hd s \<noteq> CHR ''-'' then NoFlag
      else if s = ''--'' then EndOfFlags
      else
        (let name = (if s ! 1 = CHR ''-'' then drop 2 s else drop 1 s)
         in if hd name = CHR ''-'' \<or> hd name = CHR ''='' then BadFlag
            else
              (let n = hd name # takeWhile (\<lambda>c. c \<noteq> CHR ''='') (tl name);
                   r = dropWhile (\<lambda>c. c \<noteq> CHR ''='') (tl name)
               in Flag n (if r = [] then None else Some (tl r)))))"

definition set_string_flag :: "string \<Rightarrow> string \<Rightarrow> su_flags \<Rightarrow> su_flags" where
  "set_string_flag n v fl = (if n = ''username'' then fl\<lparr>fl_username := v\<rparr> else fl\<lparr>fl_email := v\<rparr>)"

text \<open>\<open>FlagSet.Parse\<close> over the three flags of the command; the first other argument ends it.\<close>

fun parse_flags :: "(string \<Rightarrow> bool) \<Rightarrow> string list \<Rightarrow> su_flags \<Rightarrow> flag_error + su_flags" where
  "parse_flags pr [] fl = Inr fl"
| "parse_flags pr (s # rest) fl =
     (case flag_arg s of
        NoFlag \<Rightarrow> Inr fl
      | EndOfFlags \<Rightarrow> Inr fl
      | BadFlag \<Rightarrow> Inl (FlagFailed (''bad flag syntax: '' @ s))
      | Flag n v \<Rightarrow>
          if n = ''noinput'' then
            (case v of
               None \<Rightarrow> parse_flags pr rest (fl\<lparr>fl_noinput := True\<rparr>)
             | Some x \<Rightarrow>
                 (case parse_bool x of
                    None \<Rightarrow> Inl (FlagFailed (''invalid boolean value '' @ go_quote pr x @ '' for -noinput: parse error''))
                  | Some b \<Rightarrow> parse_flags pr rest (fl\<lparr>fl_noinput := b\<rparr>)))
          else if n = ''username'' \<or> n = ''email'' then
            (case v of
               Some x \<Rightarrow> parse_flags pr rest (set_string_flag n x fl)
             | None \<Rightarrow>
                 (case rest of
                    [] \<Rightarrow> Inl (FlagFailed (''flag needs an argument: -'' @ n))
                  | x # rest' \<Rightarrow> parse_flags pr rest' (set_string_flag n x fl)))
          else if n = ''help'' \<or> n = ''h'' then Inl HelpRequested
          else Inl (FlagFailed (''flag provided but not defined: -'' @ n)))"

definition flag_usage :: string where
  "flag_usage =
     ''Usage of createsuperuser:'' @ [newline] @
     ''  -email string'' @ [newline, CHR '' '', CHR '' '', CHR '' '', CHR '' '', tab] @
     ''email for the new superuser'' @ [newline] @
     ''  -noinput'' @ [newline, CHR '' '', CHR '' '', CHR '' '', CHR '' '', tab] @
     ''do not prompt; take the password from DJANGO_SUPERUSER_PASSWORD'' @ [newline] @
     ''  -username string'' @ [newline, CHR '' '', CHR '' '', CHR '' '', CHR '' '', tab] @
     ''username for the new superuser'' @ [newline]"

definition flag_error_text :: "flag_error \<Rightarrow> string" where
  "flag_error_text e = (case e of FlagFailed s \<Rightarrow> s | HelpRequested \<Rightarrow> ''flag: help requested'')"

text \<open>What a failed parse prints: the message, unless help was asked for, and the usage.\<close>

definition flag_failure_output :: "flag_error \<Rightarrow> string" where
  "flag_failure_output e =
     (case e of FlagFailed s \<Rightarrow> s @ newline # flag_usage | HelpRequested \<Rightarrow> flag_usage)"

subsection \<open>createsuperuser: its input\<close>

definition collect_no_input :: "(string \<Rightarrow> string) \<Rightarrow> string \<Rightarrow> string \<Rightarrow> command_error + string \<times> string \<times> string" where
  "collect_no_input getenv username email =
     (let username = (if username = [] then getenv ''DJANGO_SUPERUSER_USERNAME'' else username);
          email = (if email = [] then getenv ''DJANGO_SUPERUSER_EMAIL'' else email);
          password = getenv ''DJANGO_SUPERUSER_PASSWORD''
      in if username = [] then
           Inl (CommandError ''djangogo: --noinput requires --username or DJANGO_SUPERUSER_USERNAME'')
         else if password = [] then
           Inl (CommandError ''djangogo: --noinput requires DJANGO_SUPERUSER_PASSWORD'')
         else Inr (username, email, password))"

text \<open>\<open>ReadString\<close> up to a newline: at the end of the input what is left, and with nothing left the end of file.\<close>

definition read_string :: "string \<Rightarrow> (string \<times> string) option" where
  "read_string inp =
     (if inp = [] then None
      else
        (let l = takeWhile (\<lambda>c. c \<noteq> newline) inp; r = dropWhile (\<lambda>c. c \<noteq> newline) inp
         in Some (l @ take 1 r, drop 1 r)))"

text \<open>A prompt works on what is left of the input and on the output.\<close>

definition prompt :: "string \<Rightarrow> string \<times> string \<Rightarrow> (command_error + string) \<times> (string \<times> string)" where
  "prompt lbl = (\<lambda>(inp, out).
     case read_string inp of
       None \<Rightarrow> (Inl InputEOF, (inp, out @ lbl))
     | Some (l, rest) \<Rightarrow> (Inr (TrimSpace l), (rest, out @ lbl)))"

definition prompt_password_twice :: "string \<times> string \<Rightarrow> (command_error + string) \<times> (string \<times> string)" where
  "prompt_password_twice io =
     (case prompt ''Password: '' io of
        (Inl e, io) \<Rightarrow> (Inl e, io)
      | (Inr first, io) \<Rightarrow>
          (case prompt ''Password (again): '' io of
             (Inl e, io) \<Rightarrow> (Inl e, io)
           | (Inr second, io) \<Rightarrow>
               if first = [] then (Inl (CommandError ''djangogo: password must not be empty''), io)
               else if first \<noteq> second then (Inl (CommandError ''djangogo: passwords do not match''), io)
               else (Inr first, io)))"

definition prompt_unset :: "string \<Rightarrow> string \<Rightarrow> string \<times> string \<Rightarrow> (command_error + string) \<times> (string \<times> string)" where
  "prompt_unset lbl v io = (if v = [] then prompt lbl io else (Inr v, io))"

definition collect_interactive ::
  "string \<Rightarrow> string \<Rightarrow> string \<times> string \<Rightarrow> (command_error + string \<times> string \<times> string) \<times> (string \<times> string)"
where
  "collect_interactive username email io =
     (case prompt_unset ''Username: '' username io of
        (Inl e, io) \<Rightarrow> (Inl e, io)
      | (Inr username, io) \<Rightarrow>
          (case prompt_unset ''Email address: '' email io of
             (Inl e, io) \<Rightarrow> (Inl e, io)
           | (Inr email, io) \<Rightarrow>
               (case prompt_password_twice io of
                  (Inl e, io) \<Rightarrow> (Inl e, io)
                | (Inr password, io) \<Rightarrow> (Inr (username, email, password), io))))"

definition collect_superuser ::
  "(string \<Rightarrow> string) \<Rightarrow> su_flags \<Rightarrow> string \<times> string \<Rightarrow> (command_error + string \<times> string \<times> string) \<times> (string \<times> string)"
where
  "collect_superuser getenv fl io =
     (if fl_noinput fl then (collect_no_input getenv (fl_username fl) (fl_email fl), io)
      else collect_interactive (fl_username fl) (fl_email fl) io)"

text \<open>The whole command. The reader, with what it has buffered, is dropped when the command ends.\<close>

definition createsuperuser_run ::
  "('h, 't) services \<Rightarrow> string list \<Rightarrow> ('s, 'h, 't) shell \<Rightarrow> command_error option \<times> ('s, 'h, 't) shell"
where
  "createsuperuser_run sv args sh =
     (case ap_db (sh_app sh) of
        None \<Rightarrow> (Some no_database, sh)
      | Some db \<Rightarrow>
          (case parse_flags (is_print (sv_tools sv)) args \<lparr>fl_username = [], fl_email = [], fl_noinput = False\<rparr> of
             Inl e \<Rightarrow> (Some (CommandError (flag_error_text e)), print_out (flag_failure_output e) sh)
           | Inr fl \<Rightarrow>
               (case collect_superuser (sv_environ sv) fl (sv_input sv, []) of
                  (Inl e, io) \<Rightarrow> (Some e, print_out (snd io) sh)
                | (Inr (username, email, password), io) \<Rightarrow>
                    (let sh = print_out (snd io) sh; en = sv_env sv db
                     in case create_superuser en background (sv_kdf sv) (sv_iterations sv)
                               (sv_random sv) (en_now en) username email password (sh_db sh) of
                          (Inl e, s) \<Rightarrow> (Some (SuperuserError e), sh\<lparr>sh_db := s\<rparr>)
                        | (Inr u, s) \<Rightarrow>
                            (None, print_line ''Superuser created successfully.'' (sh\<lparr>sh_db := s\<rparr>))))))"

subsection \<open>The command line of an application\<close>

text \<open>\<open>runserver\<close>: the announcement, and the error with which listening or the shutdown ends.\<close>

definition runserver_run ::
  "(string \<Rightarrow> 'h root_handler \<Rightarrow> string option) \<Rightarrow> ('s, 'h, 't) shell \<Rightarrow> command_error option \<times> ('s, 'h, 't) shell"
where
  "runserver_run listen sh =
     (let addr = st_host (ap_settings (sh_app sh)) @ '':'' @ st_port (ap_settings (sh_app sh))
      in (map_option ListenError (listen addr (ap_handler (sh_app sh))),
          print_line (''Djan-Go-Go development server at http://'' @ addr @ ''/  (Ctrl-C to quit)'') sh))"

definition scaffold_command ::
  "(string list \<Rightarrow> disk \<Rightarrow> (string \<times> start_error option) \<times> disk) \<Rightarrow> string list \<Rightarrow> ('s, 'h, 't) shell \<Rightarrow>
     command_error option \<times> ('s, 'h, 't) shell"
where
  "scaffold_command run args sh =
     (case run args (sh_disk sh) of
        ((printed, e), d) \<Rightarrow> (map_option StartError e, print_out printed (sh\<lparr>sh_disk := d\<rparr>)))"

definition builtin_run ::
  "('h, 't) services \<Rightarrow> string \<Rightarrow> string list \<Rightarrow> ('s, 'h, 't) shell \<Rightarrow> command_error option \<times> ('s, 'h, 't) shell"
where
  "builtin_run sv name args sh =
     (if name = ''version'' then (None, print_out (fst version_run) sh)
      else if name = ''runserver'' then runserver_run (sv_listen sv) sh
      else if name = ''makemigrations'' then makemigrations_run (sv_tools sv) sh
      else if name = ''migrate'' then migrate_run (sv_env sv) sh
      else if name = ''createsuperuser'' then createsuperuser_run sv args sh
      else if name = ''startproject'' then scaffold_command (startproject_run (is_print (sv_tools sv))) args sh
      else scaffold_command (startapp_run (is_print (sv_tools sv))) args sh)"

text \<open>\<open>New\<close> registers them one after the other and ignores an error.\<close>

definition builtin_registry :: "('h, 't) services \<Rightarrow> (command_error, ('s, 'h, 't) shell) command_registry" where
  "builtin_registry sv =
     foldl (\<lambda>r (n, h). case command_register (is_print (sv_tools sv))
                            \<lparr>cm_name = n, cm_help = h, cm_run = builtin_run sv n\<rparr> r of
                         Inl e \<Rightarrow> r
                       | Inr r' \<Rightarrow> r') [] builtin_commands"

text \<open>\<open>Application.Execute\<close>.\<close>

definition execute ::
  "('h, 't) services \<Rightarrow> string list \<Rightarrow> ('s, 'h, 't) shell \<Rightarrow> command_error option \<times> ('s, 'h, 't) shell"
where
  "execute sv args sh =
     (case command_execute (is_print (sv_tools sv)) CommandError (builtin_registry sv) args sh of
        ((printed, e), sh) \<Rightarrow> (e, print_out printed sh))"

subsection \<open>Dispatch\<close>

text \<open>No registration is refused: every built-in command is reached under its name.\<close>

lemma builtin_registry_map:
  "builtin_registry sv =
     map (\<lambda>(n, h). (n, \<lparr>cm_name = n, cm_help = h, cm_run = builtin_run sv n\<rparr>)) builtin_commands"
  by (simp add: builtin_registry_def builtin_commands_def command_register_def)

lemma execute_builtin:
  fixes sh :: "('s, 'h, 't) shell"
  assumes "n \<in> fst ` set builtin_commands"
  shows "execute sv (n # args) sh = builtin_run sv n args sh"
proof -
  have "map_of (builtin_registry sv) n = Some \<lparr>cm_name = n, cm_help = the (map_of builtin_commands n), cm_run = (builtin_run sv n :: string list \<Rightarrow> ('s, 'h, 't) shell \<Rightarrow> _)\<rparr>"
    using assms by (auto simp: builtin_registry_map builtin_commands_def)
  then show ?thesis
    by (simp add: execute_def command_execute_def print_out_def split: prod.splits)
qed

subsection \<open>The history an application starts with\<close>

definition mig_registry_wf :: "mig_registry \<Rightarrow> bool" where
  "mig_registry_wf r \<longleftrightarrow> distinct (mr_app_order r) \<and> set (mr_app_order r) = dom (mr_by_app r) \<and>
     (\<forall>a. \<forall>m \<in> set (for_app r a). mig_app m = a)"

lemma for_app_add:
  "for_app (add_migration m r) a = (if a = mig_app m then for_app r a @ [m] else for_app r a)"
  by (simp add: for_app_def add_migration_def)

lemma mig_registry_wf_new [simp]: "mig_registry_wf new_mig_registry"
  by (simp add: mig_registry_wf_def new_mig_registry_def for_app_def)

lemma mig_registry_wf_add: "mig_registry_wf r \<Longrightarrow> mig_registry_wf (add_migration m r)"
  unfolding mig_registry_wf_def
  by (intro conjI allI) (auto simp: for_app_add, auto simp: add_migration_def split: if_splits)

lemma for_app_fold: "for_app (fold add_migration ms r) a = for_app r a @ filter (\<lambda>m. mig_app m = a) ms"
  by (induction ms arbitrary: r) (auto simp: for_app_add)

lemma all_migrations_of:
  assumes "mig_registry_wf r"
  shows "filter (\<lambda>m. mig_app m = a) (all_migrations r) = for_app r a"
proof -
  have here: "filter (\<lambda>m. mig_app m = a) (for_app r b) = (if b = a then for_app r a else [])" for b
    using assms by (auto simp: mig_registry_wf_def filter_id_conv filter_empty_conv)
  have "filter (\<lambda>m. mig_app m = a) (concat (map (for_app r) bs)) = (if a \<in> set bs then for_app r a else [])"
    if "distinct bs" for bs
    using that by (induction bs) (auto simp: here)
  moreover have "a \<notin> set (mr_app_order r) \<Longrightarrow> for_app r a = []"
    using assms by (auto simp: mig_registry_wf_def for_app_def domIff)
  ultimately show ?thesis using assms by (simp add: mig_registry_wf_def all_migrations_def)
qed

lemma seed_migrations_of: "mig_registry_wf r \<Longrightarrow> for_app (seed_migrations r) a = for_app r a"
  by (simp add: seed_migrations_def for_app_fold all_migrations_of) (simp add: for_app_def new_mig_registry_def)

subsection \<open>Migrations of models\<close>

text \<open>Every model of a snapshot has a field, so no operation creates an empty table.\<close>

lemma state_has_fields:
  assumes "registry_wf r" and "state_from_registry r = Some ps" and "ps_models ps n = Some st"
  shows "ms_fields st \<noteq> []"
proof -
  from assms(2) obtain sts where
    l: "list_all2 (\<lambda>m st. model_state_from (reg_models r) m = Some st) (reg_models r) sts"
    and ps: "ps = foldl add_model_state new_project_state sts"
    by (auto simp: state_from_registry_def those_map_Some_iff)
  have "ps_models (foldl add_model_state p xs) n = Some st \<Longrightarrow> st \<in> set xs \<or> ps_models p n = Some st" for p xs
  proof (induction xs arbitrary: p)
    case (Cons x xs)
    from Cons.IH [of "add_model_state p x"] Cons.prems show ?case by (auto split: if_splits)
  qed simp
  with assms(3) ps have "st \<in> set sts" by (fastforce simp: new_project_state_def)
  from list_all2_right [OF l this] obtain m where
    m: "m \<in> set (reg_models r)" "model_state_from (reg_models r) m = Some st" by blast
  with assms(1) have "model_wf m" by (simp add: registry_wf_def)
  from model_wf_primary_key [OF this] have "m_fields m \<noteq> []" by auto
  with model_state_from_names [OF m(2)] show ?thesis by auto
qed

lemma state_creates:
  assumes "registry_wf r" and "state_from_registry r = Some ps" and "m \<in> set (reg_models r)"
  shows "\<exists>st. ps_models ps (m_name m) = Some st \<and> ms_table st = m_table m"
proof -
  from assms(2) obtain sts where
    l: "list_all2 (\<lambda>m st. model_state_from (reg_models r) m = Some st) (reg_models r) sts"
    and ps: "ps = foldl add_model_state new_project_state sts"
    by (auto simp: state_from_registry_def those_map_Some_iff)
  have names: "map m_name (reg_models r) = map ms_name sts"
    by (rule list_all2_map_eq [OF l]) (simp add: model_state_from_names)
  have "list_all2 P xs ys \<Longrightarrow> x \<in> set xs \<Longrightarrow> \<exists>y \<in> set ys. P x y" for P and xs :: "model list" and ys :: "model_state list" and x
    by (induction rule: list_all2_induct) auto
  from this [OF l assms(3)] obtain st where st: "st \<in> set sts" "model_state_from (reg_models r) m = Some st" by blast
  then have n: "ms_name st = m_name m" "ms_table st = m_table m"
    by (auto simp: model_state_from_def)
  have keep: "ps_models p k = Some s \<Longrightarrow> k \<notin> ms_name ` set xs \<Longrightarrow> ps_models (foldl add_model_state p xs) k = Some s"
    for p xs k s by (induction xs arbitrary: p) auto
  have "distinct (map ms_name xs) \<Longrightarrow> s \<in> set xs \<Longrightarrow> ps_models (foldl add_model_state p xs) (ms_name s) = Some s" for p xs s
    by (induction xs arbitrary: p) (auto intro: keep)
  with st(1) n registry_wf_distinct_names [OF assms(1)] names ps show ?thesis by metis
qed

lemma diff_has_fields:
  assumes "diff old new = Some ops" and "\<And>n st. ps_models new n = Some st \<Longrightarrow> ms_fields st \<noteq> []"
  shows "list_all op_has_fields ops"
proof -
  from assms(1) obtain cs fs where
    cs: "list_all2 (\<lambda>n c. create_ops old new n = Some c) (ps_order new) cs"
    and fs: "list_all2 (\<lambda>n c. change_ops old new n = Some c) (ps_order new) fs"
    and ops: "ops = concat cs @ concat fs @ concat (map (delete_ops new) (ps_order old))"
    by (auto simp: diff_def those_map_Some_iff split: option.splits)
  have "list_all op_has_fields c" if "create_ops old new n = Some c" for n c
    using that assms(2) by (auto simp: create_ops_def op_has_fields_def split: option.splits)
  with list_all2_right [OF cs] have 1: "\<forall>c \<in> set cs. list_all op_has_fields c" by blast
  have "list_all op_has_fields c" if "change_ops old new n = Some c" for n c
    using that by (auto simp: change_ops_def field_changes_def op_has_fields_def list_all_iff split: option.splits)
  with list_all2_right [OF fs] have 2: "\<forall>c \<in> set fs. list_all op_has_fields c" by blast
  from 1 2 show ?thesis
    by (auto simp: ops list_all_iff delete_ops_def op_has_fields_def)
qed

lemma valid_ident_go_name:
  assumes "is_valid_go_ident s" and "s \<notin> set go_keywords" and "s \<noteq> ''_''"
  shows "go_name s"
proof -
  from assms(1) obtain c t where s: "s = c # t" by (cases s) (auto simp: is_valid_go_ident_def)
  have "list_all (\<lambda>(i, c). c = CHR ''_'' \<or> is_lower c \<or> is_upper c \<or> is_digit c \<and> i \<noteq> 0) (List.enumerate k xs) \<Longrightarrow>
    list_all ident_char xs" for k xs
    by (induction xs arbitrary: k) (auto simp: ident_char_def ident_start_def)
  with assms s show ?thesis
    by (auto simp: is_valid_go_ident_def go_name_def ident_start_def)
qed

subsection \<open>What makemigrations does\<close>

lemma makemigrations_run_made:
  assumes "ap_models (sh_app sh) = Some models" and "state_from_registry models = Some current"
    and "make_migrations (ap_migrations_app (sh_app sh)) current (for_app (ap_migrations (sh_app sh)) (ap_migrations_app (sh_app sh)))
           (migration_writer g (sh_app sh) (sh_disk sh)) = Inr (m, path)"
  shows "sh_disk (snd (makemigrations_run g sh)) = disk_with_migration g (sh_app sh) m (sh_disk sh) \<and>
    sh_app (snd (makemigrations_run g sh)) = (sh_app sh)\<lparr>ap_migrations := add_migration m (ap_migrations (sh_app sh))\<rparr>"
  using assms by (auto simp: makemigrations_run_def Let_def print_line_def print_out_def split: option.splits)

lemma makemigrations_run_none:
  assumes "ap_models (sh_app sh) = Some models" and "state_from_registry models = Some current"
    and "make_migrations (ap_migrations_app (sh_app sh)) current (for_app (ap_migrations (sh_app sh)) (ap_migrations_app (sh_app sh)))
           (migration_writer g (sh_app sh) (sh_disk sh)) = Inl NoChanges"
  shows "makemigrations_run g sh = (None, print_line ''No changes detected'' sh)"
  using assms by (simp add: makemigrations_run_def Let_def)

lemma makemigrations_quiet:
  assumes "makemigrations_run g sh = (None, print_line ''No changes detected'' sh)"
    and "ap_models (sh_app sh) = Some models" and "state_from_registry models = Some current"
  shows "make_migrations (ap_migrations_app (sh_app sh)) current (for_app (ap_migrations (sh_app sh)) (ap_migrations_app (sh_app sh)))
           (migration_writer g (sh_app sh) (sh_disk sh)) = Inl NoChanges"
proof (cases "make_migrations (ap_migrations_app (sh_app sh)) current
    (for_app (ap_migrations (sh_app sh)) (ap_migrations_app (sh_app sh))) (migration_writer g (sh_app sh) (sh_disk sh))")
  case (Inl e)
  with assms show ?thesis by (cases e) (simp_all add: makemigrations_run_def Let_def)
next
  case (Inr r)
  obtain m path where r: "r = (m, path)" by (cases r)
  from makemigrations_run_made [OF assms(2,3) Inr [unfolded r]] assms(1)
  have "(sh_app sh)\<lparr>ap_migrations := add_migration m (ap_migrations (sh_app sh))\<rparr> = sh_app sh"
    by (simp add: print_line_def print_out_def)
  then have "add_migration m (ap_migrations (sh_app sh)) = ap_migrations (sh_app sh)"
    by (metis application.select_convs(4) application.surjective application.update_convs(4))
  with for_app_add [of m "ap_migrations (sh_app sh)" "mig_app m"] show ?thesis by simp
qed

lemma detect_renames_total:
  assumes "ps_wf current"
  shows "\<exists>rs. detect_renames ps current = Some rs"
proof -
  have "\<exists>y. renames_of ps current n = Some y" if "n \<in> set (ps_order current)" for n
    using that assms by (auto simp: renames_of_def ps_wf_order split: option.splits)
  with those_map_total [of "ps_order current" "renames_of ps current"] show ?thesis
    by (auto simp: detect_renames_def)
qed

lemma makemigrations_makes:
  assumes models: "ap_models (sh_app sh) = Some models" "registry_wf models" "resolved models"
    and history: "generated (for_app (ap_migrations (sh_app sh)) (ap_migrations_app (sh_app sh)))"
    and files: "keeps_tokens g" "migrations_target (sh_app sh) = (dir, pkg)" "dir \<noteq> []" "go_name pkg"
    and disk: "d_mkdir_error (sh_disk sh) dir = None" "\<And>p. d_write_error (sh_disk sh) p = None"
  shows "\<exists>current. state_from_registry models = Some current \<and> ps_wf current \<and>
    (makemigrations_run g sh = (None, print_line ''No changes detected'' sh) \<or>
     (\<exists>m path src sh'. makemigrations_run g sh = (None, sh') \<and> mig_app m = ap_migrations_app (sh_app sh) \<and>
        make_migrations (ap_migrations_app (sh_app sh)) current
          (for_app (ap_migrations (sh_app sh)) (ap_migrations_app (sh_app sh))) unwritten = Inr (m, []) \<and>
        sh_app sh' = (sh_app sh)\<lparr>ap_migrations := add_migration m (ap_migrations (sh_app sh))\<rparr> \<and>
        d_files (sh_disk sh') = (d_files (sh_disk sh))(path \<mapsto> src) \<and> registered src = Some (pkg, m)))"
proof -
  let ?a = "ap_migrations_app (sh_app sh)" and ?w = "migration_writer g (sh_app sh) (sh_disk sh)"
  let ?prior = "for_app (ap_migrations (sh_app sh)) ?a"
  from state_from_registry_total [OF models(2,3)] obtain current where cur: "state_from_registry models = Some current" by blast
  with state_from_registry_wf [OF cur models(2)] have wf: "ps_wf current" by simp
  from generated_state [OF history] obtain ps where ps: "state_from_migrations ?prior = Some ps" "ps_wf ps" by blast
  from diff_applies [OF ps(2) wf] obtain ops where ops: "diff ps current = Some ops" by blast
  show ?thesis
  proof (cases "ops = []")
    case True
    with ps(1) ops have "make_migrations ?a current ?prior ?w = Inl NoChanges" by (simp add: make_migrations_def)
    from makemigrations_run_none [OF models(1) cur this] cur wf show ?thesis by blast
  next
    case False
    let ?m = "\<lparr>mig_app = ?a, mig_name = migration_name (length ?prior + 1),
      mig_dependencies = (if ?prior = [] then [] else [mig_name (last ?prior)]), mig_operations = ops\<rparr>"
    from diff_has_fields [OF ops] state_has_fields [OF models(2) cur]
    have "list_all op_has_fields (mig_operations ?m)" by simp
    from written_file [OF files(1,4) this disk] obtain path src where
      w: "write_migration g dir pkg ?m (sh_disk sh) = (Inr path, (sh_disk sh)\<lparr>d_files := (d_files (sh_disk sh))(path \<mapsto> src)\<rparr>)"
      and src: "registered src = Some (pkg, ?m)" by blast
    from False ps(1) ops w files(2,3) have made: "make_migrations ?a current ?prior ?w = Inr (?m, path)"
      by (simp add: make_migrations_def migration_writer_def)
    from detect_renames_total [OF wf, of ps] obtain rs where "detect_renames ps current = Some rs" by blast
    with made models(1) cur ps(1) have ok: "fst (makemigrations_run g sh) = None"
      by (simp add: makemigrations_run_def Let_def)
    from makemigrations_run_made [OF models(1) cur made] w files(2,3) src make_migrations_unwritten [OF made] ok cur wf
    show ?thesis
      by (intro exI [of _ current] conjI disjI2 exI [of _ ?m] exI [of _ path] exI [of _ src]
          exI [of _ "snd (makemigrations_run g sh)"]) (simp_all add: disk_with_migration_def prod_eq_iff)
  qed
qed

lemma target_of_name:
  assumes "ap_migrations_dir app = ''migrations''" and "ap_migrations_app app \<notin> set go_keywords"
    and "ap_migrations_app app \<noteq> ''_''"
  obtains dir pkg where "migrations_target app = (dir, pkg)" "dir \<noteq> []" "go_name pkg"
proof -
  have "go_name ''migrations''" by code_simp
  with assms valid_ident_go_name have "go_name (snd (migrations_target app))"
    by (simp add: migrations_target_def)
  moreover have "fst (migrations_target app) \<noteq> []"
    by (simp add: migrations_target_def assms(1) path_join_def clean_path_def Let_def)
  ultimately show thesis using that [of "fst (migrations_target app)" "snd (migrations_target app)"] by simp
qed

text \<open>What a new application knows: the models of the apps and the migrations that were registered.\<close>

lemma new_application_knows:
  assumes "new_application sqlite_error conflict migs given configs p = (Inr app, p')"
    and "\<forall>m \<in> set (pointers configs). go_pointer m" and "mig_registry_wf migs"
  obtains models where "collect_models configs = Inr models" "ap_models app = Some models" "registry_wf models"
    "resolved models" "ap_migrations_app app = migrations_app configs" "ap_migrations_dir app = ''migrations''"
    "\<And>a. for_app (ap_migrations app) a = for_app migs a"
  using new_application_Inr [OF assms(1)] collect_models_wf [OF _ assms(2)] seed_migrations_of [OF assms(3)]
  by metis

lemma makemigrations_again:
  assumes "generated prior" and "ps_wf current" and "make_migrations a current prior unwritten = Inr (m, [])"
    and "ap_models (sh_app sh) = Some models" and "state_from_registry models = Some current"
    and "for_app (ap_migrations (sh_app sh)) (ap_migrations_app (sh_app sh)) = prior @ [m]"
  shows "makemigrations_run g sh = (None, print_line ''No changes detected'' sh)"
  by (rule makemigrations_run_none [OF assms(4,5)])
    (simp add: assms(6) make_migrations_converges [OF assms(1-3)])


definition event_start :: "(new_error + (unit, nat) application) \<times> unit process" where
  "event_start = new_application (\<lambda>dsn. None) (\<lambda>ps q. None) new_mig_registry blog_settings [event_app] fresh_process"

definition event_shell :: "(unit, nat, unit) shell" where
  "event_shell = \<lparr>sh_app = projr (fst event_start), sh_disk = sample_disk, sh_db = (), sh_out = []\<rparr>"

lemma event_started: "event_start = (Inr (sh_app event_shell), snd event_start)"
  using event_app_starts by (simp add: event_shell_def event_start_def [symmetric] prod_eq_iff)

lemma event_pointers: "\<forall>m \<in> set (pointers [event_app]). go_pointer m"
  by (simp add: pointers_def event_app_def go_pointer_def go_struct_def event_struct_def)

lemma event_makes: "take 17 (sh_out (snd (makemigrations_run sample_tools event_shell))) = ''Created migration''"
  by code_simp


subsection \<open>Adding a second app with models\<close>

lemma diff_from_nothing:
  assumes "ps_wf new" and "diff new_project_state new = Some ops" and "ps_models new n = Some st"
  shows "CreateModel n (ms_table st) (ms_fields st) \<in> set ops"
proof -
  from assms(2) obtain cs where
    cs: "list_all2 (\<lambda>n c. create_ops new_project_state new n = Some c) (ps_order new) cs" and ops: "set (concat cs) \<subseteq> set ops"
    by (auto simp: diff_def those_map_Some_iff split: option.splits)
  from assms(1,3) have "n \<in> set (ps_order new)" by (simp add: ps_wf_order)
  then obtain i where i: "i < length (ps_order new)" "ps_order new ! i = n" by (auto simp: in_set_conv_nth)
  with cs have "create_ops new_project_state new n = Some (cs ! i)" "i < length cs"
    by (auto simp: list_all2_conv_all_nth)
  with assms(3) have "[CreateModel n (ms_table st) (ms_fields st)] = cs ! i" "cs ! i \<in> set cs"
    by (simp_all add: create_ops_def new_project_state_def)
  then have "CreateModel n (ms_table st) (ms_fields st) \<in> set (concat cs)" using list.set_intros(1) [of "CreateModel n (ms_table st) (ms_fields st)" "[]"] by auto
  with ops show ?thesis by blast
qed

lemma two_providers: "1 < length (filter (\<lambda>c. ac_models c \<noteq> None) configs) \<Longrightarrow> migrations_app configs = ''app''"
  by (auto simp: migrations_app_def split: list.splits)


text \<open>The first migration of the app with events, and the application with a second app.\<close>

definition event_migration :: migration where
  "event_migration = hd (for_app (ap_migrations (sh_app (snd (makemigrations_run sample_tools event_shell)))) ''events'')"

definition author_app :: "(unit, nat) app_config" where
  "author_app = \<lparr>ac_name = ''authors'', ac_ready = None, ac_models = Some [PointerToStruct author_struct],
     ac_urls = None, ac_admin = None\<rparr>"

definition two_start :: "(new_error + (unit, nat) application) \<times> unit process" where
  "two_start = new_application (\<lambda>dsn. None) (\<lambda>ps q. None) (add_migration event_migration new_mig_registry) blog_settings
     [event_app, author_app] fresh_process"

definition two_shell :: "(unit, nat, unit) shell" where
  "two_shell = \<lparr>sh_app = projr (fst two_start), sh_disk = sample_disk, sh_db = (), sh_out = []\<rparr>"

lemma two_starts: "\<not> isl (fst two_start)"
  by code_simp

lemma event_migration_creates:
  "mig_app event_migration = ''events'' \<and>
   (case mig_operations event_migration of [CreateModel n t fs] \<Rightarrow> (n, t) | _ \<Rightarrow> ([], [])) = (''Event'', ''event'')"
  by code_simp

lemma two_models:
  "map_option (\<lambda>r. map (\<lambda>m. (m_name m, m_table m)) (reg_models r)) (ap_models (sh_app two_shell)) =
     Some [(''Event'', ''event''), (''Author'', ''authors'')]"
  by code_simp


subsection \<open>Creating a superuser\<close>

lemma prompted_password:
  assumes "prompt_password_twice io = (Inr password, io')"
  shows "password \<noteq> []"
  using assms by (auto simp: prompt_password_twice_def split: prod.splits sum.splits if_splits)

lemma collected_password:
  assumes "collect_superuser getenv fl io = (Inr (username, email, password), io')"
  shows "password \<noteq> []"
  using assms prompted_password
  by (auto simp: collect_superuser_def collect_no_input_def collect_interactive_def Let_def
      split: if_splits prod.splits sum.splits)

lemma collected_error:
  assumes "collect_superuser getenv fl io = (Inl e, io')"
  shows "e = InputEOF \<or> (\<exists>s. e = CommandError s)"
proof -
  have p: "prompt lbl x = (Inl e, y) \<Longrightarrow> e = InputEOF" for lbl x e y
    by (auto simp: prompt_def split: prod.splits option.splits)
  have u: "prompt_unset lbl v x = (Inl e, y) \<Longrightarrow> e = InputEOF" for lbl v x e y
    by (auto simp: prompt_unset_def dest: p split: if_splits)
  have t: "prompt_password_twice x = (Inl e, y) \<Longrightarrow> e = InputEOF \<or> (\<exists>s. e = CommandError s)" for x e y
    by (auto simp: prompt_password_twice_def dest: p split: prod.splits sum.splits if_splits)
  show ?thesis
    using assms
    by (auto simp: collect_superuser_def collect_no_input_def collect_interactive_def Let_def dest: u t
        split: if_splits prod.splits sum.splits)
qed

lemma create_user_Inr:
  assumes "create_user en c kdf iterations rnd now username email password isStaff isSuperuser isActive s = (Inr u, s')"
  obtains s1 encoded where "username \<noteq> []"
    and "get_row en c [VString ''username'', VString username] (new_query (en_db en) user_type) s = (Inl DoesNotExist, s1)"
    and "make_password kdf iterations rnd password = Inr encoded"
    and "create_row en c (new_query (en_db en) user_type)
      [VInt I64 0, VString username, VString encoded, VString email, VBool isActive, VBool isStaff, VBool isSuperuser,
       VTime now] s1 = ((None, u), s')"
  using assms
  by (auto simp: create_user_def set_password_def split: if_splits prod.splits sum.splits exec_error.splits option.splits)

text \<open>C40: When \<open>createsuperuser\<close> succeeds it has inserted exactly one user, active, staff and superuser, under a name
  that is not empty and that no user had, with a hash that accepts the password it was given, which is not
  empty; name, address and password come from the flags, the environment or the prompts as \<open>collect\<close> says.
  When it fails before it reaches the database (no database, bad flags, missing or mismatched input) it
  leaves the database as it was.\<close>

theorem createsuperuser_creates_login:
  assumes kdf: "\<forall>p s i n k. sv_kdf sv p s i n = Some k \<longrightarrow> length k = n"
    and iterations: "0 < sv_iterations sv" "int (sv_iterations sv) < 2 ^ 63"
    and run: "createsuperuser_run sv args sh = (e, sh')"
  shows "case e of
      None \<Rightarrow>
        (\<exists>db fl username email password encoded io s1 u.
           ap_db (sh_app sh) = Some db \<and>
           parse_flags (is_print (sv_tools sv)) args \<lparr>fl_username = [], fl_email = [], fl_noinput = False\<rparr> = Inr fl \<and>
           collect_superuser (sv_environ sv) fl (sv_input sv, []) = (Inr (username, email, password), io) \<and>
           username \<noteq> [] \<and> password \<noteq> [] \<and> check_password (sv_kdf sv) password encoded \<and>
           get_row (sv_env sv db) background [VString ''username'', VString username]
             (new_query (en_db (sv_env sv db)) user_type) (sh_db sh) = (Inl DoesNotExist, s1) \<and>
           create_row (sv_env sv db) background (new_query (en_db (sv_env sv db)) user_type)
             [VInt I64 0, VString username, VString encoded, VString email, VBool True, VBool True, VBool True,
              VTime (en_now (sv_env sv db))] s1 = ((None, u), sh_db sh'))
    | Some (SuperuserError x) \<Rightarrow> True
    | Some x \<Rightarrow> sh_db sh' = sh_db sh \<and> sh_app sh' = sh_app sh \<and> sh_disk sh' = sh_disk sh"
proof -
  let ?fl0 = "\<lparr>fl_username = [], fl_email = [], fl_noinput = False\<rparr>"
  note run' = run [unfolded createsuperuser_run_def]
  show ?thesis
  proof (cases "ap_db (sh_app sh)")
    case None
    with run' show ?thesis by (auto simp: no_database_def)
  next
    case db: (Some db)
    note run1 = run' [unfolded db, simplified]
    show ?thesis
    proof (cases "parse_flags (is_print (sv_tools sv)) args ?fl0")
      case (Inl x)
      with run1 show ?thesis by (auto simp: print_out_def)
    next
      case fl: (Inr fl)
      note run2 = run1 [unfolded fl, simplified]
      obtain r io where coll: "collect_superuser (sv_environ sv) fl (sv_input sv, []) = (r, io)" by (metis surj_pair)
      note run3 = run2 [unfolded coll, simplified]
      show ?thesis
      proof (cases r)
        case (Inl x)
        with collected_error [OF coll [unfolded Inl]] run3 show ?thesis by (auto simp: print_out_def split: command_error.splits)
      next
        case (Inr v)
        obtain username email password where v: "v = (username, email, password)" by (cases v)
        note run4 = run3 [unfolded Inr v, simplified]
        obtain r2 s2 where made: "create_superuser (sv_env sv db) background (sv_kdf sv) (sv_iterations sv) (sv_random sv)
            (en_now (sv_env sv db)) username email password (sh_db sh) = (r2, s2)" by (metis surj_pair)
        show ?thesis
        proof (cases r2)
          case (Inl x)
          with run4 made have "e = Some (SuperuserError x)" by (simp add: Let_def print_out_def)
          then show ?thesis by simp
        next
          case u: (Inr u)
          with run4 made have e: "e = None" and s2: "sh_db sh' = s2"
            by (auto simp: Let_def print_out_def print_line_def)
          from made [unfolded u create_superuser_def] obtain s1 encoded where x: "username \<noteq> []"
            "get_row (sv_env sv db) background [VString ''username'', VString username]
               (new_query (en_db (sv_env sv db)) user_type) (sh_db sh) = (Inl DoesNotExist, s1)"
            "make_password (sv_kdf sv) (sv_iterations sv) (sv_random sv) password = Inr encoded"
            "create_row (sv_env sv db) background (new_query (en_db (sv_env sv db)) user_type)
               [VInt I64 0, VString username, VString encoded, VString email, VBool True, VBool True, VBool True,
                VTime (en_now (sv_env sv db))] s1 = ((None, u), s2)"
            by (rule create_user_Inr)
          from x(3) obtain salt where "sv_random sv = Some salt" by (auto simp: make_password_def split: option.splits)
          with x(3) check_made_password [OF kdf [rule_format] iterations, where salt = salt and raw = password and encoded = encoded and raw' = password]
          have "check_password (sv_kdf sv) password encoded" by simp
          with x(1,2,4) s2 collected_password [OF coll [unfolded Inr v]] fl coll [unfolded Inr v] db
          show ?thesis unfolding e option.case by blast
        qed
      qed
    qed
  qed
qed

text \<open>A database without users that accepts every statement and keeps a log of them.\<close>

definition no_users :: "string list driver" where
  "no_users = \<lparr>drv_begin = (\<lambda>s. (None, s)), drv_commit = (\<lambda>s. (None, s)), drv_rollback = (\<lambda>s. s),
     drv_exec = (\<lambda>tx sql args s. (Inr \<lparr>er_last_insert_id = Inr 1, er_rows_affected = Inr 1\<rparr>, s @ [sql])),
     drv_query = (\<lambda>tx sql args s.
       (Inr \<lparr>qr_rows = (if HasPrefix sql ''SELECT'' then [] else [[VInt I64 1]]), qr_err = None\<rparr>, s @ [sql]))\<rparr>"

definition user_registry :: registry where
  "user_registry = \<lparr>reg_models = [user_model], reg_by_type = [user_type \<mapsto> 0], reg_by_name = [''User'' \<mapsto> 0], reg_frozen = True\<rparr>"

definition user_db :: orm_db where
  "user_db = \<lparr>db_dialect = sqlite, db_registry = user_registry\<rparr>"

definition superuser_services :: "(nat, string list) services" where
  "superuser_services = \<lparr>sv_tools = sample_tools,
     sv_env = (\<lambda>db. \<lparr>en_db = db, en_driver = no_users, en_now = zero_time,
       en_layouts = (\<lambda>t. [TInt I64, TString, TString, TString, TBool, TBool, TBool, TTime]), en_signals = new_signals\<rparr>),
     sv_kdf = pad_kdf, sv_iterations = 3, sv_random = Some ''salty'',
     sv_environ = (\<lambda>v. if v = ''DJANGO_SUPERUSER_PASSWORD'' then ''pw'' else []), sv_input = [],
     sv_listen = (\<lambda>addr h. None)\<rparr>"

definition superuser_shell :: "(unit, nat, string list) shell" where
  "superuser_shell = \<lparr>sh_app = (projr (fst event_start))\<lparr>ap_db := Some user_db\<rparr>, sh_disk = sample_disk, sh_db = [], sh_out = []\<rparr>"

definition superuser_run :: "command_error option \<times> (unit, nat, string list) shell" where
  "superuser_run = createsuperuser_run superuser_services [''-username'', ''root'', ''--noinput=true''] superuser_shell"

lemma superuser_run_ok: "Option.is_none (fst superuser_run) \<and> length (sh_db (snd superuser_run)) = 2"
  by code_simp

theorem createsuperuser_creates_login_witness:
  "fst superuser_run = None \<and>
   (\<exists>encoded s1 u. check_password pad_kdf ''pw'' encoded \<and>
      create_row (sv_env superuser_services user_db) background (new_query user_db user_type)
        [VInt I64 0, VString ''root'', VString encoded, VString [], VBool True, VBool True, VBool True, VTime zero_time] s1 =
      ((None, u), sh_db (snd superuser_run)))"
proof -
  have ok: "fst superuser_run = None" using superuser_run_ok by (simp add: Option.is_none_def)
  have kdf: "\<forall>p s i n k. sv_kdf superuser_services p s i n = Some k \<longrightarrow> length k = n"
    by (auto simp: superuser_services_def pad_kdf_def)
  have flags: "parse_flags (is_print (sv_tools superuser_services)) [''-username'', ''root'', ''--noinput=true'']
      \<lparr>fl_username = [], fl_email = [], fl_noinput = False\<rparr> = Inr \<lparr>fl_username = ''root'', fl_email = [], fl_noinput = True\<rparr>"
    by code_simp
  have input: "collect_superuser (sv_environ superuser_services) \<lparr>fl_username = ''root'', fl_email = [], fl_noinput = True\<rparr>
      (sv_input superuser_services, []) = (Inr (''root'', [], ''pw''), ([], []))"
    by code_simp
  have iter: "0 < sv_iterations superuser_services" "int (sv_iterations superuser_services) < 2 ^ 63"
    by (simp_all add: superuser_services_def)
  have env: "sv_kdf superuser_services = pad_kdf" "en_now (sv_env superuser_services user_db) = zero_time"
    "en_db (sv_env superuser_services user_db) = user_db" "ap_db (sh_app superuser_shell) = Some user_db"
    by (simp_all add: superuser_services_def superuser_shell_def)
  have run: "createsuperuser_run superuser_services [''-username'', ''root'', ''--noinput=true''] superuser_shell =
      (None, snd superuser_run)"
    using ok by (simp add: superuser_run_def prod_eq_iff)
  from createsuperuser_creates_login [OF kdf iter run, unfolded option.case]
  obtain db fl username email password encoded io s1 u where
    db: "ap_db (sh_app superuser_shell) = Some db"
    and fl: "parse_flags (is_print (sv_tools superuser_services)) [''-username'', ''root'', ''--noinput=true'']
      \<lparr>fl_username = [], fl_email = [], fl_noinput = False\<rparr> = Inr fl"
    and coll: "collect_superuser (sv_environ superuser_services) fl (sv_input superuser_services, []) =
      (Inr (username, email, password), io)"
    and made: "check_password (sv_kdf superuser_services) password encoded"
      "create_row (sv_env superuser_services db) background (new_query (en_db (sv_env superuser_services db)) user_type)
        [VInt I64 0, VString username, VString encoded, VString email, VBool True, VBool True, VBool True,
         VTime (en_now (sv_env superuser_services db))] s1 = ((None, u), sh_db (snd superuser_run))"
    by - (elim exE conjE, rule that, assumption+)
  from db env(4) have db': "db = user_db" by simp
  from fl flags have "fl = \<lparr>fl_username = ''root'', fl_email = [], fl_noinput = True\<rparr>" by simp
  with coll input have "username = ''root''" "email = []" "password = ''pw''" by simp_all
  with made ok show ?thesis unfolding db' env by blast
qed

end
