(* ===== verification/App_Process.thy ===== *)
theory App_Process
  imports App_Commands
begin

text \<open>
  A process in which management commands run one after the other, whatever the services answer and whatever
  happens to the disk and the database in between, and what stays true of its application.
\<close>

inductive runs :: "('s, 'h, 't) shell \<Rightarrow> ('s, 'h, 't) shell \<Rightarrow> bool" for sh where
  runs_nothing: "runs sh sh"
| runs_command: "runs sh sh1 \<Longrightarrow> execute sv args sh1 = (e, sh2) \<Longrightarrow> runs sh sh2"
| runs_outside: "runs sh sh1 \<Longrightarrow> runs sh (sh1\<lparr>sh_disk := d, sh_db := s\<rparr>)"

subsection \<open>What a command does to the application\<close>

lemma print_app [simp]: "sh_app (print_out x sh) = sh_app sh" "sh_app (print_line x sh) = sh_app sh"
  by (simp_all add: print_out_def print_line_def)

lemma other_commands_app:
  "sh_app (snd (migrate_run env sh)) = sh_app sh"
  "sh_app (snd (createsuperuser_run sv args sh)) = sh_app sh"
  "sh_app (snd (runserver_run listen sh)) = sh_app sh"
  "sh_app (snd (scaffold_command run args sh)) = sh_app sh"
  by (simp_all add: migrate_run_def createsuperuser_run_def runserver_run_def scaffold_command_def Let_def
      split: option.split prod.split sum.split)

lemma makemigrations_app:
  "sh_app (snd (makemigrations_run g sh)) = sh_app sh \<or>
   (\<exists>models current m path w. ap_models (sh_app sh) = Some models \<and> state_from_registry models = Some current \<and>
      make_migrations (ap_migrations_app (sh_app sh)) current
        (for_app (ap_migrations (sh_app sh)) (ap_migrations_app (sh_app sh))) (w :: (migration \<Rightarrow> write_error + string) option) =
        Inr (m, path) \<and>
      sh_app (snd (makemigrations_run g sh)) = (sh_app sh)\<lparr>ap_migrations := add_migration m (ap_migrations (sh_app sh))\<rparr>)"
proof (cases "sh_app (snd (makemigrations_run g sh)) = sh_app sh")
  case False
  then obtain models current m path where "ap_models (sh_app sh) = Some models" "state_from_registry models = Some current"
    "make_migrations (ap_migrations_app (sh_app sh)) current
       (for_app (ap_migrations (sh_app sh)) (ap_migrations_app (sh_app sh))) (migration_writer g (sh_app sh) (sh_disk sh)) =
       Inr (m, path)"
    by (auto simp: makemigrations_run_def Let_def split: option.splits sum.splits make_error.splits)
  with makemigrations_run_made [OF this] show ?thesis by blast
qed simp

lemma execute_app:
  fixes sh :: "('s, 'h, 't) shell"
  assumes "execute sv args sh = (e, sh')"
  shows "sh_app sh' = sh_app sh \<or> sh_app sh' = sh_app (snd (makemigrations_run (sv_tools sv) sh))"
proof (cases args)
  case (Cons n rest)
  show ?thesis
  proof (cases "n \<in> fst ` set builtin_commands")
    case True
    from assms execute_builtin [OF True, of sv rest sh] Cons have "sh' = snd (builtin_run sv n rest sh)" by simp
    then show ?thesis by (simp add: builtin_run_def other_commands_app)
  next
    case False
    then have "n \<notin> fst ` set (builtin_registry sv :: (command_error, ('s, 'h, 't) shell) command_registry)"
      by (force simp: builtin_registry_map)
    then have "map_of (builtin_registry sv :: (command_error, ('s, 'h, 't) shell) command_registry) n = None"
      by (simp add: map_of_eq_None_iff)
    with assms Cons show ?thesis by (auto simp: execute_def command_execute_def)
  qed
qed (use assms in \<open>auto simp: execute_def command_execute_def\<close>)

subsection \<open>The history over a run\<close>

lemma mig_registry_wf_fold: "mig_registry_wf r \<Longrightarrow> mig_registry_wf (fold add_migration ms r)"
  by (induction ms arbitrary: r) (simp_all add: mig_registry_wf_add)

lemma runs_history:
  assumes "runs sh sh'" and "ap_models (sh_app sh) = Some models" and "state_from_registry models = Some current"
    and "ps_wf current" and "generated (for_app (ap_migrations (sh_app sh)) (ap_migrations_app (sh_app sh)))"
  shows "\<exists>ms. sh_app sh' = (sh_app sh)\<lparr>ap_migrations := fold add_migration ms (ap_migrations (sh_app sh))\<rparr> \<and>
    (ms = [] \<or> (\<exists>m. ms = [m] \<and> make_migrations (ap_migrations_app (sh_app sh)) current
       (for_app (ap_migrations (sh_app sh)) (ap_migrations_app (sh_app sh))) unwritten = Inr (m, [])))"
  using assms(1)
proof (induction rule: runs.induct)
  case runs_nothing
  show ?case by (intro exI [of _ "[]"]) simp
next
  case (runs_command sh1 sv args e sh2)
  let ?app = "sh_app sh" and ?a = "ap_migrations_app (sh_app sh)"
  let ?prior = "for_app (ap_migrations ?app) ?a"
  from runs_command.IH obtain ms where app1: "sh_app sh1 = ?app\<lparr>ap_migrations := fold add_migration ms (ap_migrations ?app)\<rparr>"
    and ms: "ms = [] \<or> (\<exists>m. ms = [m] \<and> make_migrations ?a current ?prior unwritten = Inr (m, []))" by blast
  show ?case
  proof (cases "sh_app sh2 = sh_app sh1")
    case True
    with app1 ms show ?thesis by (intro exI [of _ ms]) simp
  next
    case False
    with execute_app [OF runs_command.hyps(2)] makemigrations_app [of "sv_tools sv" sh1] assms(2,3) app1
    obtain m path and w :: "(migration \<Rightarrow> write_error + string) option" where
      made: "make_migrations ?a current (for_app (fold add_migration ms (ap_migrations ?app)) ?a) w = Inr (m, path)"
      and app2: "sh_app sh2 = (sh_app sh1)\<lparr>ap_migrations := add_migration m (ap_migrations (sh_app sh1))\<rparr>"
      by auto
    have "ms = []"
    proof (rule ccontr)
      assume "ms \<noteq> []"
      with ms obtain m0 where m0: "ms = [m0]" and made0: "make_migrations ?a current ?prior unwritten = Inr (m0, [])" by blast
      from make_migrations_Inr [OF made0] have "mig_app m0 = ?a" by auto
      with made m0 make_migrations_converges [OF assms(5,4) made0, of ?a w] show False by (simp add: for_app_add)
    qed
    with made have "make_migrations ?a current ?prior w = Inr (m, path)" by simp
    from make_migrations_unwritten [OF this] \<open>ms = []\<close> app1 app2 show ?thesis
      by (intro exI [of _ "[m]"]) simp
  qed
next
  case (runs_outside sh1 d s)
  then show ?case by simp
qed

text \<open>C3: Whatever management commands run in a process, in any order and with any outcome, the application
  keeps its models and gains at most one migration. Its history stays one that \<open>makemigrations\<close> built: it
  replays without an error, and once the migration is there, it replays to a state without a difference to the models.\<close>

theorem commands_keep_history:
  fixes sh :: "('s, 'h, 't) shell"
  assumes new: "new_application sqlite_error conflict migs given configs p = (Inr app, p')"
    and ptrs: "\<forall>m \<in> set (pointers configs). go_pointer m"
    and migs: "mig_registry_wf migs" "generated (for_app migs (migrations_app configs))"
    and app: "sh_app sh = app" and run: "runs sh sh'"
  shows "\<exists>ms current. length ms \<le> 1 \<and> sh_app sh' = app\<lparr>ap_migrations := fold add_migration ms (ap_migrations app)\<rparr> \<and>
    mig_registry_wf (ap_migrations (sh_app sh')) \<and>
    generated (for_app (ap_migrations (sh_app sh')) (migrations_app configs)) \<and>
    Option.bind (ap_models app) state_from_registry = Some current \<and>
    (ms = [] \<or> Option.bind (state_from_migrations (for_app (ap_migrations (sh_app sh')) (migrations_app configs)))
                  (\<lambda>ps. diff ps current) = Some [])"
proof -
  from new_application_knows [OF new ptrs migs(1)] obtain models where
    models: "ap_models app = Some models" "registry_wf models" "resolved models"
    and a: "ap_migrations_app app = migrations_app configs"
    and hist: "for_app (ap_migrations app) (migrations_app configs) = for_app migs (migrations_app configs)" by metis
  from state_from_registry_total [OF models(2,3)] obtain current where cur: "state_from_registry models = Some current" by blast
  with state_from_registry_wf [OF cur models(2)] have wf: "ps_wf current" by simp
  from new_application_Inr [OF new] have "mig_registry_wf (ap_migrations app)"
    by (metis mig_registry_wf_fold mig_registry_wf_new seed_migrations_def)
  with mig_registry_wf_fold have reg: "mig_registry_wf (fold add_migration ms (ap_migrations app))" for ms by blast
  from runs_history [OF run, unfolded app, OF models(1) cur wf] migs(2) a hist obtain ms where
    app': "sh_app sh' = app\<lparr>ap_migrations := fold add_migration ms (ap_migrations app)\<rparr>"
    and ms: "ms = [] \<or> (\<exists>m. ms = [m] \<and>
      make_migrations (migrations_app configs) current (for_app migs (migrations_app configs)) unwritten = Inr (m, []))" by auto
  from models(1) cur have current: "Option.bind (ap_models app) state_from_registry = Some current" by simp
  from ms show ?thesis
  proof (elim disjE exE conjE)
    assume "ms = []"
    with app' reg current migs(2) hist show ?thesis
      by (intro exI [of _ "[]"] exI [of _ current]) (use reg [of "[]"] in simp)
  next
    fix m
    assume m: "ms = [m]"
      and made: "make_migrations (migrations_app configs) current (for_app migs (migrations_app configs)) unwritten = Inr (m, [])"
    from make_migrations_Inr [OF made] have "mig_app m = migrations_app configs" by auto
    with m app' hist have hist': "for_app (ap_migrations (sh_app sh')) (migrations_app configs) =
        for_app migs (migrations_app configs) @ [m]" by (simp add: for_app_add)
    have "make_migrations (migrations_app configs) current (for_app migs (migrations_app configs) @ [m]) unwritten = Inl NoChanges"
      by (rule make_migrations_converges [OF migs(2) wf made, THEN conjunct1])
    then have "Option.bind (state_from_migrations (for_app migs (migrations_app configs) @ [m])) (\<lambda>ps. diff ps current) = Some []"
      by (auto simp: make_migrations_def Let_def split: option.splits if_splits)
    with generated_snoc [OF migs(2) wf made] m app' reg [of ms] current hist' show ?thesis
      by (intro exI [of _ ms] exI [of _ current]) simp
  qed
qed

text \<open>The application of one app, over two \<open>makemigrations\<close>, a \<open>migrate\<close> and an unknown command.\<close>

definition event_services :: "(nat, unit) services" where
  "event_services = \<lparr>sv_tools = sample_tools, sv_env = (\<lambda>db. perm_env), sv_kdf = pad_kdf, sv_iterations = 1,
     sv_random = None, sv_environ = (\<lambda>n. []), sv_input = [], sv_listen = (\<lambda>a h. None)\<rparr>"

definition event_session :: "(unit, nat, unit) shell" where
  "event_session = foldl (\<lambda>sh args. snd (execute event_services args sh)) event_shell
     [[''makemigrations''], [''migrate''], [''makemigrations''], [''nothing'']]"

lemma runs_execute: "runs sh sh1 \<Longrightarrow> runs sh (snd (execute sv args sh1))"
  by (cases "execute sv args sh1") (simp add: runs_command)

lemma event_session_runs: "runs event_shell event_session"
  by (simp add: event_session_def runs_execute runs_nothing)

theorem commands_keep_history_witness:
  "length (for_app (ap_migrations (sh_app event_session)) ''events'') \<le> 1 \<and>
     generated (for_app (ap_migrations (sh_app event_session)) ''events'')"
proof -
  have "generated (for_app new_mig_registry (migrations_app [event_app]))"
    by (simp add: for_app_def new_mig_registry_def generated_Nil)
  from commands_keep_history [OF event_started [unfolded event_start_def] event_pointers mig_registry_wf_new this refl
      event_session_runs]
  obtain ms where ms: "length ms \<le> 1"
    and app: "sh_app event_session = (sh_app event_shell)\<lparr>ap_migrations := fold add_migration ms (ap_migrations (sh_app event_shell))\<rparr>"
    and gen: "generated (for_app (ap_migrations (sh_app event_session)) (migrations_app [event_app]))" by (elim exE conjE)
  have a: "migrations_app [event_app] = ''events''" by code_simp
  have "for_app (ap_migrations (sh_app event_shell)) ''events'' = []"
    using new_application_knows [OF event_started [unfolded event_start_def] event_pointers mig_registry_wf_new]
    by (metis for_app_def mig_registry.select_convs(1) new_mig_registry_def option.case(1))
  with app have hist: "for_app (ap_migrations (sh_app event_session)) ''events'' = filter (\<lambda>m. mig_app m = ''events'') ms"
    by (simp add: for_app_fold)
  have "length (for_app (ap_migrations (sh_app event_session)) ''events'') \<le> 1"
    unfolding hist using ms length_filter_le le_trans by blast
  then show ?thesis using gen [unfolded a] by (rule conjI)
qed

end
