(* ===== verification/App_Blog.thy ===== *)
theory App_Blog
  imports App_Application Web_Views
begin

text \<open>
  The models of \<open>auth/models.go\<close> as Go structs, which build the models that \<open>Web_Auth\<close> works with, and the
  program \<open>examples/blog\<close>: its models, the view of a post with its comments, and the server it wires from
  the ORM, the admin, the router and the middlewares. The embedded templates are a parameter.
\<close>

subsection \<open>The structs of auth\<close>

definition struct_of :: "string \<Rightarrow> string \<Rightarrow> (string \<times> gotype \<times> string) list \<Rightarrow> struct_type" where
  "struct_of pkg name fs =
     \<lparr>st_type = RType pkg name,
      st_fields = \<lparr>sf_name = ''ID'', sf_exported = True, sf_type = TInt I64, sf_tag = []\<rparr> #
        map (\<lambda>(n, t, tag). \<lparr>sf_name = n, sf_exported = True, sf_type = t, sf_tag = tag\<rparr>) fs,
      st_meta = None, st_choices = None\<rparr>"

definition user_struct :: struct_type where
  "user_struct = struct_of ''auth'' ''User''
     [(''Username'', TString, ''unique;max_length=150''), (''PasswordHash'', TString, ''max_length=255''),
      (''Email'', TString, ''max_length=254''), (''IsActive'', TBool, []), (''IsStaff'', TBool, []),
      (''IsSuperuser'', TBool, []), (''DateJoined'', TTime, [])]"

definition group_struct :: struct_type where
  "group_struct = struct_of ''auth'' ''Group'' [(''Name'', TString, ''unique;max_length=150'')]"

definition permission_struct :: struct_type where
  "permission_struct = struct_of ''auth'' ''Permission''
     [(''Codename'', TString, ''max_length=100''), (''Name'', TString, ''max_length=255''),
      (''ContentType'', TString, ''max_length=100'')]"

definition user_group_struct :: struct_type where
  "user_group_struct = struct_of ''auth'' ''UserGroup'' [(''User'', TFK user_type, []), (''Group'', TFK group_type, [])]"

definition user_permission_struct :: struct_type where
  "user_permission_struct = struct_of ''auth'' ''UserPermission''
     [(''User'', TFK user_type, []), (''Permission'', TFK permission_type, [])]"

definition group_permission_struct :: struct_type where
  "group_permission_struct = struct_of ''auth'' ''GroupPermission''
     [(''Group'', TFK group_type, []), (''Permission'', TFK permission_type, [])]"

text \<open>\<open>AppModels\<close>, in dependency order, and the app that provides them.\<close>

definition auth_app_models :: "reg_arg list" where
  "auth_app_models = map PointerToStruct
     [user_struct, group_struct, permission_struct, user_group_struct, user_permission_struct, group_permission_struct]"

definition auth_app :: "('s, 'h) app_config" where
  "auth_app = \<lparr>ac_name = ''auth'', ac_ready = None, ac_models = Some auth_app_models, ac_urls = None, ac_admin = None\<rparr>"

subsection \<open>The models of the blog\<close>

definition blog_post_type :: rtype where
  "blog_post_type = RType ''main'' ''Post''"

definition blog_comment_type :: rtype where
  "blog_comment_type = RType ''main'' ''Comment''"

definition blog_post :: struct_type where
  "blog_post = struct_of ''main'' ''Post''
     [(''Title'', TString, ''max_length=200''), (''Body'', TString, ''type=text''), (''Published'', TBool, []),
      (''CreatedAt'', TTime, [])]"

definition blog_comment :: struct_type where
  "blog_comment = struct_of ''main'' ''Comment''
     [(''Post'', TFK blog_post_type, ''on_delete=cascade''), (''Name'', TString, ''max_length=80''),
      (''Body'', TString, ''type=text''), (''CreatedAt'', TTime, ''auto_now_add'')]"

definition text_at :: "nat \<Rightarrow> struct_val \<Rightarrow> string" where
  "text_at i obj = (case obj ! i of VString s \<Rightarrow> s | _ \<Rightarrow> [])"

definition post_string :: "struct_val \<Rightarrow> string" where
  "post_string p = text_at 1 p"

definition comment_string :: "struct_val \<Rightarrow> string" where
  "comment_string c = ''Comment by '' @ text_at 2 c"

definition blog_stringers :: string_methods where
  "blog_stringers t =
     (if t = blog_post_type then Some (\<lambda>i. case i of StructInstance obj \<Rightarrow> post_string obj | _ \<Rightarrow> [])
      else if t = blog_comment_type then Some (\<lambda>i. case i of StructInstance obj \<Rightarrow> comment_string obj | _ \<Rightarrow> [])
      else None)"

subsection \<open>A post with its comments\<close>

text \<open>What a handler does: it answers, or it panics and the server drops the connection.\<close>

type_synonym view_result = "http_out option"

definition server_error :: "http_out \<Rightarrow> view_result" where
  "server_error w = Some (out_error ''internal server error'' 500 w)"

definition wrap_comments :: "model \<Rightarrow> struct_val list \<Rightarrow> tval" where
  "wrap_comments m comments =
     TSeq (map (\<lambda>c. TModel (model_context (blog_stringers blog_comment_type) m (StructInstance c))) comments)"

definition comment_form :: "model \<Rightarrow> form" where
  "comment_form m = from_model m [Web_ModelForms.with_fields [''Name'', ''Body'']]"

text \<open>The page: the post, its comments in the order they were made, the form, the token.\<close>

definition post_page ::
  "'s env \<Rightarrow> go_ctx \<Rightarrow> template_engine \<Rightarrow> string \<Rightarrow> model \<Rightarrow> int \<Rightarrow> struct_val \<Rightarrow> form \<Rightarrow> http_out \<Rightarrow> 's \<Rightarrow> view_result \<times> 's"
where
  "post_page en c eng token commentModel pk post form w s =
     (case all_rows en c (OrderBy [''created_at'']
             (Filter [VString ''post_id'', VInt I64 pk] (new_query (en_db en) blog_comment_type))) s of
        (Inl err, s1) \<Rightarrow> (server_error w, s1)
      | (Inr comments, s1) \<Rightarrow>
          (case model_of (db_registry (en_db en)) (Some blog_post_type) of
             None \<Rightarrow> (None, s1)
           | Some postModel \<Rightarrow>
               (Some (snd (view_render w eng ''post_detail.html''
                  [''post'' \<mapsto> TModel (model_context (blog_stringers blog_post_type) postModel (StructInstance post)),
                   ''comments'' \<mapsto> wrap_comments commentModel comments,
                   ''form_html'' \<mapsto> TGo (VString (render_form form)),
                   ''csrf_token'' \<mapsto> TGo (VString token)])), s1)))"

text \<open>Storing a valid comment: the post is the one of the URL.\<close>

definition store_comment ::
  "'s env \<Rightarrow> go_ctx \<Rightarrow> model \<Rightarrow> int \<Rightarrow> form \<Rightarrow> string \<Rightarrow> http_out \<Rightarrow> 's \<Rightarrow> view_result \<times> 's"
where
  "store_comment en c commentModel pk form path w s =
     (case populate_struct commentModel (fm_cleaned form) (zero_struct (en_layouts en blog_comment_type)) of
        Inl (ReflectPanic f) \<Rightarrow> (None, s)
      | Inl err \<Rightarrow> (server_error w, s)
      | Inr comment \<Rightarrow>
          (case create_row en c (new_query (en_db en) blog_comment_type) (comment[1 := fk_set_pk pk (comment ! 1)]) s of
             ((Some err, obj), s1) \<Rightarrow> (server_error w, s1)
           | ((None, obj), s1) \<Rightarrow> (Some (view_redirect path 302 w), s1)))"

definition post_detail_serve ::
  "'s env \<Rightarrow> go_ctx \<Rightarrow> template_engine \<Rightarrow> string \<Rightarrow> url_values option \<Rightarrow> view_request \<Rightarrow> http_out \<Rightarrow> 's \<Rightarrow> view_result \<times> 's"
where
  "post_detail_serve en c eng token posted r w s =
     (case parse_int64 (vr_path_value r ''pk'') of
        None \<Rightarrow> (Some (out_not_found w), s)
      | Some pk \<Rightarrow>
          (case get_row en c [VString ''id'', VInt I64 pk] (new_query (en_db en) blog_post_type) s of
             (Inl err, s1) \<Rightarrow> (if err = DoesNotExist then Some (out_not_found w) else server_error w, s1)
           | (Inr post, s1) \<Rightarrow>
               (case model_of (db_registry (en_db en)) (Some blog_comment_type) of
                  None \<Rightarrow> (server_error w, s1)
                | Some commentModel \<Rightarrow>
                    (let form = comment_form commentModel
                     in if rq_method (vr_request r) = ''POST'' then
                          (case posted of
                             None \<Rightarrow> (Some (out_error ''bad request'' 400 w), s1)
                           | Some data \<Rightarrow>
                               (case is_valid (bind_form data form) of
                                  (valid, form) \<Rightarrow>
                                    if valid then
                                      store_comment en c commentModel pk form (rq_path (vr_request r)) w s1
                                    else post_page en c eng token commentModel pk post form w s1))
                        else post_page en c eng token commentModel pk post form w s1))))"

subsection \<open>The server\<close>

datatype blog_handler = PostList | PostDetail

record blog_config =
  bc_dsn :: string
  bc_secret_key :: string

datatype blog_error =
    BlogRegister string registry_error
  | BlogResolve registry_error
  | BlogOpen string
  | BlogCreateTable string exec_error
  | BlogEngine string
  | BlogAdminPanic string
  | BlogRouterPanic router_error

fun create_tables :: "'s env \<Rightarrow> model list \<Rightarrow> 's \<Rightarrow> blog_error option \<times> 's" where
  "create_tables en [] s = (None, s)"
| "create_tables en (m # ms) s =
     (case create_table_terminal en background m s of
        (Inl e, s1) \<Rightarrow> (Some (BlogCreateTable (m_table m) e), s1)
      | (Inr u, s1) \<Rightarrow> create_tables en ms s1)"

definition blog_registry :: "blog_error + registry" where
  "blog_registry =
     (case loop_err (\<lambda>r m. case register r m of Inl e \<Rightarrow> Inl (BlogRegister (name_of m) e) | Inr (r', i) \<Rightarrow> Inr r') new_registry
             ([PointerToStruct blog_post, PointerToStruct blog_comment] @ auth_app_models) of
        Inl e \<Rightarrow> Inl e
      | Inr r \<Rightarrow> (case resolve r of Inl e \<Rightarrow> Inl (BlogResolve e) | Inr r' \<Rightarrow> Inr (freeze r')))"

definition open_blog_db ::
  "(string \<Rightarrow> string option) \<Rightarrow> (orm_db \<Rightarrow> 's env) \<Rightarrow> string \<Rightarrow> 's \<Rightarrow> (blog_error + orm_db) \<times> 's"
where
  "open_blog_db sqlite_error env dsn s =
     (case blog_registry of
        Inl e \<Rightarrow> (Inl e, s)
      | Inr reg \<Rightarrow>
          (case sqlite_error dsn of
             Some e \<Rightarrow> (Inl (BlogOpen e), s)
           | None \<Rightarrow>
               (let db = \<lparr>db_dialect = sqlite, db_registry = reg\<rparr>
                in case create_tables (env db) (reg_models reg) s of
                     (Some e, s1) \<Rightarrow> (Inl e, s1)
                   | (None, s1) \<Rightarrow> (Inr db, s1))))"

definition post_list_view :: "template_engine \<Rightarrow> list_view" where
  "post_list_view eng = \<lparr>lv_type = blog_post_type, lv_engine = eng, lv_template = ''post_list.html'', lv_context_name = [],
     lv_query = Some (\<lambda>db. OrderBy [''-created_at'']
       (Filter [VString ''published'', VBool True] (new_query db blog_post_type))), lv_extra = None\<rparr>"

definition public_routes :: "blog_handler site_handler route list" where
  "public_routes =
     [Path ''GET /{$}'' (AppHandler PostList) ''post-list'', Path ''/posts/{pk}/'' (AppHandler PostDetail) ''post-detail'']"

definition blog_admin_site :: "orm_db \<Rightarrow> (string, admin_site) go_result" where
  "blog_admin_site db =
     (case admin_register db blog_post_type
             \<lparr>ma_list_display = [''ID'', ''Title'', ''Published''], ma_ordering = [''-id''], ma_search_fields = [],
              ma_readonly_fields = [], ma_exclude_fields = []\<rparr> new_admin_site of
        Panic e \<Rightarrow> Panic e
      | Value site \<Rightarrow>
          admin_register db blog_comment_type
             \<lparr>ma_list_display = [''ID'', ''Post'', ''Name''], ma_ordering = [''-id''], ma_search_fields = [],
              ma_readonly_fields = [], ma_exclude_fields = []\<rparr> site)"

text \<open>\<open>newServer\<close>: the handler, and the engine with the router's \<open>Reverse\<close> as its resolver.\<close>

definition new_blog_server ::
  "(string \<Rightarrow> string option) \<Rightarrow> (orm_db \<Rightarrow> 's env) \<Rightarrow> (string list \<Rightarrow> string \<Rightarrow> string option) \<Rightarrow>
     string + template_engine \<Rightarrow> blog_config \<Rightarrow> 's \<Rightarrow>
     (blog_error + blog_handler root_handler \<times> orm_db \<times> template_engine) \<times> 's"
where
  "new_blog_server sqlite_error env conflict public_engine cfg s =
     (case open_blog_db sqlite_error env (bc_dsn cfg) s of
        (Inl e, s1) \<Rightarrow> (Inl e, s1)
      | (Inr db, s1) \<Rightarrow>
          (case public_engine of
             Inl e \<Rightarrow> (Inl (BlogEngine e), s1)
           | Inr eng \<Rightarrow>
               (case blog_admin_site db of
                  Panic e \<Rightarrow> (Inl (BlogAdminPanic e), s1)
                | Value site \<Rightarrow>
                    (case new_router conflict (public_routes @ site_routes (Some site)) of
                       Panic e \<Rightarrow> (Inl (BlogRouterPanic e), s1)
                     | Value router \<Rightarrow>
                         (Inr (SessionMiddleware (bc_secret_key cfg) ''sessionid''
                                 (CsrfMiddleware (AuthMiddleware (RouterHandler router))), db,
                               set_resolver (Some (router_resolver router)) eng), s1)))))"

definition blog_serve ::
  "'s env \<Rightarrow> go_ctx \<Rightarrow> template_engine \<Rightarrow> string \<Rightarrow> url_values option \<Rightarrow> blog_handler \<Rightarrow> view_request \<Rightarrow> http_out \<Rightarrow> 's \<Rightarrow>
     view_result \<times> 's"
where
  "blog_serve en c eng token posted h r w s =
     (case h of
        PostList \<Rightarrow> (case list_serve en c blog_stringers (post_list_view eng) r w s of (w1, s1) \<Rightarrow> (Some w1, s1))
      | PostDetail \<Rightarrow> post_detail_serve en c eng token posted r w s)"

subsection \<open>The structs build the models\<close>

lemma struct_of_simps [simp]:
  "st_type (struct_of pkg name fs) = RType pkg name" "st_choices (struct_of pkg name fs) = None"
  by (simp_all add: struct_of_def)

lemmas build_simps = build_model_def resolve_pk_def find_pk_def Let_def index_fields_def index_field_def
  apply_choices_def upt_rec eval_nat_numeral

lemmas auth_fields = char_field_def bool_field_def link_field_def id_field_def promote_def

lemma collect_user: "collect_fields user_struct =
    Inr [id_field, (char_field ''Username'' ''username'' 150 1)\<lparr>f_unique := True\<rparr>,
       char_field ''PasswordHash'' ''password_hash'' 255 2, char_field ''Email'' ''email'' 254 3,
       bool_field ''IsActive'' ''is_active'' 4, bool_field ''IsStaff'' ''is_staff'' 5,
       bool_field ''IsSuperuser'' ''is_superuser'' 6,
       id_field\<lparr>f_name := ''DateJoined'', f_column := ''date_joined'', f_kind := KindDateTime, f_index := 7\<rparr>]"
  by code_simp

lemma collect_group: "collect_fields group_struct = Inr [id_field, (char_field ''Name'' ''name'' 150 1)\<lparr>f_unique := True\<rparr>]"
  by code_simp

lemma collect_permission: "collect_fields permission_struct =
    Inr [id_field, char_field ''Codename'' ''codename'' 100 1, char_field ''Name'' ''name'' 255 2,
       char_field ''ContentType'' ''content_type'' 100 3]"
  by code_simp

lemma collect_links:
  "collect_fields user_group_struct = Inr [id_field, link_field ''User'' ''user_id'' 1 user_type None,
     link_field ''Group'' ''group_id'' 2 group_type None]"
  "collect_fields user_permission_struct = Inr [id_field, link_field ''User'' ''user_id'' 1 user_type None,
     link_field ''Permission'' ''permission_id'' 2 permission_type None]"
  "collect_fields group_permission_struct = Inr [id_field, link_field ''Group'' ''group_id'' 1 group_type None,
     link_field ''Permission'' ''permission_id'' 2 permission_type None]"
  by code_simp+

lemma auth_tables:
  "table_name user_struct = ''user''" "table_name group_struct = ''group''" "table_name permission_struct = ''permission''"
  "table_name user_group_struct = ''usergroup''" "table_name user_permission_struct = ''userpermission''"
  "table_name group_permission_struct = ''grouppermission''"
  by code_simp+

lemma auth_struct_types:
  "st_type user_struct = user_type" "st_type group_struct = group_type" "st_type permission_struct = permission_type"
  "st_type user_group_struct = RType ''auth'' ''UserGroup''"
  "st_type user_permission_struct = RType ''auth'' ''UserPermission''"
  "st_type group_permission_struct = RType ''auth'' ''GroupPermission''"
  "st_choices user_struct = None" "st_choices group_struct = None" "st_choices permission_struct = None"
  "st_choices user_group_struct = None" "st_choices user_permission_struct = None"
  "st_choices group_permission_struct = None"
  by (simp_all add: user_struct_def group_struct_def permission_struct_def user_group_struct_def
      user_permission_struct_def group_permission_struct_def user_type_def group_type_def permission_type_def)

text \<open>The structs of \<open>auth/models.go\<close> build the models that the development of \<open>auth\<close> is about.\<close>

lemma auth_models_built:
  "build_model user_struct = Inr user_model" "build_model group_struct = Inr group_model"
  "build_model permission_struct = Inr permission_model"
  "build_model user_group_struct = Inr (user_group_model (\<lambda>t. None))"
  "build_model user_permission_struct = Inr (user_permission_model (\<lambda>t. None))"
  "build_model group_permission_struct = Inr (group_permission_model (\<lambda>t. None))"
  by (simp_all add: build_simps collect_user collect_group collect_permission collect_links auth_tables auth_struct_types auth_fields
      user_model_def group_model_def permission_model_def user_group_model_def user_permission_model_def
      group_permission_model_def link_model_def user_link_def group_link_def permission_link_def
      user_type_def group_type_def permission_type_def)

subsection \<open>Posting a comment\<close>

definition comment_fields :: "field list" where
  "comment_fields =
     [promote id_field,
      id_field\<lparr>f_name := ''Post'', f_column := ''post_id'', f_index := 1,
        f_rel := Some \<lparr>rel_kind = RelFK, rel_column = ''post_id'', rel_on_delete = OnDeleteCascade,
          rel_target_type = blog_post_type, rel_target = Some 0\<rparr>\<rparr>,
      char_field ''Name'' ''name'' 80 2,
      id_field\<lparr>f_name := ''Body'', f_column := ''body'', f_kind := KindText, f_index := 3\<rparr>,
      id_field\<lparr>f_name := ''CreatedAt'', f_column := ''created_at'', f_kind := KindDateTime, f_index := 4,
        f_auto_now_add := True\<rparr>]"

lemma blog_registry_comment:
  "(case blog_registry of Inl e \<Rightarrow> None | Inr r \<Rightarrow> map_option m_fields (model_of r (Some blog_comment_type))) =
     Some comment_fields"
  by code_simp

definition name_control :: form_field where
  "name_control = \<lparr>ff_name = ''Name'', ff_label = ''Name'', ff_required = True, ff_help = [], ff_widget = Some TextInput,
     ff_kind = CharField, ff_max_length = 80, ff_choices = []\<rparr>"

definition body_control :: form_field where
  "body_control = \<lparr>ff_name = ''Body'', ff_label = ''Body'', ff_required = True, ff_help = [], ff_widget = Some Textarea,
     ff_kind = TextField, ff_max_length = 0, ff_choices = []\<rparr>"

lemma comment_form_fields:
  assumes "m_fields m = comment_fields"
  shows "comment_form m = new_form [name_control, body_control]"
proof -
  have "(let cfg = new_form_config [Web_ModelForms.with_fields [''Name'', ''Body'']];
          made = List.map_filter form_field_for comment_fields;
          built = map_of (rev (map (\<lambda>ff. (ff_name ff, ff)) made));
          order = map ff_name made
      in map (apply_config cfg) (List.map_filter built (included_names cfg order))) = [name_control, body_control]"
    by code_simp
  then show ?thesis by (simp only: comment_form_def from_model_def model_form_fields_def assms)
qed

definition submitted :: "url_values \<Rightarrow> string \<Rightarrow> string" where
  "submitted data name = TrimSpace (values_get data name)"

definition comment_accepted :: "url_values \<Rightarrow> bool" where
  "comment_accepted data \<longleftrightarrow> submitted data ''Name'' \<noteq> [] \<and> rune_count (submitted data ''Name'') \<le> 80 \<and>
     submitted data ''Body'' \<noteq> []"

lemma comment_form_valid:
  assumes "is_valid (bind_form data (new_form [name_control, body_control])) = (valid, form')"
  shows "valid \<longleftrightarrow> comment_accepted data"
    and "valid \<Longrightarrow> fm_cleaned form' =
      [''Name'' \<mapsto> VString (submitted data ''Name''), ''Body'' \<mapsto> VString (submitted data ''Body'')]"
proof -
  have raw: "raw_value (f\<lparr>fm_data := Some data, fm_bound := True\<rparr>) name_control = values_get data ''Name''"
    "raw_value (f\<lparr>fm_data := Some data, fm_bound := True\<rparr>) body_control = values_get data ''Body''" for f
    by (simp_all add: raw_value_def form_data_def name_control_def body_control_def)
  have name: "clean name_control (values_get data ''Name'') =
      (if submitted data ''Name'' = [] then Inl ''This field is required.''
       else if 80 < int (rune_count (submitted data ''Name'')) then
         Inl (''Ensure this value has at most '' @ itoa 80 @ '' characters.'')
       else Inr (VString (submitted data ''Name'')))"
    by (simp add: clean_def name_control_def submitted_def Let_def)
  have body: "clean body_control (values_get data ''Body'') =
      (if submitted data ''Body'' = [] then Inl ''This field is required.'' else Inr (VString (submitted data ''Body'')))"
    by (simp add: clean_def body_control_def submitted_def Let_def)
  have names: "ff_name name_control = ''Name''" "ff_name body_control = ''Body''"
    by (simp_all add: name_control_def body_control_def)
  note eval = is_valid_def bind_form_def new_form_def clean_field_def raw_value_def form_data_def Let_def names
  have kinds: "ff_kind name_control \<noteq> BoolField" "ff_kind body_control \<noteq> BoolField"
    by (simp_all add: name_control_def body_control_def)
  from assms show "valid \<longleftrightarrow> comment_accepted data"
    by (auto simp: eval kinds name body comment_accepted_def split: if_splits)
  from assms show "valid \<Longrightarrow> fm_cleaned form' =
      [''Name'' \<mapsto> VString (submitted data ''Name''), ''Body'' \<mapsto> VString (submitted data ''Body'')]"
    by (auto simp: eval kinds name body split: if_splits)
qed

lemma comment_populated:
  assumes "m_fields m = comment_fields"
  shows "populate_struct m [''Name'' \<mapsto> VString n, ''Body'' \<mapsto> VString b] (zero_struct (struct_layout blog_comment)) =
    Inr [VInt I64 0, VFK 0 None, VString n, VString b, VTime zero_time]"
proof -
  have "zero_struct (struct_layout blog_comment) = [VInt I64 0, VFK 0 None, VString [], VString [], VTime zero_time]"
    by code_simp
  then show ?thesis
    by (simp add: populate_struct_def assms comment_fields_def populate_field_def set_scalar_def id_field_def promote_def
        char_field_def Let_def eval_nat_numeral)
qed

lemma page_status:
  assumes "status_of w = None"
  shows "post_page en c eng token m pk post form w s \<noteq> (Some w', s') \<or> status_of w' \<noteq> Some 302"
  using assms out_status [OF assms]
  by (auto simp: post_page_def server_error_def view_render_def split: sum.splits option.splits prod.splits)


text \<open>A database with one post that accepts every statement.\<close>

definition one_post :: "string list driver" where
  "one_post = \<lparr>drv_begin = (\<lambda>s. (None, s)), drv_commit = (\<lambda>s. (None, s)), drv_rollback = (\<lambda>s. s),
     drv_exec = (\<lambda>tx sql args s. (Inr \<lparr>er_last_insert_id = Inr 1, er_rows_affected = Inr 1\<rparr>, s @ [sql])),
     drv_query = (\<lambda>tx sql args s.
       (Inr \<lparr>qr_rows = (if HasPrefix sql ''SELECT'' then [[VInt I64 7, VString ''Hi'', VString ''text'', VBool True, VTime zero_time]]
                        else [[VInt I64 1]]), qr_err = None\<rparr>, s @ [sql]))\<rparr>"

definition blog_server_env :: "string list env" where
  "blog_server_env = \<lparr>en_db = \<lparr>db_dialect = sqlite, db_registry = projr blog_registry\<rparr>, en_driver = one_post, en_now = zero_time,
     en_layouts = (\<lambda>t. if t = blog_comment_type then struct_layout blog_comment else struct_layout blog_post),
     en_signals = new_signals\<rparr>"

definition comment_data :: url_values where
  "comment_data = [''Name'' \<mapsto> ['' Ann ''], ''Body'' \<mapsto> [''Nice''], ''Post'' \<mapsto> [''9''], ''CreatedAt'' \<mapsto> [''2001-01-01'']]"

definition comment_request :: view_request where
  "comment_request = (sample_request ''7'')\<lparr>vr_request := (vr_request (sample_request ''7''))\<lparr>rq_method := ''POST'',
     rq_path := ''/posts/7/''\<rparr>\<rparr>"

definition comment_run :: "view_result \<times> string list" where
  "comment_run = post_detail_serve blog_server_env background title_engine [] (Some comment_data) comment_request
     \<lparr>ho_type = None, ho_response = new_response\<rparr> []"

lemma comment_run_redirects: "map_option status_of (fst comment_run) = Some (Some 302)"
  by code_simp


end
