(* ===== verification/App_Serve.thy ===== *)
theory App_Serve
  imports App_Application
begin

text \<open>
  A request through the handler that \<open>New\<close> builds: the session is loaded from its signed cookie, the CSRF
  middleware checks the request, the user is loaded, the router picks a view, and the session is saved with
  the first write. The patterns of \<open>http.ServeMux\<close>, the apps' own views and the codecs are parameters; the
  admin's views are those of \<open>Web_Admin\<close>.
\<close>

subsection \<open>Requests\<close>

text \<open>What the middlewares have put into the context of the request.\<close>

record web_ctx =
  wc_session :: "session option"
  wc_token :: "string option"
  wc_user :: "struct_val option"

text \<open>
  A handler's behaviour is what it does to the session, the database and the response, and whether it ends
  with a panic, on which the server drops the connection. \<open>se_match\<close> picks one of the patterns, with
  the values of its wildcards; \<open>se_unmatched\<close> is what the mux answers when there is none: an error, or the
  redirect to the clean path.
\<close>

datatype mux_reply = MuxError string nat | MuxRedirect string nat

record ('h, 's) server =
  se_env :: "'s env"
  se_json :: json
  se_hmac :: hmac
  se_parse :: url_parse
  se_token_random :: string
  se_key_random :: string
  se_match :: "string list \<Rightarrow> request \<Rightarrow> (nat \<times> (string \<Rightarrow> string)) option"
  se_unmatched :: "string list \<Rightarrow> request \<Rightarrow> mux_reply"
  se_view :: "'h \<Rightarrow> web_ctx \<Rightarrow> (string \<Rightarrow> string) \<Rightarrow> request \<Rightarrow> 's \<Rightarrow> 's event list \<times> bool"
  se_site :: admin_site
  se_engine :: engine
  se_stringers :: stringers
  se_kdf :: kdf
  se_query :: "request \<Rightarrow> url_values"
  se_post_form :: "request \<Rightarrow> url_values option"

definition change_to :: "session option \<Rightarrow> 's event list" where
  "change_to sess = (case sess of None \<Rightarrow> [] | Some x \<Rightarrow> [Change (\<lambda>_. x)])"

definition error_events :: "string \<Rightarrow> nat \<Rightarrow> 's event list" where
  "error_events msg status = [Header status, Body (msg @ [CHR 0x0A])]"

definition mux_events :: "mux_reply \<Rightarrow> 's event list" where
  "mux_events m = (case m of MuxError msg status \<Rightarrow> error_events msg status | MuxRedirect url status \<Rightarrow> [Moved url status])"

definition mux_response :: "mux_reply \<Rightarrow> response" where
  "mux_response m =
     (case m of
        MuxError msg status \<Rightarrow> http_error msg status new_response
      | MuxRedirect url status \<Rightarrow> http_redirect url status new_response)"

definition reply_events :: "reply \<Rightarrow> 's event list" where
  "reply_events rep =
     (case rep of
        NotFoundReply \<Rightarrow> error_events ''404 page not found'' 404
      | ErrorReply msg status \<Rightarrow> error_events msg status
      | RedirectReply url \<Rightarrow> [Moved url 302]
      | PageReply name ctx body \<Rightarrow> [Body body]
      | PanicReply name \<Rightarrow> [])"

definition admin_request_of :: "('h, 's) server \<Rightarrow> web_ctx \<Rightarrow> (string \<Rightarrow> string) \<Rightarrow> request \<Rightarrow> admin_request" where
  "admin_request_of sv c values r =
     \<lparr>rq_method = rq_method r, rq_path = rq_path r, rq_host = rq_host r, rq_tls = rq_tls r, rq_header = rq_header r,
      rq_cookies = rq_cookies r, rq_form = rq_form r, aq_path_value = values, aq_query = se_query sv r,
      aq_post_form = se_post_form sv r, aq_user = wc_user c, aq_session = wc_session c,
      aq_csrf_token = (case wc_token c of None \<Rightarrow> [] | Some t \<Rightarrow> t)\<rparr>"

definition admin_events ::
  "('h, 's) server \<Rightarrow> admin_handler \<Rightarrow> web_ctx \<Rightarrow> (string \<Rightarrow> string) \<Rightarrow> request \<Rightarrow> 's \<Rightarrow> 's event list \<times> bool"
where
  "admin_events sv h c values r s =
     (case run_handler (se_site sv) (se_engine sv) (se_env sv) background (se_stringers sv) (se_kdf sv) (se_key_random sv) h
             (admin_request_of sv c values r) s of
        ((rep, sess), s1) \<Rightarrow>
          (change_to sess @ Effect (\<lambda>_. s1) # reply_events rep, case rep of PanicReply n \<Rightarrow> True | _ \<Rightarrow> False))"

subsection \<open>The chain\<close>

fun handle ::
  "('h, 's) server \<Rightarrow> 'h guarded_handler \<Rightarrow> web_ctx \<Rightarrow> request \<Rightarrow> 's \<Rightarrow> 's event list \<times> bool"
where
  "handle sv (RouterHandler ro) c r s =
     (case se_match sv (map fst (rt_mux ro)) r of
        None \<Rightarrow> (mux_events (se_unmatched sv (map fst (rt_mux ro)) r), False)
      | Some (i, values) \<Rightarrow>
          (case snd (rt_mux ro ! i) of
             AppHandler h \<Rightarrow> se_view sv h c values r s
           | AdminHandler h \<Rightarrow> admin_events sv h c values r s))"
| "handle sv (AuthMiddleware h) c r s =
     (case auth_middleware (se_env sv) background (wc_session c) s of
        (u, s1) \<Rightarrow>
          (case handle sv h (case u of None \<Rightarrow> c | Some x \<Rightarrow> c\<lparr>wc_user := Some x\<rparr>) r s1 of
             (es, panicked) \<Rightarrow> (Effect (\<lambda>_. s1) # es, panicked)))"
| "handle sv (CsrfMiddleware h) c r s =
     (case csrf_middleware (se_parse sv) (se_token_random sv) r (wc_session c) of
        (Forbidden, sess) \<Rightarrow> (change_to sess @ error_events ''CSRF verification failed'' 403, False)
      | (Passed token, sess) \<Rightarrow>
          (case handle sv h (c\<lparr>wc_session := sess, wc_token := token\<rparr>) r s of
             (es, panicked) \<Rightarrow> (change_to sess @ es, panicked)))"

text \<open>The text of the placeholder handler.\<close>

definition liveness_text :: "string \<Rightarrow> string" where
  "liveness_text version = ''Djan-Go-Go '' @ version @ '' is running.'' @ [CHR 0x0A]"

definition serve ::
  "('h, 's) server \<Rightarrow> string \<Rightarrow> 'h root_handler \<Rightarrow> request \<Rightarrow> 's \<Rightarrow> response option \<times> 's"
where
  "serve sv version root r s =
     (case root of
        Liveness \<Rightarrow>
          (case se_match sv [''GET /''] r of
             Some m \<Rightarrow> (Some (write_body (liveness_text version) new_response), s)
           | None \<Rightarrow> (Some (mux_response (se_unmatched sv [''GET /''] r)), s))
      | SessionMiddleware key name h \<Rightarrow>
          (let st = cookie_store (se_json sv) (se_hmac sv) key
           in case load_session st name r s of
                (Inl e, s1) \<Rightarrow> (Some (http_error ''session error'' 500 new_response), s1)
              | (Inr sess, s1) \<Rightarrow>
                  (case handle sv h \<lparr>wc_session = Some sess, wc_token = None, wc_user = None\<rparr> r s1 of
                     (es, panicked) \<Rightarrow>
                       (let w = fold (session_event st name (se_key_random sv)) es
                              \<lparr>sw_response = new_response, sw_session = sess, sw_wrote_header = False, sw_state = s1\<rparr>
                        in if panicked then (None, sw_state w)
                           else
                             (let w = save_session st name (se_key_random sv) w
                              in (Some (finish_response (sw_response w)), sw_state w))))))"

subsection \<open>The response of a list of events\<close>

text \<open>The status and the redirect of the first write.\<close>

fun first_status :: "'s event list \<Rightarrow> nat option" where
  "first_status [] = None"
| "first_status (Header n # es) = Some n"
| "first_status (Moved url n # es) = Some n"
| "first_status (Body b # es) = Some 200"
| "first_status (e # es) = first_status es"

fun first_redirect :: "'s event list \<Rightarrow> string option" where
  "first_redirect [] = None"
| "first_redirect (Header n # es) = None"
| "first_redirect (Moved url n # es) = Some url"
| "first_redirect (Body b # es) = None"
| "first_redirect (e # es) = first_redirect es"

lemma save_session_response [simp]:
  "rs_status (sw_response (save_session st name rnd w)) = rs_status (sw_response w)"
  "rs_location (sw_response (save_session st name rnd w)) = rs_location (sw_response w)"
  by (simp_all add: save_session_def set_cookie_def Let_def split: prod.splits sum.splits)

lemma write_status:
  "rs_status (write_header n rs) = (if rs_status rs = None then Some n else rs_status rs)"
  "rs_status (write_body b rs) = (if rs_status rs = None then Some 200 else rs_status rs)"
  "rs_status (http_redirect u n rs) = (if rs_status rs = None then Some n else rs_status rs)"
  "rs_location (write_header n rs) = rs_location rs" "rs_location (write_body b rs) = rs_location rs"
  "rs_location (http_redirect u n rs) = (if rs_status rs = None then Some u else rs_location rs)"
  by (simp_all add: write_header_def write_body_def http_redirect_def Let_def)

lemma events_settled:
  assumes "rs_status (sw_response w) \<noteq> None"
  shows "rs_status (sw_response (fold (session_event st name rnd) es w)) = rs_status (sw_response w) \<and>
    rs_location (sw_response (fold (session_event st name rnd) es w)) = rs_location (sw_response w)"
  using assms
proof (induction es arbitrary: w)
  case (Cons e es)
  from Cons.prems have "rs_status (sw_response (session_event st name rnd e w)) = rs_status (sw_response w)"
    by (cases e) (simp_all add: Let_def write_status)
  moreover from Cons.prems have "rs_location (sw_response (session_event st name rnd e w)) = rs_location (sw_response w)"
    by (cases e) (auto simp: Let_def write_status)
  ultimately show ?case using Cons.IH [of "session_event st name rnd e w"] Cons.prems by simp
qed simp

lemma events_response:
  assumes "rs_status (sw_response w) = None"
  shows "rs_status (sw_response (fold (session_event st name rnd) es w)) = first_status es \<and>
    rs_location (sw_response (fold (session_event st name rnd) es w)) =
      (case first_redirect es of None \<Rightarrow> rs_location (sw_response w) | Some u \<Rightarrow> Some u)"
  using assms
proof (induction es arbitrary: w)
  case (Cons e es)
  show ?case
  proof (cases "is_write e")
    case True
    with Cons.prems events_settled [of "session_event st name rnd e w" st name rnd es] show ?thesis
      by (cases e) (simp_all add: Let_def write_status)
  next
    case False
    then have "rs_status (sw_response (session_event st name rnd e w)) = rs_status (sw_response w)"
      "rs_location (sw_response (session_event st name rnd e w)) = rs_location (sw_response w)"
      "first_status (e # es) = first_status es" "first_redirect (e # es) = first_redirect es"
      by (cases e; simp)+
    with Cons.IH [of "session_event st name rnd e w"] Cons.prems show ?thesis by (simp split: option.split)
  qed
qed simp

subsection \<open>The cookie store and the chain\<close>

definition request_session :: "('h, 's) server \<Rightarrow> string \<Rightarrow> string \<Rightarrow> request \<Rightarrow> session" where
  "request_session sv key name r =
     (case request_cookie r name of
        Some v \<Rightarrow> cookie_decode (se_json sv) (se_hmac sv) key v
      | None \<Rightarrow> new_session)"

lemma load_cookie_session:
  "load_session (cookie_store (se_json sv) (se_hmac sv) key) name r s = (Inr (request_session sv key name r), s)"
  by (simp add: load_session_def cookie_store_def request_session_def split: option.split)

lemma cookie_save_state: "sw_state (save_session (cookie_store js mac key) name rnd w) = sw_state w"
  by (auto simp: save_session_def cookie_store_def Let_def split: sum.splits)

lemma cookie_events_state:
  "sw_state (fold (session_event (cookie_store js mac key) name rnd) es w) = fold affected es (sw_state w)"
proof (induction es arbitrary: w)
  case (Cons e es)
  then show ?case by (cases e) (simp_all add: Let_def cookie_save_state)
qed simp

text \<open>Unless a view panics, this is the middleware of \<open>Web_Sessions\<close> around the other links.\<close>

lemma serve_is_session_middleware:
  assumes "\<And>sess. handle sv h \<lparr>wc_session = Some sess, wc_token = None, wc_user = None\<rparr> r s = (f sess, False)"
  shows "serve sv v (SessionMiddleware key name h) r s =
    apfst Some (session_middleware (cookie_store (se_json sv) (se_hmac sv) key) name (se_key_random sv) f r s)"
  by (simp add: serve_def session_middleware_def load_cookie_session assms Let_def)

lemma serve_chain:
  assumes "handle sv h \<lparr>wc_session = Some (request_session sv key name r), wc_token = None, wc_user = None\<rparr> r s = (es, False)"
    and "first_status es = Some n"
  shows "\<exists>resp. serve sv v (SessionMiddleware key name h) r s = (Some resp, fold affected es s) \<and>
    rs_status resp = Some n \<and> rs_location resp = first_redirect es"
proof -
  let ?w = "\<lparr>sw_response = new_response, sw_session = request_session sv key name r, sw_wrote_header = False, sw_state = s\<rparr>"
  from assms(2) events_response [of ?w "cookie_store (se_json sv) (se_hmac sv) key" name "se_key_random sv" es]
  show ?thesis
    by (simp add: serve_def load_cookie_session assms(1) Let_def cookie_save_state cookie_events_state finish_response_def
        write_status new_response_def split: option.splits)
qed

lemma bootstrap_keeps: "k \<noteq> csrf_session_key \<Longrightarrow> session_get (snd (bootstrap_token rnd sess)) k = session_get sess k"
  by (simp add: bootstrap_token_def Let_def session_set_def session_get_def)

lemma auth_after_bootstrap:
  "auth_middleware en c (Some (snd (bootstrap_token rnd sess))) s = auth_middleware en c (Some sess) s"
proof -
  have "session_user_key \<noteq> csrf_session_key" by (simp add: session_user_key_def csrf_session_key_def)
  then show ?thesis by (simp add: auth_middleware_def user_from_session_def bootstrap_keeps)
qed

text \<open>What the CSRF middleware decides on a request with a session.\<close>

definition csrf_ok :: "('h, 's) server \<Rightarrow> request \<Rightarrow> session \<Rightarrow> bool" where
  "csrf_ok sv r sess \<longleftrightarrow> safe_method (rq_method r) \<or>
     origin_or_referer_ok (se_parse sv) r \<and> validate_token r (fst (bootstrap_token (se_token_random sv) sess))"

lemma csrf_decides:
  "csrf_middleware (se_parse sv) (se_token_random sv) r (Some sess) =
     (if csrf_ok sv r sess then Passed (Some (fst (bootstrap_token (se_token_random sv) sess))) else Forbidden,
      Some (snd (bootstrap_token (se_token_random sv) sess)))"
  by (cases "bootstrap_token (se_token_random sv) sess") (auto simp: csrf_middleware_def csrf_ok_def Let_def)

lemma application_chain:
  assumes "new_application sqlite_error conflict migs given configs p = (Inr app, p')" and "ap_handler app \<noteq> Liveness"
  obtains router site where "ap_handler app = SessionMiddleware (st_secret_key (ap_settings app)) ''sessionid''
      (CsrfMiddleware (if ap_db app \<noteq> None then AuthMiddleware (RouterHandler router) else RouterHandler router))"
    and "rt_mux router = map (\<lambda>ro. (ro_pattern ro, ro_handler ro)) (app_routes configs @ site_routes site)"
    and "ap_db app = None \<longrightarrow> site = None"
proof -
  from new_application_Inr [OF assms(1)] obtain g where
    "build_handler conflict (ap_settings app) (ap_db app \<noteq> None) configs (pr_resolver p) = (Inr (ap_handler app), g)" by metis
  from build_handler_chain [OF this] assms(2) obtain site router where
    x: "(if ap_db app \<noteq> None then build_admin_site configs else Inr None) = Inr site"
    "new_router_checked conflict (app_routes configs @ site_routes site) = Inr router"
    "ap_handler app = SessionMiddleware (st_secret_key (ap_settings app)) ''sessionid''
       (CsrfMiddleware (if ap_db app \<noteq> None then AuthMiddleware (RouterHandler router) else RouterHandler router))"
    by (auto simp: Let_def split: if_splits)
  from x(1) have none: "ap_db app = None \<longrightarrow> site = None" by auto
  show thesis by (rule that [OF x(3) new_router_mux [OF x(2)] none])
qed

text \<open>C22: Through the handler that \<open>New\<close> built, every request that is not safe and does not carry the token of the
  session of its signed cookie from the right origin is answered with 403 and changes nothing. A request
  that passes and whose path belongs to a page of the admin other than the login, but whose session belongs
  to no active staff user, is answered with the redirect to the login, and all it does is look the user up.\<close>

theorem application_guards_requests:
  assumes new: "new_application sqlite_error conflict migs given configs p = (Inr app, p')"
    and some: "ap_handler app \<noteq> Liveness"
    and sess: "sess = request_session sv (st_secret_key (ap_settings app)) ''sessionid'' r"
  shows "(\<not> csrf_ok sv r sess \<longrightarrow>
      (\<exists>resp. serve sv v (ap_handler app) r s = (Some resp, s) \<and> rs_status resp = Some 403)) \<and>
    (\<forall>i vals view user s1.
       csrf_ok sv r sess \<and> se_match sv (map fst (mounted (ap_handler app))) r = Some (i, vals) \<and>
       i < length (mounted (ap_handler app)) \<and> snd (mounted (ap_handler app) ! i) = AdminHandler (Staff view) \<and>
       auth_middleware (se_env sv) background (Some sess) s = (user, s1) \<and>
       (case user of None \<Rightarrow> True | Some u \<Rightarrow> \<not> is_staff u) \<longrightarrow>
       (\<exists>resp. serve sv v (ap_handler app) r s = (Some resp, s1) \<and> rs_status resp = Some 302 \<and>
          rs_location resp = Some (as_login_url (se_site sv) @ ''?next='' @ query_escape (rq_path r))))"
proof -
  let ?key = "st_secret_key (ap_settings app)"
  let ?sess1 = "snd (bootstrap_token (se_token_random sv) sess)"
  let ?token = "fst (bootstrap_token (se_token_random sv) sess)"
  let ?c = "\<lparr>wc_session = Some sess, wc_token = None, wc_user = None\<rparr>"
  obtain router site where
    chain: "ap_handler app = SessionMiddleware ?key ''sessionid''
      (CsrfMiddleware (if ap_db app \<noteq> None then AuthMiddleware (RouterHandler router) else RouterHandler router))"
    and mux: "rt_mux router = map (\<lambda>ro. (ro_pattern ro, ro_handler ro)) (app_routes configs @ site_routes site)"
    and db: "ap_db app = None \<longrightarrow> site = None"
    by (rule application_chain [OF new some])
  have mounted: "mounted (ap_handler app) = rt_mux router" by (simp add: chain)
  show ?thesis
  proof (intro conjI impI allI)
    assume "\<not> csrf_ok sv r sess"
    then have "handle sv (CsrfMiddleware h) ?c r s =
        ([Change (\<lambda>_. ?sess1), Header 403, Body (''CSRF verification failed'' @ [CHR 0x0A])], False)" for h
      by (simp add: csrf_decides change_to_def error_events_def)
    from serve_chain [OF this [unfolded sess], of 403 v]
    show "\<exists>resp. serve sv v (ap_handler app) r s = (Some resp, s) \<and> rs_status resp = Some 403"
      unfolding chain by auto
  next
    fix i and vals and view and user and s1
    assume a: "csrf_ok sv r sess \<and> se_match sv (map fst (mounted (ap_handler app))) r = Some (i, vals) \<and>
       i < length (mounted (ap_handler app)) \<and> snd (mounted (ap_handler app) ! i) = AdminHandler (Staff view) \<and>
       auth_middleware (se_env sv) background (Some sess) s = (user, s1) \<and>
       (case user of None \<Rightarrow> True | Some u \<Rightarrow> \<not> is_staff u)"
    have "ap_db app \<noteq> None"
    proof
      assume "ap_db app = None"
      with db have "site = None" by simp
      with mux have only: "rt_mux router = map (\<lambda>ro. (ro_pattern ro, ro_handler ro)) (app_routes configs)"
        by (simp add: site_routes_def)
      from a mounted have "AdminHandler (Staff view) \<in> snd ` set (rt_mux router)" by (metis image_eqI nth_mem)
      then show False by (auto simp: only app_routes_def split: option.splits)
    qed
    let ?url = "as_login_url (se_site sv) @ ''?next='' @ query_escape (rq_path r)"
    from a have auth: "auth_middleware (se_env sv) background (Some ?sess1) s = (user, s1)"
      by (simp add: auth_after_bootstrap)
    let ?c1 = "\<lparr>wc_session = Some ?sess1, wc_token = Some ?token, wc_user = None\<rparr>"
    let ?c2 = "case user of None \<Rightarrow> ?c1 | Some u \<Rightarrow> ?c1\<lparr>wc_user := Some u\<rparr>"
    have "run_handler (se_site sv) (se_engine sv) (se_env sv) background (se_stringers sv) (se_kdf sv) (se_key_random sv)
        (Staff view) (admin_request_of sv ?c2 vals r) s1 = ((RedirectReply ?url, Some ?sess1), s1)"
      using a by (auto simp: run_handler_def staff_required_def admin_request_of_def split: option.splits)
    then have router: "handle sv (RouterHandler router) ?c2 r s1 =
        ([Change (\<lambda>_. ?sess1), Effect (\<lambda>_. s1), Moved ?url 302], False)"
      using a by (simp add: mounted admin_events_def change_to_def reply_events_def)
    have "handle sv (AuthMiddleware (RouterHandler router)) ?c1 r s =
        ([Effect (\<lambda>_. s1), Change (\<lambda>_. ?sess1), Effect (\<lambda>_. s1), Moved ?url 302], False)"
      by (simp only: handle.simps(2) web_ctx.select_convs auth prod.case router)
    moreover have "?c\<lparr>wc_session := Some ?sess1, wc_token := Some ?token\<rparr> = ?c1" by simp
    ultimately have "handle sv (CsrfMiddleware (AuthMiddleware (RouterHandler router))) ?c r s =
        ([Change (\<lambda>_. ?sess1), Effect (\<lambda>_. s1), Change (\<lambda>_. ?sess1), Effect (\<lambda>_. s1), Moved ?url 302], False)"
      using a by (simp only: handle.simps(3) web_ctx.select_convs csrf_decides if_True prod.case verdict.case)
        (simp add: change_to_def)
    with \<open>ap_db app \<noteq> None\<close> have "handle sv (CsrfMiddleware (if ap_db app \<noteq> None then AuthMiddleware (RouterHandler router)
        else RouterHandler router)) ?c r s =
        ([Change (\<lambda>_. ?sess1), Effect (\<lambda>_. s1), Change (\<lambda>_. ?sess1), Effect (\<lambda>_. s1), Moved ?url 302], False)"
      by (simp only: if_True not_False_eq_True)
    from serve_chain [OF this [unfolded sess], of 302 v]
    show "\<exists>resp. serve sv v (ap_handler app) r s = (Some resp, s1) \<and> rs_status resp = Some 302 \<and> rs_location resp = Some ?url"
      unfolding chain by auto
  qed
qed

text \<open>The server of the application of one app, whose database answers nothing.\<close>

definition event_server :: "(nat, unit) server" where
  "event_server = \<lparr>se_env = perm_env, se_json = login_json, se_hmac = (\<lambda>k m. k @ m), se_parse = (\<lambda>u. None),
     se_token_random = ''r'', se_key_random = ''k'',
     se_match = (\<lambda>ps r. if rq_path r = ''/admin/'' \<and> length ps = 7 then Some (2, \<lambda>n. []) else None),
     se_unmatched = (\<lambda>ps r. MuxError ''404 page not found'' 404),
     se_view = (\<lambda>h c vals r s. ([], False)), se_site = new_admin_site, se_engine = no_page, se_stringers = no_stringers,
     se_kdf = pad_kdf, se_query = (\<lambda>r. Map.empty), se_post_form = (\<lambda>r. None)\<rparr>"

definition admin_get :: request where
  "admin_get = plain_request\<lparr>rq_path := ''/admin/''\<rparr>"

definition app_holds :: "(new_error + (unit, nat) application \<Rightarrow> bool) \<Rightarrow> bool" where
  "app_holds P = P (fst (new_application (\<lambda>dsn. None) (\<lambda>ps q. None) new_mig_registry blog_settings [event_app] fresh_process))"

lemma event_app_mounts:
  "app_holds (\<lambda>x. case x of Inl e \<Rightarrow> False | Inr app \<Rightarrow>
     length (mounted (ap_handler app)) = 7 \<and> snd (mounted (ap_handler app) ! 2) = AdminHandler (Staff IndexView))"
  by code_simp

theorem application_guards_requests_witness:
  "\<exists>app p'. new_application (\<lambda>dsn. None) (\<lambda>ps q. None) new_mig_registry blog_settings [event_app] fresh_process =
       (Inr app, p') \<and>
     (\<exists>resp. serve event_server ''0'' (ap_handler app) (post_request ''x'') () = (Some resp, ()) \<and>
        rs_status resp = Some 403) \<and>
     (\<exists>resp. serve event_server ''0'' (ap_handler app) admin_get () = (Some resp, ()) \<and>
        rs_status resp = Some 302 \<and> rs_location resp = Some ''/admin/login/?next=%2Fadmin%2F'')"
proof -
  obtain app p' where run: "new_application (\<lambda>dsn. None) (\<lambda>ps q. None) new_mig_registry blog_settings [event_app]
      fresh_process = (Inr app, p')"
    and mounts: "length (mounted (ap_handler app)) = 7" "snd (mounted (ap_handler app) ! 2) = AdminHandler (Staff IndexView)"
    using event_app_mounts unfolding app_holds_def
    by (cases "new_application (\<lambda>dsn. None) (\<lambda>ps q. None) new_mig_registry blog_settings [event_app] fresh_process";
        cases "fst (new_application (\<lambda>dsn. None) (\<lambda>ps q. None) new_mig_registry blog_settings [event_app] fresh_process)")
      auto
  from mounts(1) have some: "ap_handler app \<noteq> Liveness" by auto
  let ?key = "st_secret_key (ap_settings app)"
  have fresh: "request_session event_server ?key ''sessionid'' r = new_session" if "rq_cookies r = []" for r
    using that by (simp add: request_session_def request_cookie_def)
  have cookies: "rq_cookies (post_request ''x'') = []" "rq_cookies admin_get = []"
    by (simp_all add: post_request_def admin_get_def plain_request_def)
  note guards = application_guards_requests [OF run some refl, of event_server]
  have "new_token ''r'' \<noteq> ''x''" by code_simp
  then have bad: "\<not> csrf_ok event_server (post_request ''x'') new_session"
    by (simp add: csrf_ok_def validate_token_def submitted_token_def post_form_value_def post_request_def plain_request_def
        safe_method_def event_server_def bootstrap_token_def session_token_def session_get_def new_session_def Let_def)
  have ok: "csrf_ok event_server admin_get new_session"
    by (simp add: csrf_ok_def admin_get_def plain_request_def safe_method_def)
  have hit: "se_match event_server (map fst (mounted (ap_handler app))) admin_get = Some (2, \<lambda>n. [])"
    using mounts(1) by (simp add: event_server_def admin_get_def)
  have anon: "auth_middleware (se_env event_server) background (Some new_session) () = (None, ())"
    by (simp add: auth_middleware_def user_from_session_def session_get_def new_session_def)
  have escaped: "query_escape ''/admin/'' = ''%2Fadmin%2F''" by code_simp
  have url: "as_login_url (se_site event_server) @ ''?next='' @ query_escape (rq_path admin_get) =
      ''/admin/login/?next=%2Fadmin%2F''"
    using escaped by (simp add: event_server_def new_admin_site_def admin_get_def)
  have "\<exists>resp. serve event_server ''0'' (ap_handler app) (post_request ''x'') () = (Some resp, ()) \<and>
      rs_status resp = Some 403"
    by (rule guards [THEN conjunct1, rule_format]) (use bad fresh [OF cookies(1)] in simp)
  moreover have "\<exists>resp. serve event_server ''0'' (ap_handler app) admin_get () = (Some resp, ()) \<and>
      rs_status resp = Some 302 \<and> rs_location resp = Some ''/admin/login/?next=%2Fadmin%2F''"
    unfolding url [symmetric]
    by (rule guards [THEN conjunct2, rule_format, where i = 2 and vals = "\<lambda>n. []" and view = IndexView and user = None])
      (use ok hit mounts anon fresh [OF cookies(2)] in simp)
  ultimately show ?thesis by (intro exI [of _ app] exI [of _ p'] conjI) (use run in simp_all)
qed

end
