(* ===== verification/Spec2Isabelle.thy ===== *)
theory Spec2Isabelle
  imports Mig_Writer Web_Admin Web_Views App_Scaffold App_Process App_Blog App_Serve
begin

text \<open>
  Djan-Go-Go: a verification library for the Go web framework under \<open>src/\<close>.

  The framework follows Django: apps provide models, routes and admin registrations; \<open>New\<close> wires them into an
  application with a registry of models, a database handle, migrations and an HTTP handler; a management
  command line runs on top. This library models the packages function by function and proves what makes
  them correct. The theories, from the bottom to the top, and the code they model:

  Foundations.
  \<open>Go_Prelude\<close>: results as sums (\<open>Inl\<close> the error), loops that stop at the first error, the rules and
    collections of hints the proofs share.
  \<open>Go_Strings\<close>, \<open>Go_Utf8\<close>, \<open>Go_Base64\<close>, \<open>Go_Time\<close>, \<open>Go_Values\<close>: the parts of \<open>strings\<close>, \<open>strconv\<close>,
    \<open>unicode/utf8\<close>, \<open>encoding/base64\<close>, \<open>time\<close> and \<open>reflect\<close> the source uses. A Go string is a list of bytes; a
    value of type \<open>any\<close> is a \<open>goval\<close>; a fixed-width integer is an \<open>int\<close> with the wrap-around of its width
    written where the code converts.
  \<open>Go_Source\<close>: quoting, scanning and parsing the Go that generated migrations use, with the round trip of
    \<open>strconv.Quote\<close>.

  The ORM (\<open>orm/\<close>).
  \<open>Orm_Field\<close> (\<open>field.go\<close>, \<open>meta.go\<close>, the types of \<open>relations.go\<close>): fields and tags. \<open>Orm_Registry\<close> (\<open>model.go\<close>,
    \<open>registry.go\<close>, \<open>label.go\<close>): a \<open>*Model\<close> is a position in the registry's list. \<open>Orm_Dialect\<close> (\<open>dialect.go\<close>, the two
    backends): both dialects, which interpret the locale \<open>sql_dialect\<close>, and the readers \<open>sqlite_params\<close> and
    \<open>postgres_params\<close> that say which argument each placeholder of a statement takes. \<open>Orm_Query\<close> (\<open>queryset.go\<close>, \<open>lookups.go\<close>, \<open>compiler.go\<close>,
    \<open>selectrelated.go\<close>): query sets and the statements they compile to. \<open>Orm_Transaction\<close> (\<open>transaction.go\<close>): a
    database is a record of functions over a state; \<open>transaction_laws\<close> and \<open>savepoint_laws\<close> state what BEGIN,
    COMMIT, ROLLBACK and savepoints promise. \<open>Orm_Signals\<close> (\<open>signals.go\<close>), \<open>Orm_Rows\<close> (scanning, joined objects),
    \<open>Orm_Execute\<close> (\<open>execute.go\<close>, \<open>rows.go\<close>: the terminals of a query set), \<open>Orm_Relations\<close> (the reverse side of
    foreign keys), \<open>Orm_Tables\<close> (what the components above ask of a database: the SELECT of a query set
    answers the matching rows).
  What is shown: a struct that registers becomes a well-formed model and keeps the registry so; relations link
    to the right models; a query set compiles exactly when it is admissible; the placeholders of every
    statement bind the returned arguments, in order, once each, on both dialects; LIKE patterns match
    literally; \<open>Atomic\<close> is all or nothing and nests; rows read back; \<open>Create\<close> inserts the object its signal
    handlers prepared; \<open>Prefetch\<close> agrees with one query per parent.

  Migrations (\<open>migrations/\<close>).
  \<open>Mig_State\<close> (\<open>state.go\<close>, \<open>ddl.go\<close>, \<open>operations.go\<close>), \<open>Mig_Autodetect\<close> (\<open>autodetect.go\<close>, \<open>migration.go\<close>,
    \<open>registry.go\<close>, \<open>makemigrations.go\<close>), \<open>Mig_Runner\<close> (\<open>runner.go\<close>, \<open>recorder.go\<close>), \<open>Mig_Writer\<close> (\<open>writer.go\<close>).
  What is shown: replaying the difference of two states reaches the new one; a rebuild copies the columns that
    stay; pending migrations run in order, each atomic with its record; the file written for a migration
    parses back to that migration.

  The web packages.
  \<open>Web_Http\<close> (requests and responses of \<open>net/http\<close>), \<open>Web_Urls\<close> (\<open>urls/\<close>), \<open>Web_Sessions\<close> and \<open>Web_DbSessions\<close>
    (\<open>sessions/\<close>: the contract of a store is the locale \<open>session_store\<close>, met by the signed cookie and by the
    database), \<open>Web_Csrf\<close> (\<open>csrf/\<close>), \<open>Web_Auth\<close> (\<open>auth/\<close>), \<open>Web_Widgets\<close>, \<open>Web_Forms\<close> and \<open>Web_ModelForms\<close>
    (\<open>forms/\<close>), \<open>Web_Templates\<close> (\<open>templates/\<close>), \<open>Web_Views\<close> (\<open>views/\<close>), \<open>Web_Admin\<close> (\<open>admin/\<close>).
  What is shown: \<open>Reverse\<close> inverts the router; sessions are saved at the first write and read back; the CSRF
    middleware lets through exactly the requests it should; passwords, logins and permissions mean what they
    say; escaped HTML reads back; forms store what was cleaned; the admin runs for active staff only.

  The application.
  \<open>App_Core\<close> (\<open>conf/\<close>, \<open>apps/\<close>, \<open>manage/\<close>; the contract of a registry is the locale \<open>ordered_registry\<close>, with
    \<open>stored_registry\<close> over it, met by the registries of apps, commands and models), \<open>App_Scaffold\<close> (\<open>scaffold/\<close>, \<open>startproject.go\<close>, \<open>startapp.go\<close>,
    \<open>version.go\<close>), \<open>App_Application\<close> (\<open>application.go\<close>), \<open>App_Commands\<close> (\<open>makemigrations.go\<close>, \<open>migrate.go\<close>,
    \<open>createsuperuser.go\<close>, \<open>runserver.go\<close>, \<open>Execute\<close>), \<open>App_Process\<close> (command after command in one process, as a
    step relation), \<open>App_Serve\<close> (a request through the handler that \<open>New\<close> builds), \<open>App_Blog\<close> (\<open>auth/models.go\<close> as registered structs and the blog of \<open>examples/\<close>).
  What is shown: what \<open>New\<close> wires; that \<open>makemigrations\<close> settles for one app, whatever commands run
    around it, and starts over once a second one has models; that \<open>createsuperuser\<close> makes a login that works; what guards a request end to end; that a
    comment posted to the blog is stored.

  How state and errors are kept. An operation that Go performs on a shared object takes the object and returns
    it changed; one that talks to the database takes the database's state \<open>'s\<close> and returns it. The
    process-wide values (settings, URL resolver, signal handlers, the apps' own state) are arguments and
    results too. A Go error is a constructor of the component's error type, with the text where the code
    composes one; a panic is an outcome of its own (\<open>None\<close>, \<open>Panic\<close>, \<open>NilModel\<close>).

  Parameters, for what is outside \<open>src/\<close>: the database driver (with named laws where a property needs them), the
    JSON codec, HMAC and the key derivation (PBKDF2), random bytes, \<open>url.Parse\<close>, the matching and the
    conflicts of \<open>http.ServeMux\<close>, the template engine, \<open>go/format\<close>, \<open>unicode.IsPrint\<close>, the models' own \<open>String\<close>
    methods and signal handlers, the clock, the file system's and the terminal's errors. Every property with
    such a law has a witness that runs it on a concrete instance.

  Bounds. All loops over data are structural or have a measure. The reader of generated Go takes fuel and is
    started with the number of tokens left, of which every nested call consumes one; the round trip of written
    migrations shows that this is enough. The loop of the \<open>url\<close> tag is a partial function, shown to return
    when every parsed expression consumes a token. What is left out of a function is said in its theory.

  Not modelled. \<open>cmd/djangogo/main.go\<close> (calls \<open>New\<close> and \<open>Execute\<close>); opening a database connection, its
    pragmas and pool; the loop of the HTTP server with its signals and timeouts; reading embedded templates and
    static files; the help and name accessors of commands; accessors that return a field.
\<close>

end
